theory Spec2Isabelle
  imports Main "HOL-Library.AList" "HOL-Library.Finite_Map"
begin

section \<open>Common types\<close>

text \<open>
  The Python exceptions that the modelled server code can raise.  Every function that can
  raise returns \<open>error + 'a\<close>, with \<open>Inl\<close> for the exception.
\<close>

datatype error = IndexError | KeyError | ValueError | UnboundLocalError | AttributeError
  | TypeError | StructError | UnpicklingError | EOFError | TimeoutError | ConnectionError

type_synonym pos = "int \<times> int"

text \<open>
  The module-level generator of Python's \<open>random\<close> is modelled as a stream of natural
  numbers that every call consumes from the front; theorems hold for every stream.
\<close>

type_synonym rng = "nat \<Rightarrow> nat"

definition rng_next :: "rng \<Rightarrow> rng" where
  "rng_next g = (\<lambda>n. g (Suc n))"

text \<open>\<open>random.randint(a, b)\<close>: a value in \<open>[a, b]\<close>; ValueError on an empty range.\<close>

definition randint :: "int \<Rightarrow> int \<Rightarrow> rng \<Rightarrow> error + (int \<times> rng)" where
  "randint a b g =
     (if b < a then Inl ValueError
      else Inr (a + int (g 0) mod (b - a + 1), rng_next g))"

text \<open>\<open>random.choice(seq)\<close>: an element of \<open>seq\<close>; IndexError on the empty sequence.\<close>

definition choice :: "'a list \<Rightarrow> rng \<Rightarrow> error + ('a \<times> rng)" where
  "choice xs g =
     (if xs = [] then Inl IndexError
      else Inr (xs ! (g 0 mod length xs), rng_next g))"

section \<open>Snake (server.py, class Snake)\<close>

text \<open>
  The field \<open>last_move_time\<close> is written by the constructor and never read; it is left out.
  Directions are the strings of the source.
\<close>

record snake =
  player_id :: string
  body :: "pos list"
  direction :: string
  next_direction :: string
  alive :: bool
  score :: int
  color :: string
  prev_head :: pos

definition colors :: "string list" where
  "colors = [''#FF6B6B'', ''#4ECDC4'', ''#45B7D1'', ''#96CEB4'',
             ''#FFEAA7'', ''#DDA0DD'', ''#98D8C8'']"

text \<open>\<open>Snake.__init__\<close> with \<open>color=None\<close>, the only way the server calls it.\<close>

definition new_snake :: "string \<Rightarrow> pos \<Rightarrow> rng \<Rightarrow> error + (snake \<times> rng)" where
  "new_snake pid start_pos g =
     (case choice colors g of
        Inl e \<Rightarrow> Inl e
      | Inr (c, g') \<Rightarrow>
          Inr (\<lparr>player_id = pid, body = [start_pos], direction = ''RIGHT'',
                next_direction = ''RIGHT'', alive = True, score = 0, color = c,
                prev_head = start_pos\<rparr>, g'))"

definition opposite_get :: "string \<Rightarrow> string option" where
  "opposite_get d =
     (if d = ''UP'' then Some ''DOWN''
      else if d = ''DOWN'' then Some ''UP''
      else if d = ''LEFT'' then Some ''RIGHT''
      else if d = ''RIGHT'' then Some ''LEFT''
      else None)"

definition set_direction :: "snake \<Rightarrow> string \<Rightarrow> snake" where
  "set_direction s new_direction =
     (if Some new_direction \<noteq> opposite_get (direction s)
      then s\<lparr>next_direction := new_direction\<rparr>
      else s)"

text \<open>\<open>deltas.get(self.direction, (0, 0))\<close>\<close>

definition deltas_get :: "string \<Rightarrow> int \<times> int" where
  "deltas_get d =
     (if d = ''UP'' then (0, -1)
      else if d = ''DOWN'' then (0, 1)
      else if d = ''LEFT'' then (-1, 0)
      else if d = ''RIGHT'' then (1, 0)
      else (0, 0))"

text \<open>
  \<open>Snake.move(grid_size, food_positions)\<close> returns the updated snake and the returned
  flag (whether food was eaten).  \<open>food_positions\<close> is \<open>None\<close> or a set of cells;
  \<open>self.body[0]\<close> raises IndexError on an empty body.
\<close>

definition in_food :: "pos \<Rightarrow> pos set option \<Rightarrow> bool" where
  "in_food c food_positions =
     (case food_positions of None \<Rightarrow> False | Some F \<Rightarrow> F \<noteq> {} \<and> c \<in> F)"

definition move :: "snake \<Rightarrow> int \<times> int \<Rightarrow> pos set option \<Rightarrow> error + (snake \<times> bool)" where
  "move s grid_size food_positions =
     (if \<not> alive s then Inr (s, False)
      else
        (case body s of
           [] \<Rightarrow> Inl IndexError
         | (head_x, head_y) # _ \<Rightarrow>
             (let s1 = s\<lparr>prev_head := (head_x, head_y), direction := next_direction s\<rparr>;
                  (dx, dy) = deltas_get (direction s1);
                  new_head = (head_x + dx, head_y + dy)
              in
                if fst new_head < 0 \<or> fst new_head \<ge> fst grid_size \<or>
                   snd new_head < 0 \<or> snd new_head \<ge> snd grid_size
                then Inr (s1\<lparr>alive := False\<rparr>, False)
                else if new_head \<in> set (body s1)
                then Inr (s1\<lparr>alive := False\<rparr>, False)
                else
                  (let s2 = s1\<lparr>body := new_head # body s1\<rparr>
                   in
                     if in_food new_head food_positions
                     then Inr (s2\<lparr>score := score s2 + 10\<rparr>, True)
                     else if length (body s2) > 1
                     then Inr (s2\<lparr>body := butlast (body s2)\<rparr>, False)
                     else Inr (s2, False)))))"

text \<open>
  \<open>Snake.check_collision_with_other(other_snake)\<close> may clear the alive flag of both
  snakes; the model returns both snakes and the returned flag.  Both snakes always have
  the attribute \<open>prev_head\<close> (the constructor sets it), so the two \<open>hasattr\<close> tests hold.
\<close>

definition check_collision_with_other ::
    "snake \<Rightarrow> snake \<Rightarrow> error + (snake \<times> snake \<times> bool)" where
  "check_collision_with_other self other_snake =
     (if \<not> alive self \<or> \<not> alive other_snake then Inr (self, other_snake, False)
      else
        (case body self of
           [] \<Rightarrow> Inl IndexError
         | our_head # _ \<Rightarrow>
             (case body other_snake of
                [] \<Rightarrow> Inl IndexError
              | their_head # _ \<Rightarrow>
                  (let their_body = body other_snake
                   in
                     if our_head = their_head
                     then Inr (self\<lparr>alive := False\<rparr>, other_snake\<lparr>alive := False\<rparr>, True)
                     else if prev_head self = their_head \<and> prev_head other_snake = our_head
                     then Inr (self\<lparr>alive := False\<rparr>, other_snake\<lparr>alive := False\<rparr>, True)
                     else if our_head \<in> set their_body
                     then Inr (self\<lparr>alive := False\<rparr>, other_snake, True)
                     else Inr (self, other_snake, False)))))"

text \<open>
  The collision pass at the end of \<open>GameState.update_movement\<close>:
  \<^verbatim>\<open>
  for i in range(len(snake_list)):
      for j in range(i + 1, len(snake_list)):
          snake_list[i].check_collision_with_other(snake_list[j])
          snake_list[j].check_collision_with_other(snake_list[i])
  \<close>
  \<open>pair_step i j\<close> is the body of the inner loop, \<open>for_each\<close> a \<open>for\<close> loop that stops at
  the first exception.
\<close>

fun for_each :: "('a \<Rightarrow> 's \<Rightarrow> error + 's) \<Rightarrow> 'a list \<Rightarrow> 's \<Rightarrow> error + 's" where
  "for_each f [] st = Inr st"
| "for_each f (x # xs) st =
     (case f x st of Inl e \<Rightarrow> Inl e | Inr st' \<Rightarrow> for_each f xs st')"

definition pair_step :: "nat \<Rightarrow> nat \<Rightarrow> snake list \<Rightarrow> error + snake list" where
  "pair_step i j snake_list =
     (case check_collision_with_other (snake_list ! i) (snake_list ! j) of
        Inl e \<Rightarrow> Inl e
      | Inr (si, sj, _) \<Rightarrow>
          (case check_collision_with_other sj si of
             Inl e \<Rightarrow> Inl e
           | Inr (sj', si', _) \<Rightarrow> Inr (snake_list[i := si', j := sj'])))"

definition collision_pass :: "snake list \<Rightarrow> error + snake list" where
  "collision_pass snake_list =
     for_each (\<lambda>i. for_each (\<lambda>j. pair_step i j) [Suc i..<length snake_list])
       [0..<length snake_list] snake_list"


section \<open>GameState (server.py, class GameState)\<close>

text \<open>
  A Python \<open>dict\<close> keeps insertion order, and the collision pass walks \<open>snakes.values()\<close>
  in that order, so a dict is an association list: \<open>map_of\<close> reads a key,
  \<open>AList.update\<close> overwrites in place or appends a new key, \<open>AList.delete\<close> removes it.
  The lock is left out: the model runs one method at a time.
\<close>

record game_state =
  grid_size :: "int \<times> int"
  snakes :: "(string \<times> snake) list"
  food_positions :: "pos list"
  game_active :: bool

definition occupied :: "game_state \<Rightarrow> pos \<Rightarrow> bool" where
  "occupied gs c = (\<exists>s \<in> set (map snd (snakes gs)). c \<in> set (body s))"

text \<open>
  The \<open>while attempts < 50\<close> loop of \<open>_generate_food\<close>, for one food item: a random
  cell is appended to the food list when no snake body and no food holds it; after 50
  failed attempts nothing is placed.
\<close>

function food_attempts :: "nat \<Rightarrow> game_state \<Rightarrow> rng \<Rightarrow> error + (game_state \<times> rng)" where
  "food_attempts attempts gs g =
     (if attempts < 50 then
        (case randint 0 (fst (grid_size gs) - 1) g of
           Inl e \<Rightarrow> Inl e
         | Inr (x, g1) \<Rightarrow>
             (case randint 0 (snd (grid_size gs) - 1) g1 of
                Inl e \<Rightarrow> Inl e
              | Inr (y, g2) \<Rightarrow>
                  (if \<not> occupied gs (x, y) \<and> (x, y) \<notin> set (food_positions gs)
                   then Inr (gs\<lparr>food_positions := food_positions gs @ [(x, y)]\<rparr>, g2)
                   else food_attempts (attempts + 1) gs g2)))
      else Inr (gs, g))"
  by pat_completeness auto
termination
  by (relation "measure (\<lambda>(attempts, gs, g). 50 - attempts)") auto

declare food_attempts.simps [simp del]

primrec generate_food :: "nat \<Rightarrow> game_state \<Rightarrow> rng \<Rightarrow> error + (game_state \<times> rng)" where
  "generate_food 0 gs g = Inr (gs, g)"
| "generate_food (Suc n) gs g =
     (case food_attempts 0 gs g of
        Inl e \<Rightarrow> Inl e
      | Inr (gs', g') \<Rightarrow> generate_food n gs' g')"

text \<open>\<open>GameState.__init__(grid_size)\<close>\<close>

definition new_game_state :: "int \<times> int \<Rightarrow> rng \<Rightarrow> error + (game_state \<times> rng)" where
  "new_game_state grid g =
     generate_food 5
       \<lparr>grid_size = grid, snakes = [], food_positions = [], game_active = False\<rparr> g"

text \<open>
  \<open>GameState.add_player\<close>: the \<open>for _ in range(max_attempts)\<close> loop returns from the
  method at the first free start cell (\<open>Some\<close>); \<open>None\<close> means the loop ran out.
\<close>

primrec place_attempts ::
    "nat \<Rightarrow> game_state \<Rightarrow> string \<Rightarrow> rng \<Rightarrow> error + (game_state option \<times> rng)" where
  "place_attempts 0 gs pid g = Inr (None, g)"
| "place_attempts (Suc n) gs pid g =
     (case randint 3 (fst (grid_size gs) - 4) g of
        Inl e \<Rightarrow> Inl e
      | Inr (start_x, g1) \<Rightarrow>
          (case randint 3 (snd (grid_size gs) - 4) g1 of
             Inl e \<Rightarrow> Inl e
           | Inr (start_y, g2) \<Rightarrow>
               (if \<not> occupied gs (start_x, start_y)
                then (case new_snake pid (start_x, start_y) g2 of
                        Inl e \<Rightarrow> Inl e
                      | Inr (s, g3) \<Rightarrow>
                          Inr (Some (gs\<lparr>snakes := AList.update pid s (snakes gs)\<rparr>), g3))
                else place_attempts n gs pid g2)))"

definition gs_add_player ::
    "game_state \<Rightarrow> string \<Rightarrow> rng \<Rightarrow> error + (game_state \<times> bool \<times> rng)" where
  "gs_add_player gs pid g =
     (if map_of (snakes gs) pid \<noteq> None then Inr (gs, True, g)
      else
        (case place_attempts 100 gs pid g of
           Inl e \<Rightarrow> Inl e
         | Inr (Some gs', g') \<Rightarrow> Inr (gs', True, g')
         | Inr (None, g') \<Rightarrow>
             (case randint 5 (fst (grid_size gs) - 6) g' of
                Inl e \<Rightarrow> Inl e
              | Inr (start_x, g1) \<Rightarrow>
                  (case randint 5 (snd (grid_size gs) - 6) g1 of
                     Inl e \<Rightarrow> Inl e
                   | Inr (start_y, g2) \<Rightarrow>
                       (case new_snake pid (start_x, start_y) g2 of
                          Inl e \<Rightarrow> Inl e
                        | Inr (s, g3) \<Rightarrow>
                            Inr (gs\<lparr>snakes := AList.update pid s (snakes gs)\<rparr>, True, g3))))))"

definition gs_remove_player :: "game_state \<Rightarrow> string \<Rightarrow> game_state" where
  "gs_remove_player gs pid =
     (if map_of (snakes gs) pid \<noteq> None
      then gs\<lparr>snakes := AList.delete pid (snakes gs)\<rparr>
      else gs)"

text \<open>
  The payload of a message is an unpickled Python value.  The model keeps \<open>None\<close>,
  integers, strings and dicts with string keys, the shapes of the protocol's messages; on
  these values Python's \<open>==\<close> is equality.
\<close>

datatype pyval = PyNone | PyInt int | PyStr string
  | PyDict "(string, pyval) fmap"

fun truthy :: "pyval \<Rightarrow> bool" where
  "truthy PyNone = False"
| "truthy (PyInt n) = (n \<noteq> 0)"
| "truthy (PyStr s) = (s \<noteq> [])"
| "truthy (PyDict d) = (d \<noteq> fmempty)"

definition update_player_direction ::
    "game_state \<Rightarrow> string \<Rightarrow> pyval \<Rightarrow> game_state \<times> bool" where
  "update_player_direction gs pid new_direction =
     (case map_of (snakes gs) pid of
        Some s \<Rightarrow>
          (if game_active gs then
             (case new_direction of
                PyStr d \<Rightarrow>
                  (if d \<in> set [''UP'', ''DOWN'', ''LEFT'', ''RIGHT'']
                   then (gs\<lparr>snakes := AList.update pid (set_direction s d) (snakes gs)\<rparr>, True)
                   else (gs, False))
              | _ \<Rightarrow> (gs, False))
           else (gs, False))
      | None \<Rightarrow> (gs, False))"

text \<open>
  \<open>GameState.update_movement\<close>.  First loop: every snake moves, in dict order; the
  snakes whose \<open>move\<close> returned true are collected.
\<close>

fun move_snakes ::
    "(string \<times> snake) list \<Rightarrow> int \<times> int \<Rightarrow> pos set option \<Rightarrow>
     error + ((string \<times> snake) list \<times> snake list)" where
  "move_snakes [] grid food_set = Inr ([], [])"
| "move_snakes ((pid, s) # rest) grid food_set =
     (case move s grid food_set of
        Inl e \<Rightarrow> Inl e
      | Inr (s', ate) \<Rightarrow>
          (case move_snakes rest grid food_set of
             Inl e \<Rightarrow> Inl e
           | Inr (rest', snakes_ate_food) \<Rightarrow>
               Inr ((pid, s') # rest', (if ate then [s'] else []) @ snakes_ate_food)))"

text \<open>Second loop: eaten food is removed and one replacement is generated for it.\<close>

fun replace_food :: "snake list \<Rightarrow> game_state \<Rightarrow> rng \<Rightarrow> error + (game_state \<times> rng)" where
  "replace_food [] gs g = Inr (gs, g)"
| "replace_food (s # rest) gs g =
     (case body s of
        [] \<Rightarrow> Inl IndexError
      | head_pos # _ \<Rightarrow>
          (if head_pos \<in> set (food_positions gs)
           then (case generate_food 1
                        (gs\<lparr>food_positions := remove1 head_pos (food_positions gs)\<rparr>) g of
                   Inl e \<Rightarrow> Inl e
                 | Inr (gs', g') \<Rightarrow> replace_food rest gs' g')
           else replace_food rest gs g))"

definition update_movement :: "game_state \<Rightarrow> rng \<Rightarrow> error + (game_state \<times> rng)" where
  "update_movement gs g =
     (if \<not> game_active gs then Inr (gs, g)
      else
        (case move_snakes (snakes gs) (grid_size gs) (Some (set (food_positions gs))) of
           Inl e \<Rightarrow> Inl e
         | Inr (moved, snakes_ate_food) \<Rightarrow>
             (case replace_food snakes_ate_food (gs\<lparr>snakes := moved\<rparr>) g of
                Inl e \<Rightarrow> Inl e
              | Inr (gs1, g1) \<Rightarrow>
                  (case collision_pass (map snd (snakes gs1)) of
                     Inl e \<Rightarrow> Inl e
                   | Inr snake_list \<Rightarrow>
                       Inr (gs1\<lparr>snakes := zip (map fst (snakes gs1)) snake_list\<rparr>, g1)))))"


section \<open>Messages sent by the server\<close>

text \<open>
  The texts of the source are Cyrillic string constants that the server only passes on;
  each is a constructor here.  A room name is the lobby's constant, the client's value, or
  the generated \<open>f"..._{random.randint(100, 999)}"\<close>.
\<close>

datatype room_name = Lobby_name | Generated_name int | Given_name pyval

datatype reply =
    Room_full | Already_in_room | Joined_ok | Add_failed
  | Only_creator_starts | Need_a_player | Already_running | Game_begun
  | Only_creator_restarts | No_players | Game_restarted

datatype notice =
    Joined_lobby_notice pyval | Joined_room_notice pyval
  | Left_room_notice pyval | Left_game_notice pyval

datatype game_over_payload =
    Winner string pyval int
  | Draw
  | Single_player int

record room_info =
  info_room_id :: string
  info_room_name :: room_name
  info_player_count :: nat
  info_max_players :: int
  info_creator :: pyval
  info_game_active :: bool

datatype payload =
    Auth_success string string
  | Text_notice notice
  | Chat_text pyval
  | Room_list "room_info list"
  | Room_joined string room_name "pyval list" bool
  | Game_started reply pyval string
  | Game_data game_state
  | Game_over game_over_payload

text \<open>
  \<open>GameProtocol.create_message\<close>; the timestamp (the wall clock) is left out.
  \<open>GameProtocol.send_message\<close> never raises and its result is never read by the server,
  so a send is an entry \<open>(socket, message)\<close> appended to the list of sends.
\<close>

record message =
  msg_type :: string
  from_user :: pyval
  msg_data :: payload

definition create_message :: "string \<Rightarrow> pyval \<Rightarrow> payload \<Rightarrow> message" where
  "create_message t u d = \<lparr>msg_type = t, from_user = u, msg_data = d\<rparr>"

definition SERVER :: pyval where
  "SERVER = PyStr ''SERVER''"

type_synonym sends = "(nat \<times> message) list"

section \<open>GameRoom (server.py, class GameRoom)\<close>

record player_info =
  username :: pyval
  socket :: nat

record game_room =
  room_id :: string
  room_name :: room_name
  max_players :: int
  game_state :: game_state
  players :: "(string \<times> player_info) list"
  creator_id :: "string option"
  game_active :: bool

text \<open>\<open>GameRoom.__init__\<close>; \<open>GameState()\<close> takes the default grid.\<close>

definition new_room :: "string \<Rightarrow> room_name \<Rightarrow> int \<Rightarrow> rng \<Rightarrow> error + (game_room \<times> rng)" where
  "new_room rid name cap g =
     (case new_game_state (40, 30) g of
        Inl e \<Rightarrow> Inl e
      | Inr (gs, g') \<Rightarrow>
          Inr (\<lparr>room_id = rid, room_name = name, max_players = cap, game_state = gs,
                players = [], creator_id = None, game_active = False\<rparr>, g'))"

definition add_player ::
    "game_room \<Rightarrow> string \<Rightarrow> player_info \<Rightarrow> rng \<Rightarrow>
     error + (game_room \<times> (bool \<times> reply) \<times> rng)" where
  "add_player room pid info g =
     (if int (length (players room)) \<ge> max_players room
      then Inr (room, (False, Room_full), g)
      else if map_of (players room) pid \<noteq> None
      then Inr (room, (False, Already_in_room), g)
      else
        (let r1 = room\<lparr>players := AList.update pid info (players room)\<rparr>;
             r2 = (if creator_id r1 = None then r1\<lparr>creator_id := Some pid\<rparr> else r1)
         in
           (case gs_add_player (game_state r2) pid g of
              Inl e \<Rightarrow> Inl e
            | Inr (gs', ok, g') \<Rightarrow>
                (if ok then Inr (r2\<lparr>game_state := gs'\<rparr>, (True, Joined_ok), g')
                 else Inr (r2\<lparr>game_state := gs',
                              players := AList.delete pid (players r2)\<rparr>,
                           (False, Add_failed), g')))))"

definition notify_creator_change :: "game_room \<Rightarrow> sends" where
  "notify_creator_change room =
     map (\<lambda>(pid, info).
            (socket info,
             create_message ''room_joined'' SERVER
               (Room_joined (room_id room) (room_name room)
                  (map (\<lambda>(p, i). username i) (players room))
                  (Some pid = creator_id room))))
         (players room)"

text \<open>
  \<open>GameRoom.remove_player\<close>.  \<open>has_players\<close> is assigned only inside
  \<open>if player_id in self.players\<close>, and read after it: for a player the room does not
  list, the read raises UnboundLocalError (the room is unchanged then).
\<close>

definition remove_player ::
    "game_room \<Rightarrow> string \<Rightarrow> rng \<Rightarrow> error + (game_room \<times> bool \<times> rng \<times> sends)" where
  "remove_player room pid g =
     (if map_of (players room) pid \<noteq> None then
        (let r1 = room\<lparr>players := AList.delete pid (players room),
                       game_state := gs_remove_player (game_state room) pid\<rparr>
         in
           (case (if Some pid = creator_id r1 then
                    (if players r1 \<noteq> [] then
                       (case choice (map fst (players r1)) g of
                          Inl e \<Rightarrow> Inl e
                        | Inr (c, g') \<Rightarrow> Inr (r1\<lparr>creator_id := Some c\<rparr>, g'))
                     else Inr (r1\<lparr>creator_id := None, game_active := False\<rparr>, g))
                  else if players r1 = [] then
                    Inr (r1\<lparr>creator_id := None, game_active := False\<rparr>, g)
                  else Inr (r1, g)) of
              Inl e \<Rightarrow> Inl e
            | Inr (r2, g') \<Rightarrow>
                (let has_players = (length (players r2) > 0)
                 in Inr (r2, \<not> has_players, g',
                         if has_players then notify_creator_change r2 else []))))
      else Inl UnboundLocalError)"

definition start_game :: "game_room \<Rightarrow> string \<Rightarrow> game_room \<times> (bool \<times> reply)" where
  "start_game room pid =
     (if Some pid \<noteq> creator_id room then (room, (False, Only_creator_starts))
      else if length (players room) < 1 then (room, (False, Need_a_player))
      else if game_room.game_active room then (room, (False, Already_running))
      else (room\<lparr>game_room.game_active := True,
                 game_state := (game_state room)\<lparr>game_state.game_active := True\<rparr>\<rparr>,
            (True, Game_begun)))"

fun add_all :: "string list \<Rightarrow> game_state \<Rightarrow> rng \<Rightarrow> error + (game_state \<times> rng)" where
  "add_all [] gs g = Inr (gs, g)"
| "add_all (pid # pids) gs g =
     (case gs_add_player gs pid g of
        Inl e \<Rightarrow> Inl e
      | Inr (gs', _, g') \<Rightarrow> add_all pids gs' g')"

definition restart_game ::
    "game_room \<Rightarrow> string \<Rightarrow> rng \<Rightarrow> error + (game_room \<times> (bool \<times> reply) \<times> rng)" where
  "restart_game room pid g =
     (if Some pid \<noteq> creator_id room then Inr (room, (False, Only_creator_restarts), g)
      else if players room = [] then Inr (room, (False, No_players), g)
      else
        (let old_grid_size = grid_size (game_state room)
         in
           (case new_game_state old_grid_size g of
              Inl e \<Rightarrow> Inl e
            | Inr (fresh, g1) \<Rightarrow>
                (case add_all (map fst (players room)) fresh g1 of
                   Inl e \<Rightarrow> Inl e
                 | Inr (new_state, g2) \<Rightarrow>
                     Inr (room\<lparr>game_state := new_state\<lparr>game_state.game_active := True\<rparr>,
                               game_room.game_active := True\<rparr>,
                          (True, Game_restarted), g2)))))"

definition get_room_info :: "game_room \<Rightarrow> room_info" where
  "get_room_info room =
     \<lparr>info_room_id = room_id room,
      info_room_name = room_name room,
      info_player_count = length (players room),
      info_max_players = max_players room,
      info_creator =
        (case creator_id room of
           None \<Rightarrow> PyStr ''Unknown''
         | Some c \<Rightarrow>
             (case map_of (players room) c of
                None \<Rightarrow> PyStr ''Unknown''
              | Some info \<Rightarrow> username info)),
      info_game_active = game_room.game_active room\<rparr>"

definition broadcast_message :: "game_room \<Rightarrow> message \<Rightarrow> string option \<Rightarrow> sends" where
  "broadcast_message room m exclude_player =
     map (\<lambda>(pid, info). (socket info, m))
         (filter (\<lambda>(pid, info). Some pid \<noteq> exclude_player) (players room))"

text \<open>
  \<open>GameRoom.update_game\<close>.  \<open>end_condition\<close> is the \<open>if/elif\<close> chain that computes
  \<open>game_over_payload\<close> from the snakes after the movement; \<open>self.players[pid]\<close> raises
  KeyError for a snake whose player the room does not list.
\<close>

definition end_condition ::
    "game_room \<Rightarrow> (string \<times> snake) list \<Rightarrow> error + game_over_payload option" where
  "end_condition room sn =
     (let alive_list = filter (\<lambda>(pid, s). alive s) sn;
          total = length sn
      in
        if length alive_list = 1 \<and> total > 1 then
          (case alive_list of
             (pid, s) # _ \<Rightarrow>
               (case map_of (players room) pid of
                  None \<Rightarrow> Inl KeyError
                | Some info \<Rightarrow> Inr (Some (Winner pid (username info) (score s))))
           | [] \<Rightarrow> Inl IndexError)
        else if length alive_list = 0 \<and> total > 1 then Inr (Some Draw)
        else if total = 1 \<and> length alive_list = 0 then
          (case sn of
             (pid, s) # _ \<Rightarrow> Inr (Some (Single_player (score s)))
           | [] \<Rightarrow> Inl IndexError)
        else Inr None)"

definition update_game :: "game_room \<Rightarrow> rng \<Rightarrow> error + (game_room \<times> rng \<times> sends)" where
  "update_game room g =
     (if \<not> game_room.game_active room then Inr (room, g, [])
      else
        (case update_movement (game_state room) g of
           Inl e \<Rightarrow> Inl e
         | Inr (gs, g') \<Rightarrow>
             (case end_condition room (snakes gs) of
                Inl e \<Rightarrow> Inl e
              | Inr game_over \<Rightarrow>
                  (let room1 = room\<lparr>game_state := gs\<rparr>;
                       room2 =
                         (if game_over \<noteq> None
                          then room1\<lparr>game_room.game_active := False,
                                     game_state := gs\<lparr>game_state.game_active := False\<rparr>\<rparr>
                          else room1);
                       over_sends =
                         (case game_over of
                            None \<Rightarrow> []
                          | Some p \<Rightarrow>
                              broadcast_message room2
                                (create_message ''game_over'' SERVER (Game_over p)) None);
                       game_data =
                         (game_state room2)\<lparr>game_state.game_active :=
                                               game_room.game_active room2\<rparr>
                   in
                     Inr (room2, g',
                          over_sends @
                          broadcast_message room2
                            (create_message ''game_state'' SERVER (Game_data game_data))
                            None)))))"


section \<open>Wire protocol (game_protocol.py, class GameProtocol)\<close>

text \<open>
  What a socket delivers to successive \<open>recv\<close> calls: a chunk of bytes, a read timeout
  (\<open>socket.timeout\<close>) or another socket error; at the end of the list the peer has
  closed the connection and \<open>recv\<close> returns \<open>b''\<close>.  A chunk longer than the requested
  size is handed out in pieces.
\<close>

datatype recv_event = Chunk "nat list" | Timeout | Reset

fun recv :: "nat \<Rightarrow> recv_event list \<Rightarrow> (error + nat list) \<times> recv_event list" where
  "recv n [] = (Inr [], [])"
| "recv n (Timeout # rest) = (Inl TimeoutError, rest)"
| "recv n (Reset # rest) = (Inl ConnectionError, rest)"
| "recv n (Chunk bs # rest) =
     (if length bs \<le> n then (Inr bs, rest)
      else (Inr (take n bs), Chunk (drop n bs) # rest))"

text \<open>\<open>struct.unpack('!I', length_data)[0]\<close>: four bytes, big-endian.\<close>

definition unpack_length :: "nat list \<Rightarrow> error + nat" where
  "unpack_length length_data =
     (if length length_data \<noteq> 4 then Inl StructError
      else Inr (foldl (\<lambda>acc b. acc * 256 + b) 0 length_data))"

text \<open>
  \<open>pickle.loads\<close> is a parameter: it returns a value or raises.
  \<open>deserialize_message\<close> turns four exception classes into \<open>None\<close> and lets any other
  pass.
\<close>

definition deserialize_message ::
    "(nat list \<Rightarrow> error + pyval) \<Rightarrow> nat list \<Rightarrow> error + pyval" where
  "deserialize_message loads data =
     (if data = [] then Inr PyNone
      else
        (case loads data of
           Inl e \<Rightarrow>
             (if e \<in> {UnpicklingError, EOFError, AttributeError, KeyError}
              then Inr PyNone else Inl e)
         | Inr v \<Rightarrow> Inr v))"

text \<open>
  The loop \<open>while len(data) < length\<close> of \<open>receive_message\<close>; \<open>None\<close> is the
  \<open>return None\<close> on an empty chunk.
\<close>

function read_body ::
    "nat \<Rightarrow> nat list \<Rightarrow> recv_event list \<Rightarrow> (error + nat list option) \<times> recv_event list" where
  "read_body len data inp =
     (if length data < len then
        (case recv (min 4096 (len - length data)) inp of
           (Inl e, inp') \<Rightarrow> (Inl e, inp')
         | (Inr chunk, inp') \<Rightarrow>
             (if chunk = [] then (Inr None, inp')
              else read_body len (data @ chunk) inp'))
      else (Inr (Some data), inp))"
  by pat_completeness auto
termination
  by (relation "measure (\<lambda>(len, data, inp). len - length data)")
     (auto simp: neq_Nil_conv)

declare read_body.simps [simp del]

text \<open>
  \<open>GameProtocol.receive_message(sock)\<close> returns the decoded value, or \<open>None\<close>
  (\<open>PyNone\<close>) on each of its early returns and, through \<open>except Exception\<close>, on every
  exception.  The second component is what is left to read.
\<close>

definition receive_message ::
    "(nat list \<Rightarrow> error + pyval) \<Rightarrow> recv_event list \<Rightarrow> pyval \<times> recv_event list" where
  "receive_message loads inp =
     (case recv 4 inp of
        (Inl e, inp1) \<Rightarrow> (PyNone, inp1)
      | (Inr length_data, inp1) \<Rightarrow>
          (if length_data = [] then (PyNone, inp1)
           else
             (case unpack_length length_data of
                Inl e \<Rightarrow> (PyNone, inp1)
              | Inr len \<Rightarrow>
                  (if len > 10 * 1024 * 1024 then (PyNone, inp1)
                   else if len = 0 then (PyNone, inp1)
                   else
                     (case read_body len [] inp1 of
                        (Inl e, inp2) \<Rightarrow> (PyNone, inp2)
                      | (Inr None, inp2) \<Rightarrow> (PyNone, inp2)
                      | (Inr (Some data), inp2) \<Rightarrow>
                          (case deserialize_message loads data of
                             Inl e \<Rightarrow> (PyNone, inp2)
                           | Inr result \<Rightarrow> (result, inp2)))))))"

section \<open>GameServer (server.py, class GameServer)\<close>

text \<open>
  An entry of the player directory: \<open>{'username', 'socket', 'room_id'}\<close>.
\<close>

record player_entry = player_info +
  room_id :: "string option"

text \<open>
  The server.  \<open>self.rooms\<close> always holds the entry \<open>"lobby"\<close>, whose value is the object
  \<open>self.lobby_room\<close>; that object is the field \<open>lobby_room\<close> here and \<open>rooms\<close> holds the
  other entries of the dict, in insertion order.  (Every loop over \<open>self.rooms\<close> skips the
  key \<open>"lobby"\<close>, and no room id generated later equals it.)  \<open>random_state\<close> is the state
  of the module \<open>random\<close>, \<open>sent\<close> the messages handed to \<open>GameProtocol.send_message\<close> so far,
  \<open>closed_sockets\<close> the client sockets the server has closed.  \<open>stop_server\<close> is not
  modelled; the locks are left out: the model runs one handler at a time.
\<close>

record game_server =
  running :: bool
  players :: "(string \<times> player_entry) list"
  rooms :: "(string \<times> game_room) list"
  lobby_room :: game_room
  player_counter :: nat
  room_counter :: nat
  random_state :: rng
  sent :: sends
  closed_sockets :: "nat list"

text \<open>\<open>str(n)\<close> for the counters in \<open>f"player_{n}"\<close> and \<open>f"room_{n}"\<close>.\<close>

function str_nat :: "nat \<Rightarrow> string" where
  "str_nat n =
     (if n < 10 then [''0123456789'' ! n]
      else str_nat (n div 10) @ [''0123456789'' ! (n mod 10)])"
  by pat_completeness auto
termination
  by (relation "measure id") auto

declare str_nat.simps [simp del]

text \<open>\<open>GameServer.__init__\<close> with \<open>_create_lobby\<close>, then \<open>start_server\<close> sets \<open>running\<close>.\<close>

definition new_server :: "rng \<Rightarrow> error + game_server" where
  "new_server g =
     (case new_room ''lobby'' Lobby_name 50 g of
        Inl e \<Rightarrow> Inl e
      | Inr (lobby, g') \<Rightarrow>
          Inr \<lparr>running = False, players = [], rooms = [], lobby_room = lobby,
               player_counter = 0, room_counter = 0, random_state = g', sent = [],
               closed_sockets = []\<rparr>)"

definition start_server :: "game_server \<Rightarrow> game_server" where
  "start_server srv = srv\<lparr>running := True\<rparr>"

text \<open>\<open>self.rooms.get(rid)\<close>, and writing a mutated room object back.\<close>

definition rooms_get :: "game_server \<Rightarrow> string \<Rightarrow> game_room option" where
  "rooms_get srv rid =
     (if rid = ''lobby'' then Some (lobby_room srv) else map_of (rooms srv) rid)"

definition store_room :: "game_server \<Rightarrow> string \<Rightarrow> game_room \<Rightarrow> game_server" where
  "store_room srv rid room =
     (if rid = ''lobby'' then srv\<lparr>lobby_room := room\<rparr>
      else srv\<lparr>rooms := AList.update rid room (rooms srv)\<rparr>)"

text \<open>\<open>message.get(key)\<close>: only a dict has the method.\<close>

definition py_get :: "pyval \<Rightarrow> string \<Rightarrow> error + pyval" where
  "py_get m k =
     (case m of
        PyDict d \<Rightarrow> Inr (case fmlookup d k of None \<Rightarrow> PyNone | Some v \<Rightarrow> v)
      | _ \<Rightarrow> Inl AttributeError)"

definition send_to :: "game_server \<Rightarrow> sends \<Rightarrow> game_server" where
  "send_to srv out = srv\<lparr>sent := sent srv @ out\<rparr>"

definition send_message_to_player :: "game_server \<Rightarrow> string \<Rightarrow> message \<Rightarrow> game_server" where
  "send_message_to_player srv pid m =
     (case map_of (game_server.players srv) pid of
        None \<Rightarrow> srv
      | Some e \<Rightarrow> send_to srv [(socket e, m)])"

definition get_room_list_message :: "game_server \<Rightarrow> message" where
  "get_room_list_message srv =
     create_message ''room_list'' SERVER
       (Room_list (map (\<lambda>(rid, room). get_room_info room) (rooms srv)))"

definition send_room_list_to_player :: "game_server \<Rightarrow> string \<Rightarrow> game_server" where
  "send_room_list_to_player srv pid =
     send_message_to_player srv pid (get_room_list_message srv)"

definition broadcast_room_list_to_lobby :: "game_server \<Rightarrow> game_server" where
  "broadcast_room_list_to_lobby srv =
     send_to srv (broadcast_message (lobby_room srv) (get_room_list_message srv) None)"

text \<open>
  The block shared by \<open>move_player_to_room\<close> and \<open>GameServer.remove_player\<close>: the
  player leaves the room object, the room is told, and a non-lobby room that is now empty
  is popped from the directory.  An exception of \<open>GameRoom.remove_player\<close> passes on.
\<close>

definition leave_room_object ::
    "game_server \<Rightarrow> string \<Rightarrow> game_room \<Rightarrow> string \<Rightarrow> notice \<Rightarrow> game_server \<times> error option" where
  "leave_room_object srv rid room pid leave_text =
     (case remove_player room pid (random_state srv) of
        Inl e \<Rightarrow> (srv, Some e)
      | Inr (room', now_empty, g', out) \<Rightarrow>
          (let srv1 = send_to ((store_room srv rid room')\<lparr>random_state := g'\<rparr>) out;
               srv2 = send_to srv1
                        (broadcast_message room'
                           (create_message ''player_left'' SERVER (Text_notice leave_text))
                           None)
           in
             if now_empty \<and> rid \<noteq> ''lobby''
             then (srv2\<lparr>rooms := AList.delete rid (rooms srv2)\<rparr>, None)
             else (srv2, None)))"

definition srv_remove_player :: "game_server \<Rightarrow> string \<Rightarrow> game_server \<times> error option" where
  "srv_remove_player srv pid =
     (case map_of (game_server.players srv) pid of
        None \<Rightarrow> (srv, None)
      | Some e \<Rightarrow>
          (let srv1 = srv\<lparr>game_server.players := AList.delete pid (game_server.players srv)\<rparr>
           in
             (case (case player_entry.room_id e of
                      None \<Rightarrow> (srv1, None)
                    | Some rid \<Rightarrow>
                        (if rid = [] then (srv1, None)
                         else
                           (case rooms_get srv1 rid of
                              None \<Rightarrow> (srv1, None)
                            | Some room \<Rightarrow>
                                leave_room_object srv1 rid room pid
                                  (Left_game_notice (username e))))) of
                (srv2, Some err) \<Rightarrow> (srv2, Some err)
              | (srv2, None) \<Rightarrow> (broadcast_room_list_to_lobby srv2, None))))"

definition move_player_to_room ::
    "game_server \<Rightarrow> string \<Rightarrow> string \<Rightarrow> room_name \<Rightarrow> game_server \<times> error option" where
  "move_player_to_room srv pid new_room_id name =
     (case map_of (game_server.players srv) pid of
        None \<Rightarrow> (srv, Some KeyError)
      | Some e \<Rightarrow>
          (let old_room_id = player_entry.room_id e;
               info = \<lparr>username = username e, socket = socket e\<rparr>
           in
             (case (case old_room_id of
                      None \<Rightarrow> (srv, None)
                    | Some rid \<Rightarrow>
                        (if rid \<noteq> [] \<and> rid \<noteq> new_room_id then
                           (case rooms_get srv rid of
                              None \<Rightarrow> (srv, None)
                            | Some old_room \<Rightarrow>
                                leave_room_object srv rid old_room pid
                                  (Left_room_notice (username e)))
                         else (srv, None))) of
                (srv1, Some err) \<Rightarrow> (srv1, Some err)
              | (srv1, None) \<Rightarrow>
                  (case rooms_get srv1 new_room_id of
                     None \<Rightarrow> (srv1, None)
                   | Some target_room \<Rightarrow>
                       (case add_player target_room pid info (random_state srv1) of
                          Inl err \<Rightarrow> (srv1, Some err)
                        | Inr (room', (ok, _), g') \<Rightarrow>
                            (let srv2 = (store_room srv1 new_room_id room')\<lparr>random_state := g'\<rparr>
                             in
                               if \<not> ok then (srv2, None)
                               else
                                 (let srv3 = srv2\<lparr>game_server.players :=
                                               AList.update pid
                                                 (e\<lparr>player_entry.room_id := Some new_room_id\<rparr>)
                                                 (game_server.players srv2)\<rparr>;
                                      srv4 = send_message_to_player srv3 pid
                                               (create_message ''room_joined'' SERVER
                                                  (Room_joined new_room_id name
                                                     (map (\<lambda>(p, i). username i)
                                                        (game_room.players room'))
                                                     (creator_id room' = Some pid)));
                                      srv5 = send_to srv4
                                               (broadcast_message room'
                                                  (create_message ''player_joined'' SERVER
                                                     (Text_notice (Joined_room_notice (username e))))
                                                  (Some pid))
                                  in
                                    if new_room_id \<noteq> ''lobby''
                                    then (send_message_to_player srv5 pid
                                            (create_message ''game_state'' SERVER
                                               (Game_data (game_state room'))), None)
                                    else (srv5, None))))))))"

text \<open>
  The common start of \<open>handle_start_game\<close>, \<open>handle_restart_game\<close> and
  \<open>handle_player_move\<close>: the player is in the directory, its \<open>room_id\<close> is set and is
  not the lobby, and the room directory has that room.
\<close>

definition own_game_room ::
    "game_server \<Rightarrow> string \<Rightarrow> (player_entry \<times> string \<times> game_room) option" where
  "own_game_room srv pid =
     (case map_of (game_server.players srv) pid of
        None \<Rightarrow> None
      | Some e \<Rightarrow>
          (case player_entry.room_id e of
             None \<Rightarrow> None
           | Some rid \<Rightarrow>
               (if rid = [] \<or> rid = ''lobby'' then None
                else
                  (case rooms_get srv rid of
                     None \<Rightarrow> None
                   | Some room \<Rightarrow> Some (e, rid, room)))))"

definition handle_player_move ::
    "game_server \<Rightarrow> string \<Rightarrow> pyval \<Rightarrow> game_server \<times> error option" where
  "handle_player_move srv pid m =
     (case py_get m ''data'' of
        Inl err \<Rightarrow> (srv, Some err)
      | Inr new_direction \<Rightarrow>
          (case own_game_room srv pid of
             None \<Rightarrow> (srv, None)
           | Some (e, rid, room) \<Rightarrow>
               (if game_room.game_active room then
                  (let room1 = room\<lparr>game_state :=
                                 fst (update_player_direction (game_state room) pid
                                        new_direction)\<rparr>
                   in
                     (case update_game room1 (random_state srv) of
                        Inl err \<Rightarrow> (store_room srv rid room1, Some err)
                      | Inr (room2, g', out) \<Rightarrow>
                          (send_to ((store_room srv rid room2)\<lparr>random_state := g'\<rparr>) out,
                           None)))
                else (srv, None))))"

definition handle_chat_message ::
    "game_server \<Rightarrow> string \<Rightarrow> pyval \<Rightarrow> game_server \<times> error option" where
  "handle_chat_message srv pid m =
     (case py_get m ''data'' of
        Inl err \<Rightarrow> (srv, Some err)
      | Inr chat_text \<Rightarrow>
          (case map_of (game_server.players srv) pid of
             None \<Rightarrow> (srv, None)
           | Some e \<Rightarrow>
               (case player_entry.room_id e of
                  None \<Rightarrow> (srv, None)
                | Some rid \<Rightarrow>
                    (if rid = [] then (srv, None)
                     else
                       (case rooms_get srv rid of
                          None \<Rightarrow> (srv, None)
                        | Some room \<Rightarrow>
                            (send_to srv
                               (broadcast_message room
                                  (create_message ''chat'' (username e) (Chat_text chat_text))
                                  None),
                             None))))))"

definition handle_create_room ::
    "game_server \<Rightarrow> string \<Rightarrow> pyval \<Rightarrow> game_server \<times> error option" where
  "handle_create_room srv pid m =
     (case map_of (game_server.players srv) pid of
        None \<Rightarrow> (srv, None)
      | Some e \<Rightarrow>
          (if player_entry.room_id e \<noteq> Some ''lobby'' then (srv, None)
           else
             (case py_get m ''data'' of
                Inl err \<Rightarrow> (srv, Some err)
              | Inr d \<Rightarrow>
                  (case (if truthy d then Inr (Given_name d, random_state srv)
                         else
                           (case randint 100 999 (random_state srv) of
                              Inl err \<Rightarrow> Inl err
                            | Inr (n, g1) \<Rightarrow> Inr (Generated_name n, g1))) of
                     Inl err \<Rightarrow> (srv, Some err)
                   | Inr (name, g1) \<Rightarrow>
                       (let srv1 = srv\<lparr>room_counter := room_counter srv + 1,
                                       random_state := g1\<rparr>;
                            rid = ''room_'' @ str_nat (room_counter srv1)
                        in
                          (case new_room rid name 4 (random_state srv1) of
                             Inl err \<Rightarrow> (srv1, Some err)
                           | Inr (room, g2) \<Rightarrow>
                               (let srv2 = srv1\<lparr>rooms := AList.update rid room (rooms srv1),
                                                random_state := g2\<rparr>
                                in
                                  (case move_player_to_room srv2 pid rid name of
                                     (srv3, Some err) \<Rightarrow> (srv3, Some err)
                                   | (srv3, None) \<Rightarrow>
                                       (broadcast_room_list_to_lobby srv3, None)))))))))"

text \<open>
  \<open>self.rooms.get(target_room_id)\<close> for a key taken from the message: a dict is not
  hashable and raises TypeError; a key that is not a string is not in the directory.
\<close>

definition handle_join_room ::
    "game_server \<Rightarrow> string \<Rightarrow> pyval \<Rightarrow> game_server \<times> error option" where
  "handle_join_room srv pid m =
     (case py_get m ''data'' of
        Inl err \<Rightarrow> (srv, Some err)
      | Inr target_room_id \<Rightarrow>
          (if target_room_id = PyStr ''refresh''
           then (send_room_list_to_player srv pid, None)
           else
             (case target_room_id of
                PyDict d \<Rightarrow> (srv, Some TypeError)
              | PyStr rid \<Rightarrow>
                  (case rooms_get srv rid of
                     None \<Rightarrow> (srv, None)
                   | Some room \<Rightarrow>
                       (case move_player_to_room srv pid rid (room_name room) of
                          (srv1, Some err) \<Rightarrow> (srv1, Some err)
                        | (srv1, None) \<Rightarrow> (broadcast_room_list_to_lobby srv1, None)))
              | _ \<Rightarrow> (srv, None))))"

definition handle_leave_room :: "game_server \<Rightarrow> string \<Rightarrow> game_server \<times> error option" where
  "handle_leave_room srv pid =
     (case move_player_to_room srv pid ''lobby'' Lobby_name of
        (srv1, Some err) \<Rightarrow> (srv1, Some err)
      | (srv1, None) \<Rightarrow> (broadcast_room_list_to_lobby srv1, None))"

definition started_sends :: "game_room \<Rightarrow> reply \<Rightarrow> pyval \<Rightarrow> string \<Rightarrow> sends" where
  "started_sends room msg started_by rid =
     broadcast_message room
       (create_message ''game_started'' SERVER (Game_started msg started_by rid)) None @
     broadcast_message room
       (create_message ''game_state'' SERVER (Game_data (game_state room))) None"

definition handle_start_game :: "game_server \<Rightarrow> string \<Rightarrow> game_server \<times> error option" where
  "handle_start_game srv pid =
     (case own_game_room srv pid of
        None \<Rightarrow> (srv, None)
      | Some (e, rid, room) \<Rightarrow>
          (case start_game room pid of
             (room', (ok, msg)) \<Rightarrow>
               (let srv1 = store_room srv rid room'
                in
                  if ok then (send_to srv1 (started_sends room' msg (username e) rid), None)
                  else (srv1, None))))"

definition handle_restart_game :: "game_server \<Rightarrow> string \<Rightarrow> game_server \<times> error option" where
  "handle_restart_game srv pid =
     (case own_game_room srv pid of
        None \<Rightarrow> (srv, None)
      | Some (e, rid, room) \<Rightarrow>
          (case restart_game room pid (random_state srv) of
             Inl err \<Rightarrow> (srv, Some err)
           | Inr (room', (ok, msg), g') \<Rightarrow>
               (let srv1 = (store_room srv rid room')\<lparr>random_state := g'\<rparr>
                in
                  if ok then (send_to srv1 (started_sends room' msg (username e) rid), None)
                  else (srv1, None))))"

text \<open>
  \<open>process_client_message\<close>: the third component tells whether the result is
  \<open>"disconnect"\<close>.
\<close>

definition process_client_message ::
    "game_server \<Rightarrow> string \<Rightarrow> pyval \<Rightarrow> game_server \<times> error option \<times> bool" where
  "process_client_message srv pid m =
     (case py_get m ''type'' of
        Inl err \<Rightarrow> (srv, Some err, False)
      | Inr mtype \<Rightarrow>
          (if mtype = PyStr ''move'' then
             (case handle_player_move srv pid m of (srv', r) \<Rightarrow> (srv', r, False))
           else if mtype = PyStr ''chat'' then
             (case handle_chat_message srv pid m of (srv', r) \<Rightarrow> (srv', r, False))
           else if mtype = PyStr ''create_room'' then
             (case handle_create_room srv pid m of (srv', r) \<Rightarrow> (srv', r, False))
           else if mtype = PyStr ''join_room'' then
             (case handle_join_room srv pid m of (srv', r) \<Rightarrow> (srv', r, False))
           else if mtype = PyStr ''leave_room'' then
             (case handle_leave_room srv pid of (srv', r) \<Rightarrow> (srv', r, False))
           else if mtype = PyStr ''start_game'' then
             (case handle_start_game srv pid of (srv', r) \<Rightarrow> (srv', r, False))
           else if mtype = PyStr ''restart_game'' then
             (case handle_restart_game srv pid of (srv', r) \<Rightarrow> (srv', r, False))
           else if mtype = PyStr ''disconnect'' then (srv, None, True)
           else (srv, None, False)))"

text \<open>
  The receive loop of \<open>handle_client\<close>, \<open>while self.running\<close>.  The loop need not end,
  so it runs on fuel, one unit per iteration: \<open>Still_looping\<close> is the loop that has
  not left after that many iterations, \<open>Exited\<close> the loop left by its condition or a
  \<open>break\<close>, \<open>Failed\<close> an exception raised out of it.
\<close>

datatype loop_result = Exited | Failed error | Still_looping

fun session_loop ::
    "nat \<Rightarrow> (nat list \<Rightarrow> error + pyval) \<Rightarrow> game_server \<Rightarrow> string \<Rightarrow> recv_event list \<Rightarrow>
     game_server \<times> loop_result \<times> recv_event list" where
  "session_loop 0 loads srv pid inp =
     (if \<not> running srv then (srv, Exited, inp) else (srv, Still_looping, inp))"
| "session_loop (Suc fuel) loads srv pid inp =
     (if \<not> running srv then (srv, Exited, inp)
      else
        (case receive_message loads inp of
           (m, inp') \<Rightarrow>
             (if m = PyNone then session_loop fuel loads srv pid inp'
              else if \<not> truthy m then (srv, Exited, inp')
              else
                (case process_client_message srv pid m of
                   (srv', Some err, _) \<Rightarrow> (srv', Failed err, inp')
                 | (srv', None, True) \<Rightarrow> (srv', Exited, inp')
                 | (srv', None, False) \<Rightarrow> session_loop fuel loads srv' pid inp'))))"

text \<open>
  The \<open>try\<close> block of \<open>handle_client\<close>: the handshake, then the receive loop.  The
  second component is the local \<open>player_id\<close> when the block is left.
\<close>

definition session_body ::
    "nat \<Rightarrow> (nat list \<Rightarrow> error + pyval) \<Rightarrow> game_server \<Rightarrow> nat \<Rightarrow> recv_event list \<Rightarrow>
     game_server \<times> string option \<times> loop_result" where
  "session_body fuel loads srv client_socket inp =
     (case receive_message loads inp of
        (auth_message, inp1) \<Rightarrow>
          (if \<not> truthy auth_message then (srv, None, Exited)
           else
             (case py_get auth_message ''type'' of
                Inl err \<Rightarrow> (srv, None, Failed err)
              | Inr t \<Rightarrow>
                  (if t \<noteq> PyStr ''auth'' then (srv, None, Exited)
                   else
                     (case py_get auth_message ''data'' of
                        Inl err \<Rightarrow> (srv, None, Failed err)
                      | Inr uname \<Rightarrow>
                          (if \<not> truthy uname then (srv, None, Exited)
                           else if (\<exists>e \<in> set (map snd (game_server.players srv)).
                                      username e = uname)
                           then (srv, None, Exited)
                           else
                             (let n = player_counter srv + 1;
                                  pid = ''player_'' @ str_nat n;
                                  e = \<lparr>username = uname, socket = client_socket,
                                       room_id = None\<rparr>;
                                  srv1 = srv\<lparr>player_counter := n,
                                             game_server.players :=
                                               AList.update pid e (game_server.players srv)\<rparr>
                              in
                                (case add_player (lobby_room srv1) pid
                                        \<lparr>username = uname, socket = client_socket\<rparr>
                                        (random_state srv1) of
                                   Inl err \<Rightarrow> (srv1, Some pid, Failed err)
                                 | Inr (lobby, (ok, _), g') \<Rightarrow>
                                     (let srv2 = srv1\<lparr>lobby_room := lobby, random_state := g'\<rparr>
                                      in
                                        if \<not> ok then
                                          (srv2\<lparr>game_server.players :=
                                                  AList.delete pid (game_server.players srv2)\<rparr>,
                                           Some pid, Exited)
                                        else
                                          (let srv3 = srv2\<lparr>game_server.players :=
                                                        AList.update pid
                                                          (e\<lparr>player_entry.room_id := Some ''lobby''\<rparr>)
                                                          (game_server.players srv2)\<rparr>;
                                               srv4 = send_to srv3
                                                        [(client_socket,
                                                          create_message ''auth'' SERVER
                                                            (Auth_success pid ''lobby''))];
                                               srv5 = send_room_list_to_player srv4 pid;
                                               srv6 = send_to srv5
                                                        (broadcast_message (lobby_room srv5)
                                                           (create_message ''player_joined'' SERVER
                                                              (Text_notice (Joined_lobby_notice uname)))
                                                           (Some pid));
                                               srv7 = broadcast_room_list_to_lobby srv6
                                           in
                                             (case session_loop fuel loads srv7 pid inp1 of
                                                (srv8, r, _) \<Rightarrow> (srv8, Some pid, r))))))))))))"

text \<open>
  \<open>handle_client\<close>: the \<open>try\<close> block, then the \<open>finally\<close> block, which removes the
  player when \<open>player_id\<close> is set and then closes the socket.  An exception raised by
  \<open>remove_player\<close> leaves the \<open>finally\<close> block before the socket is closed.
\<close>

definition handle_client ::
    "nat \<Rightarrow> (nat list \<Rightarrow> error + pyval) \<Rightarrow> game_server \<Rightarrow> nat \<Rightarrow> recv_event list \<Rightarrow>
     game_server \<times> loop_result" where
  "handle_client fuel loads srv client_socket inp =
     (case session_body fuel loads srv client_socket inp of
        (srv1, pid_opt, r) \<Rightarrow>
          (if r = Still_looping then (srv1, Still_looping)
           else
             (case (case pid_opt of
                      None \<Rightarrow> (srv1, None)
                    | Some pid \<Rightarrow>
                        (if pid \<noteq> [] then srv_remove_player srv1 pid else (srv1, None))) of
                (srv2, Some err) \<Rightarrow> (srv2, Failed err)
              | (srv2, None) \<Rightarrow>
                  (srv2\<lparr>closed_sockets := client_socket # closed_sockets srv2\<rparr>, r))))"

text \<open>
  One pass of \<open>game_loop\<close> whose time test holds: every room of the directory other than
  the lobby that is active is updated, in the order of the directory.  An exception of
  \<open>update_game\<close> ends the pass (in the source it ends the scheduler thread).  Here and
  in \<open>handle_player_move\<close>, the room whose update raised is kept as it was before the
  update; the source has by then changed some of its snakes in place.  The model does
  not describe the game state of a room after an exception.
\<close>

fun tick_rooms :: "string list \<Rightarrow> game_server \<Rightarrow> game_server \<times> error option" where
  "tick_rooms [] srv = (srv, None)"
| "tick_rooms (rid # rids) srv =
     (case map_of (rooms srv) rid of
        None \<Rightarrow> tick_rooms rids srv
      | Some room \<Rightarrow>
          (if rid \<noteq> ''lobby'' \<and> game_room.game_active room then
             (case update_game room (random_state srv) of
                Inl err \<Rightarrow> (srv, Some err)
              | Inr (room', g', out) \<Rightarrow>
                  tick_rooms rids
                    (send_to (srv\<lparr>rooms := AList.update rid room' (rooms srv),
                                   random_state := g'\<rparr>) out))
           else tick_rooms rids srv))"

definition game_loop_tick :: "game_server \<Rightarrow> game_server \<times> error option" where
  "game_loop_tick srv = tick_rooms (map fst (rooms srv)) srv"

section \<open>Predicates used to state the properties\<close>

text \<open>
  The cell a snake's head moves to on its next move (the head plus the delta of the
  pending direction), and the condition under which \<open>Snake.move\<close> takes the move: the
  snake is alive and the cell is inside the grid and outside the snake's own body.
\<close>

definition new_head_of :: "snake \<Rightarrow> pos" where
  "new_head_of s =
     (case body s of
        [] \<Rightarrow> (0, 0)
      | (head_x, head_y) # _ \<Rightarrow>
          (head_x + fst (deltas_get (next_direction s)),
           head_y + snd (deltas_get (next_direction s))))"

definition valid_move :: "snake \<Rightarrow> int \<times> int \<Rightarrow> bool" where
  "valid_move s grid =
     (alive s \<and> body s \<noteq> [] \<and>
      0 \<le> fst (new_head_of s) \<and> fst (new_head_of s) < fst grid \<and>
      0 \<le> snd (new_head_of s) \<and> snd (new_head_of s) < snd grid \<and>
      new_head_of s \<notin> set (body s))"

definition example_snake :: "string \<Rightarrow> pos list \<Rightarrow> string \<Rightarrow> string \<Rightarrow> pos \<Rightarrow> snake" where
  "example_snake pid cells d nd ph =
     \<lparr>player_id = pid, body = cells, direction = d, next_direction = nd, alive = True,
      score = 0, color = ''#FF6B6B'', prev_head = ph\<rparr>"

text \<open>
  \<open>only_deaths xs ys\<close>: the snakes \<open>ys\<close> are the snakes \<open>xs\<close>, position by position, except
  that alive flags may have been cleared.
\<close>

definition only_deaths :: "snake list \<Rightarrow> snake list \<Rightarrow> bool" where
  "only_deaths xs ys =
     (length ys = length xs \<and>
      (\<forall>k < length xs. ys ! k = (xs ! k)\<lparr>alive := alive (ys ! k)\<rparr> \<and>
                        (alive (ys ! k) \<longrightarrow> alive (xs ! k))))"

text \<open>The index pairs \<open>(i, j)\<close> in the order in which the two nested loops visit them.\<close>

definition index_pairs :: "nat \<Rightarrow> (nat \<times> nat) list" where
  "index_pairs n = concat (map (\<lambda>i. map (Pair i) [Suc i..<n]) [0..<n])"

text \<open>
  After the moves of a tick: each snake's head is the other's previous head.
  \<open>threatens c a\<close>: the living snake \<open>c\<close> can kill \<open>a\<close> in a collision check, because the
  head of \<open>a\<close> is on a cell of \<open>c\<close> (the head of \<open>c\<close> included) or the two swapped heads.
\<close>

definition head_swap :: "snake \<Rightarrow> snake \<Rightarrow> bool" where
  "head_swap a b =
     (body a \<noteq> [] \<and> body b \<noteq> [] \<and>
      hd (body a) = prev_head b \<and> hd (body b) = prev_head a)"

definition threatens :: "snake \<Rightarrow> snake \<Rightarrow> bool" where
  "threatens c a = (alive c \<and> (hd (body a) \<in> set (body c) \<or> head_swap a c))"


definition alive_flags :: "error + (game_state \<times> rng) \<Rightarrow> (string \<times> bool) list" where
  "alive_flags r =
     (case r of
        Inl e \<Rightarrow> []
      | Inr (gs, g) \<Rightarrow> map (\<lambda>(pid, s). (pid, alive s)) (snakes gs))"

text \<open>
  Two snakes before a tick: player 1 heads up into the tail cell of player 2 while
  player 2 heads right into the second cell of player 1.
\<close>

definition cross_a :: snake where
  "cross_a = example_snake ''player_1'' [(5, 6), (5, 7), (5, 8)] ''UP'' ''UP'' (5, 7)"

definition cross_b :: snake where
  "cross_b =
     example_snake ''player_2'' [(4, 6), (4, 5), (5, 5), (6, 5)] ''DOWN'' ''RIGHT'' (4, 5)"

definition cross_state :: "(string \<times> snake) list \<Rightarrow> game_state" where
  "cross_state sn =
     \<lparr>grid_size = (40, 30), snakes = sn, food_positions = [(20, 20)], game_active = True\<rparr>"

text \<open>
  Three snakes of length one before a tick: players 1 and 3 are about to swap heads, and
  player 2 moves onto the cell player 1 moves to.
\<close>

definition swap_1 :: snake where
  "swap_1 = example_snake ''player_1'' [(5, 5)] ''RIGHT'' ''RIGHT'' (4, 5)"

definition swap_2 :: snake where
  "swap_2 = example_snake ''player_2'' [(6, 4)] ''DOWN'' ''DOWN'' (6, 3)"

definition swap_3 :: snake where
  "swap_3 = example_snake ''player_3'' [(6, 5)] ''UP'' ''LEFT'' (6, 6)"

text \<open>
  A room with two members, player 1 (the creator) and player 2, before its game starts,
  and the same room after player 1 has been removed once.
\<close>

definition example_info :: "string \<Rightarrow> nat \<Rightarrow> player_info" where
  "example_info name sock = \<lparr>username = PyStr name, socket = sock\<rparr>"

definition two_player_room :: game_room where
  "two_player_room =
     \<lparr>game_room.room_id = ''room_1'', room_name = Given_name (PyStr ''arena''),
      max_players = 4,
      game_state =
        \<lparr>grid_size = (40, 30),
         snakes = [(''player_1'', example_snake ''player_1'' [(5, 5)] ''RIGHT'' ''RIGHT'' (5, 5)),
                   (''player_2'', example_snake ''player_2'' [(9, 9)] ''RIGHT'' ''RIGHT'' (9, 9))],
         food_positions = [(20, 20)], game_state.game_active = False\<rparr>,
      game_room.players =
        [(''player_1'', example_info ''ann'' 1), (''player_2'', example_info ''bob'' 2)],
      creator_id = Some ''player_1'', game_room.game_active = False\<rparr>"

definition once_removed :: game_room where
  "once_removed =
     (case remove_player two_player_room ''player_1'' (\<lambda>n. 0) of
        Inr (room, now_empty, g, out) \<Rightarrow> room
      | Inl e \<Rightarrow> two_player_room)"

text \<open>The two broadcasts of \<open>update_game\<close>: the game-over notice, if any, then the snapshot.\<close>

definition game_over_sends :: "game_room \<Rightarrow> game_over_payload option \<Rightarrow> sends" where
  "game_over_sends room p =
     (case p of
        None \<Rightarrow> []
      | Some q \<Rightarrow>
          broadcast_message room (create_message ''game_over'' SERVER (Game_over q)) None)"

definition game_state_sends :: "game_room \<Rightarrow> sends" where
  "game_state_sends room =
     broadcast_message room
       (create_message ''game_state'' SERVER
          (Game_data ((game_state room)\<lparr>game_state.game_active := game_room.game_active room\<rparr>)))
       None"

text \<open>The snakes that are alive, as \<open>update_game\<close> lists them.\<close>

definition alive_snakes :: "game_state \<Rightarrow> (string \<times> snake) list" where
  "alive_snakes gs = filter (\<lambda>(pid, s). alive s) (snakes gs)"

text \<open>
  Two players joined, player 1 started the game, player 2 left, then one update ran;
  \<open>tick_summary\<close> gives the room's active flag, the number of snakes, the number of
  living snakes and the message types that were sent.
\<close>

definition left_alone :: "error + (game_room \<times> rng \<times> sends)" where
  "left_alone =
     (case remove_player (fst (start_game two_player_room ''player_1'')) ''player_2''
             (\<lambda>n. 0) of
        Inl e \<Rightarrow> Inl e
      | Inr (room, now_empty, g, out) \<Rightarrow> update_game room g)"

definition tick_summary ::
    "error + (game_room \<times> rng \<times> sends) \<Rightarrow> (bool \<times> nat \<times> nat \<times> string list) option" where
  "tick_summary r =
     (case r of
        Inl e \<Rightarrow> None
      | Inr (room, g, out) \<Rightarrow>
          Some (game_room.game_active room, length (snakes (game_state room)),
                length (alive_snakes (game_state room)),
                remdups (map (\<lambda>(sock, m). msg_type m) out)))"

text \<open>A running game of two players in which player 2 is about to run into the wall.\<close>

definition duel_state :: "pos list \<Rightarrow> pos \<Rightarrow> bool \<Rightarrow> pos list \<Rightarrow> pos \<Rightarrow> bool \<Rightarrow> game_state" where
  "duel_state b1 p1 a1 b2 p2 a2 =
     \<lparr>grid_size = (40, 30),
      snakes = [(''player_1'', (example_snake ''player_1'' b1 ''RIGHT'' ''RIGHT'' p1)\<lparr>alive := a1\<rparr>),
                (''player_2'', (example_snake ''player_2'' b2 ''RIGHT'' ''RIGHT'' p2)\<lparr>alive := a2\<rparr>)],
      food_positions = [(20, 20)], game_state.game_active = True\<rparr>"

definition duel_room :: game_room where
  "duel_room =
     two_player_room\<lparr>game_state := duel_state [(5, 5)] (5, 5) True [(39, 9)] (39, 9) True,
                     game_room.game_active := True\<rparr>"









text \<open>\<open>k in d\<close> for a dict kept as an association list.\<close>

definition has_key :: "('k \<times> 'v) list \<Rightarrow> 'k \<Rightarrow> bool" where
  "has_key al k = (map_of al k \<noteq> None)"

text \<open>
  The invariant of a room: at most \<open>max_players\<close> members, each listed once; the creator,
  when set, is a member, and a room with a member has a creator.
\<close>

definition room_inv :: "game_room \<Rightarrow> bool" where
  "room_inv room =
     (int (length (game_room.players room)) \<le> max_players room \<and>
      distinct (map fst (game_room.players room)) \<and>
      (\<forall>c. creator_id room = Some c \<longrightarrow> has_key (game_room.players room) c) \<and>
      (game_room.players room \<noteq> [] \<longrightarrow> creator_id room \<noteq> None))"

text \<open>
  The capacity a room is constructed with: \<open>GameServer.__init__\<close> builds the lobby with
  \<open>max_players=50\<close>, and \<open>handle_create_room\<close> builds every other room with the default
  \<open>max_players=4\<close>.  No method assigns \<open>max_players\<close> afterwards.
\<close>

definition capacity_of :: "string \<Rightarrow> int" where
  "capacity_of rid = (if rid = ''lobby'' then 50 else 4)"

text \<open>
  The invariant of the server: the lobby and every room of the directory satisfy the room
  invariant, are filed under their own id and have the capacity they were constructed
  with.
\<close>

definition room_ok :: "string \<Rightarrow> game_room \<Rightarrow> bool" where
  "room_ok rid room =
     (room_inv room \<and> game_room.room_id room = rid \<and> max_players room = capacity_of rid)"

definition rooms_ok :: "(string \<times> game_room) list \<Rightarrow> bool" where
  "rooms_ok rs = (\<forall>(rid, room) \<in> set rs. room_ok rid room)"

definition srv_inv :: "game_server \<Rightarrow> bool" where
  "srv_inv srv = (room_ok ''lobby'' (lobby_room srv) \<and> rooms_ok (rooms srv))"

text \<open>The room ids in the payload of the room-list message.\<close>

definition listed_room_ids :: "game_server \<Rightarrow> string list" where
  "listed_room_ids srv =
     (case msg_data (get_room_list_message srv) of
        Room_list infos \<Rightarrow> map info_room_id infos
      | _ \<Rightarrow> [])"

text \<open>
  The server states reachable from a new server: whole sessions, sessions stopped after
  any number of loop iterations, single client messages of any player, player removals
  and scheduler passes, in any order.
\<close>

inductive server_reachable :: "game_server \<Rightarrow> bool" where
  init: "new_server g = Inr srv \<Longrightarrow> server_reachable srv"
| started: "server_reachable srv \<Longrightarrow> server_reachable (start_server srv)"
| session: "server_reachable srv \<Longrightarrow> handle_client fuel loads srv sock inp = (srv', r) \<Longrightarrow>
            server_reachable srv'"
| handshake: "server_reachable srv \<Longrightarrow>
              session_body fuel loads srv sock inp = (srv', p, r) \<Longrightarrow> server_reachable srv'"
| message: "server_reachable srv \<Longrightarrow> process_client_message srv pid m = (srv', e, d) \<Longrightarrow>
            server_reachable srv'"
| cleanup: "server_reachable srv \<Longrightarrow> srv_remove_player srv pid = (srv', e) \<Longrightarrow>
            server_reachable srv'"
| tick: "server_reachable srv \<Longrightarrow> game_loop_tick srv = (srv', e) \<Longrightarrow>
         server_reachable srv'"

text \<open>
  A server whose only player is the only member, and creator, of the room \<open>room_1\<close>.
\<close>

definition solo_room :: game_room where
  "solo_room =
     two_player_room
       \<lparr>game_room.players := [(''player_1'', example_info ''ann'' 1)],
        game_state := (game_state two_player_room)
          \<lparr>snakes := [(''player_1'',
                       example_snake ''player_1'' [(5, 5)] ''RIGHT'' ''RIGHT'' (5, 5))]\<rparr>\<rparr>"

definition empty_lobby :: game_room where
  "empty_lobby =
     two_player_room
       \<lparr>game_room.room_id := ''lobby'', room_name := Lobby_name, max_players := 50,
        game_room.players := [], creator_id := None,
        game_state := (game_state two_player_room)\<lparr>snakes := []\<rparr>\<rparr>"

definition solo_server :: game_server where
  "solo_server =
     \<lparr>running = True,
      game_server.players =
        [(''player_1'', \<lparr>username = PyStr ''ann'', socket = 1, room_id = Some ''room_1''\<rparr>)],
      rooms = [(''room_1'', solo_room)], lobby_room = empty_lobby,
      player_counter = 1, room_counter = 1, random_state = (\<lambda>n. 0), sent = [],
      closed_sockets = []\<rparr>"

text \<open>
  An unpickler for the examples: the payload \<open>[1]\<close> is an AUTH message of the user
  \<open>zoe\<close>, \<open>[2]\<close> a MOVE message, \<open>[3]\<close> a DISCONNECT message; every other payload is
  rejected.
\<close>

definition example_loads :: "nat list \<Rightarrow> error + pyval" where
  "example_loads bs =
     (if bs = [1] then Inr (PyDict (fmap_of_list [(''type'', PyStr ''auth''), (''data'', PyStr ''zoe'')]))
      else if bs = [2] then
        Inr (PyDict (fmap_of_list [(''type'', PyStr ''move''), (''data'', PyStr ''UP'')]))
      else if bs = [3] then Inr (PyDict (fmap_of_list [(''type'', PyStr ''disconnect'')]))
      else Inl UnpicklingError)"

text \<open>A server whose lobby holds 50 members.\<close>

definition full_server :: game_server where
  "full_server =
     solo_server
       \<lparr>lobby_room := empty_lobby
          \<lparr>game_room.players :=
             map (\<lambda>n. (''guest_'' @ str_nat n, example_info (''guest_'' @ str_nat n) (100 + n)))
               [0..<50],
           creator_id := Some ''guest_0''\<rparr>\<rparr>"





section \<open>Snake growth\<close>

lemma move_valid:
  assumes "valid_move s grid"
  shows "\<exists>s'. move s grid fp = Inr (s', in_food (new_head_of s) fp) \<and>
           alive s' \<and> hd (body s') = new_head_of s \<and>
           (if in_food (new_head_of s) fp
            then length (body s') = length (body s) + 1 \<and> score s' = score s + 10
            else length (body s') = length (body s) \<and> score s' = score s)"
proof -
  from assms obtain hx hy rest where b: "body s = (hx, hy) # rest"
    by (cases "body s") (auto simp: valid_move_def)
  obtain dx dy where d: "deltas_get (next_direction s) = (dx, dy)"
    by (cases "deltas_get (next_direction s)")
  have nh: "new_head_of s = (hx + dx, hy + dy)"
    by (simp add: new_head_of_def b d)
  from assms show ?thesis
    unfolding valid_move_def nh
    by (simp add: move_def b d Let_def not_le)
qed

lemma move_length_mono:
  assumes "move s grid fp = Inr (s', ate)"
  shows "length (body s) \<le> length (body s')"
  using assms
  by (auto simp: move_def Let_def split: if_splits list.splits prod.splits)

lemma check_collision_body:
  assumes "check_collision_with_other a b = Inr (a', b', r)"
  shows "body a' = body a \<and> body b' = body b"
  using assms
  by (auto simp: check_collision_with_other_def Let_def split: if_splits list.splits)

section \<open>The collision pass\<close>

lemma only_deaths_refl: "only_deaths xs xs"
  by (simp add: only_deaths_def)

lemma only_deaths_trans:
  assumes "only_deaths xs ys" "only_deaths ys zs"
  shows "only_deaths xs zs"
  unfolding only_deaths_def
proof (intro conjI allI impI)
  show "length zs = length xs" using assms by (simp add: only_deaths_def)
next
  fix k assume k: "k < length xs"
  then have k': "k < length ys" using assms by (simp add: only_deaths_def)
  have 1: "ys ! k = (xs ! k)\<lparr>alive := alive (ys ! k)\<rparr>"
    using assms(1) k by (simp add: only_deaths_def)
  have 2: "zs ! k = (ys ! k)\<lparr>alive := alive (zs ! k)\<rparr>"
    using assms(2) k' by (simp add: only_deaths_def)
  show "zs ! k = (xs ! k)\<lparr>alive := alive (zs ! k)\<rparr>"
    by (subst 2, subst 1) simp
next
  fix k assume k: "k < length xs" and a: "alive (zs ! k)"
  then have k': "k < length ys" using assms by (simp add: only_deaths_def)
  from assms(2) k' a have "alive (ys ! k)" by (simp add: only_deaths_def)
  with assms(1) k show "alive (xs ! k)" by (simp add: only_deaths_def)
qed

lemma check_collision_total:
  assumes "body a \<noteq> []" "body b \<noteq> []"
  shows "\<exists>res. check_collision_with_other a b = Inr res"
  using assms
  by (cases "body a"; cases "body b") (auto simp: check_collision_with_other_def Let_def)

lemma check_collision_effect:
  assumes "check_collision_with_other a b = Inr (a', b', r)"
  shows "a' = a\<lparr>alive := alive a'\<rparr> \<and> b' = b\<lparr>alive := alive b'\<rparr> \<and>
         (alive a' \<longrightarrow> alive a) \<and> (alive b' \<longrightarrow> alive b)"
  using assms
  by (auto simp: check_collision_with_other_def Let_def split: if_splits list.splits)

text \<open>Both orders of one pair together.\<close>

lemma pair_step_effect:
  assumes "i < length xs" "j < length xs" "i \<noteq> j"
    and "body (xs ! i) \<noteq> []" "body (xs ! j) \<noteq> []"
  shows "\<exists>ys. pair_step i j xs = Inr ys \<and> only_deaths xs ys"
proof -
  obtain si sj r where c1: "check_collision_with_other (xs ! i) (xs ! j) = Inr (si, sj, r)"
    using check_collision_total [OF assms(4,5)] by (metis prod_cases3)
  note e1 = check_collision_effect [OF c1]
  have "body si \<noteq> []" "body sj \<noteq> []"
    using check_collision_body [OF c1] assms(4,5) by simp_all
  then obtain sj' si' r' where c2: "check_collision_with_other sj si = Inr (sj', si', r')"
    using check_collision_total by (metis prod_cases3)
  note e2 = check_collision_effect [OF c2]
  have ps: "pair_step i j xs = Inr (xs[i := si', j := sj'])"
    by (simp add: pair_step_def c1 c2)
  have i': "si' = (xs ! i)\<lparr>alive := alive si'\<rparr>"
    using e1 e2 by (metis snake.surjective snake.update_convs(5))
  have j': "sj' = (xs ! j)\<lparr>alive := alive sj'\<rparr>"
    using e1 e2 by (metis snake.surjective snake.update_convs(5))
  have "only_deaths xs (xs[i := si', j := sj'])"
    unfolding only_deaths_def
  proof (intro conjI allI impI)
    show "length (xs[i := si', j := sj']) = length xs" by simp
  next
    fix k assume "k < length xs"
    then show "xs[i := si', j := sj'] ! k = (xs ! k)\<lparr>alive := alive (xs[i := si', j := sj'] ! k)\<rparr>"
      using assms(1-3) i' j' by (cases "k = j"; cases "k = i") (simp_all add: nth_list_update)
  next
    fix k assume "k < length xs" "alive (xs[i := si', j := sj'] ! k)"
    then show "alive (xs ! k)"
      using assms(1-3) e1 e2 by (cases "k = j"; cases "k = i") (simp_all add: nth_list_update)
  qed
  with ps show ?thesis by blast
qed


lemma for_each_append:
  "for_each f (as @ bs) st =
     (case for_each f as st of Inl e \<Rightarrow> Inl e | Inr st' \<Rightarrow> for_each f bs st')"
  by (induction as arbitrary: st) (auto split: sum.splits)

lemma for_each_map_app: "for_each f (map h l) st = for_each (\<lambda>x. f (h x)) l st"
  by (induction l arbitrary: st) (auto split: sum.splits)

lemma for_each_map: "for_each f (map h l) = for_each (\<lambda>x. f (h x)) l"
  by (rule ext) (rule for_each_map_app)

lemma for_each_concat:
  "for_each f (concat (map h l)) st = for_each (\<lambda>i. for_each f (h i)) l st"
  by (induction l arbitrary: st) (auto simp: for_each_append split: sum.splits)

lemma collision_pass_flat:
  "collision_pass xs = for_each (\<lambda>(i, j). pair_step i j) (index_pairs (length xs)) xs"
  by (simp add: collision_pass_def index_pairs_def for_each_concat for_each_map)

lemma index_pairs_iff: "(i, j) \<in> set (index_pairs n) \<longleftrightarrow> i < j \<and> j < n"
  by (auto simp: index_pairs_def intro!: bexI [of _ i])

lemma only_deaths_fields:
  assumes "only_deaths xs ys" "k < length xs"
  shows "body (ys ! k) = body (xs ! k)" "prev_head (ys ! k) = prev_head (xs ! k)"
proof -
  from assms have e: "ys ! k = (xs ! k)\<lparr>alive := alive (ys ! k)\<rparr>"
    by (simp add: only_deaths_def)
  show "body (ys ! k) = body (xs ! k)" by (subst e) simp
  show "prev_head (ys ! k) = prev_head (xs ! k)" by (subst e) simp
qed

lemma only_deaths_bodies:
  assumes "only_deaths xs ys" "\<forall>s \<in> set xs. body s \<noteq> []"
  shows "\<forall>s \<in> set ys. body s \<noteq> []"
proof
  fix s assume "s \<in> set ys"
  then obtain k where k: "k < length ys" "s = ys ! k" by (auto simp: in_set_conv_nth)
  with assms(1) have kx: "k < length xs" by (simp add: only_deaths_def)
  with assms(2) have "body (xs ! k) \<noteq> []" by simp
  with only_deaths_fields(1) [OF assms(1) kx] k show "body s \<noteq> []" by simp
qed

lemma for_each_pairs_only_deaths:
  assumes "\<forall>(i, j) \<in> set ps. i < length st \<and> j < length st \<and> i \<noteq> j"
    and "\<forall>s \<in> set st. body s \<noteq> []"
  shows "\<exists>st'. for_each (\<lambda>(i, j). pair_step i j) ps st = Inr st' \<and> only_deaths st st'"
  using assms
proof (induction ps arbitrary: st)
  case Nil
  then show ?case by (simp add: only_deaths_refl)
next
  case (Cons p ps)
  obtain i j where p: "p = (i, j)" by (cases p)
  from Cons.prems(1) p have ij: "i < length st" "j < length st" "i \<noteq> j" by auto
  with Cons.prems(2) have "body (st ! i) \<noteq> []" "body (st ! j) \<noteq> []" by simp_all
  from pair_step_effect [OF ij this] obtain st1 where
    s1: "pair_step i j st = Inr st1" and d1: "only_deaths st st1" by blast
  have len: "length st1 = length st" using d1 by (simp add: only_deaths_def)
  have b1: "\<forall>s \<in> set st1. body s \<noteq> []"
    by (rule only_deaths_bodies [OF d1 Cons.prems(2)])
  have "\<forall>(i, j) \<in> set ps. i < length st1 \<and> j < length st1 \<and> i \<noteq> j"
    using Cons.prems(1) len by auto
  from Cons.IH [OF this b1] obtain st' where
    s2: "for_each (\<lambda>(i, j). pair_step i j) ps st1 = Inr st'" and d2: "only_deaths st1 st'"
    by blast
  have "for_each (\<lambda>(i, j). pair_step i j) (p # ps) st = Inr st'"
    by (simp add: p s1 s2)
  moreover have "only_deaths st st'" by (rule only_deaths_trans [OF d1 d2])
  ultimately show ?case by blast
qed

lemma check_swap_kills:
  assumes "alive a" "alive b" "head_swap a b"
  shows "\<exists>r. check_collision_with_other a b = Inr (a\<lparr>alive := False\<rparr>, b\<lparr>alive := False\<rparr>, r)"
  using assms
  by (cases "body a"; cases "body b")
     (auto simp: check_collision_with_other_def head_swap_def Let_def)

lemma check_dead_noop:
  assumes "\<not> alive a \<or> \<not> alive b"
  shows "check_collision_with_other a b = Inr (a, b, False)"
  using assms by (auto simp: check_collision_with_other_def)

lemma pair_step_swap_kills:
  assumes "i < length xs" "j < length xs" "i \<noteq> j"
    and "alive (xs ! i)" "alive (xs ! j)" "head_swap (xs ! i) (xs ! j)"
    and "pair_step i j xs = Inr ys"
  shows "\<not> alive (ys ! i) \<and> \<not> alive (ys ! j)"
proof -
  from check_swap_kills [OF assms(4,5,6)] obtain r where
    c1: "check_collision_with_other (xs ! i) (xs ! j) =
           Inr ((xs ! i)\<lparr>alive := False\<rparr>, (xs ! j)\<lparr>alive := False\<rparr>, r)" by blast
  have c2: "check_collision_with_other ((xs ! j)\<lparr>alive := False\<rparr>) ((xs ! i)\<lparr>alive := False\<rparr>) =
           Inr ((xs ! j)\<lparr>alive := False\<rparr>, (xs ! i)\<lparr>alive := False\<rparr>, False)"
    by (rule check_dead_noop) simp
  from assms(7) have "ys = xs[i := (xs ! i)\<lparr>alive := False\<rparr>, j := (xs ! j)\<lparr>alive := False\<rparr>]"
    by (simp add: pair_step_def c1 c2)
  with assms(1-3) show ?thesis by (simp add: nth_list_update)
qed

lemma check_self_survives:
  assumes "check_collision_with_other a c = Inr (a', c', r)" "alive a" "\<not> threatens c a"
  shows "alive a'"
  using assms
  by (auto simp: check_collision_with_other_def threatens_def head_swap_def Let_def
           split: if_splits list.splits)

lemma check_other_survives:
  assumes "check_collision_with_other c a = Inr (c', a', r)" "alive a" "\<not> threatens c a"
  shows "alive a'"
  using assms
  by (auto simp: check_collision_with_other_def threatens_def head_swap_def Let_def
           split: if_splits list.splits)

lemma not_threatens_weaken:
  assumes "\<not> threatens c a" "c' = c\<lparr>alive := alive c'\<rparr>" "alive c' \<longrightarrow> alive c"
    "a' = a\<lparr>alive := alive a'\<rparr>"
  shows "\<not> threatens c' a'"
proof -
  have "body c' = body c" "prev_head c' = prev_head c"
    by (subst assms(2), simp)+
  moreover have "body a' = body a" "prev_head a' = prev_head a"
    by (subst assms(4), simp)+
  ultimately show ?thesis using assms(1,3) by (auto simp: threatens_def head_swap_def)
qed

lemma pair_step_first_survives:
  assumes "pair_step k l st = Inr ys" "k < length st" "l < length st" "k \<noteq> l"
    and "alive (st ! k)" "\<not> threatens (st ! l) (st ! k)"
  shows "alive (ys ! k)"
proof -
  from assms(1) obtain sk sl r sl' sk' r' where
    c1: "check_collision_with_other (st ! k) (st ! l) = Inr (sk, sl, r)" and
    c2: "check_collision_with_other sl sk = Inr (sl', sk', r')" and
    ys: "ys = st[k := sk', l := sl']"
    by (auto simp: pair_step_def split: sum.splits)
  have a1: "alive sk" by (rule check_self_survives [OF c1 assms(5,6)])
  note e1 = check_collision_effect [OF c1]
  have "\<not> threatens sl sk"
    using not_threatens_weaken [OF assms(6)] e1 by blast
  from check_other_survives [OF c2 a1 this] have "alive sk'" .
  with ys assms(2-4) show ?thesis by (simp add: nth_list_update)
qed

lemma pair_step_second_survives:
  assumes "pair_step k l st = Inr ys" "k < length st" "l < length st" "k \<noteq> l"
    and "alive (st ! l)" "\<not> threatens (st ! k) (st ! l)"
  shows "alive (ys ! l)"
proof -
  from assms(1) obtain sk sl r sl' sk' r' where
    c1: "check_collision_with_other (st ! k) (st ! l) = Inr (sk, sl, r)" and
    c2: "check_collision_with_other sl sk = Inr (sl', sk', r')" and
    ys: "ys = st[k := sk', l := sl']"
    by (auto simp: pair_step_def split: sum.splits)
  have a1: "alive sl" by (rule check_other_survives [OF c1 assms(5,6)])
  note e1 = check_collision_effect [OF c1]
  have "\<not> threatens sk sl"
    using not_threatens_weaken [OF assms(6)] e1 by blast
  from check_self_survives [OF c2 a1 this] have "alive sl'" .
  with ys assms(2-4) show ?thesis by (simp add: nth_list_update)
qed

lemma pair_step_untouched:
  assumes "pair_step k l st = Inr ys" "m \<noteq> k" "m \<noteq> l"
  shows "ys ! m = st ! m"
  using assms by (auto simp: pair_step_def split: sum.splits)


lemma not_threatens_later:
  assumes "only_deaths xs st" "m < length xs" "i < length xs" "\<not> threatens (xs ! m) (xs ! i)"
  shows "\<not> threatens (st ! m) (st ! i)"
proof -
  from assms(1,2) have 1: "st ! m = (xs ! m)\<lparr>alive := alive (st ! m)\<rparr>"
    "alive (st ! m) \<longrightarrow> alive (xs ! m)" by (simp_all add: only_deaths_def)
  from assms(1,3) have 2: "st ! i = (xs ! i)\<lparr>alive := alive (st ! i)\<rparr>"
    by (simp add: only_deaths_def)
  from not_threatens_weaken [OF assms(4) 1 2] show ?thesis .
qed

lemma pair_step_pair_survives:
  assumes ps: "pair_step k l st = Inr ys" and kl: "k < l" "l < length xs"
    and ne: "(k, l) \<noteq> (i, j)" and ij: "i < j" "j < length xs"
    and od: "only_deaths xs st"
    and al: "alive (st ! i)" "alive (st ! j)"
    and safe: "\<forall>m < length xs. m \<noteq> i \<and> m \<noteq> j \<longrightarrow>
                 \<not> threatens (xs ! m) (xs ! i) \<and> \<not> threatens (xs ! m) (xs ! j)"
  shows "alive (ys ! i) \<and> alive (ys ! j)"
proof -
  have len: "length st = length xs" using od by (simp add: only_deaths_def)
  have k: "k < length st" "l < length st" "k \<noteq> l" using kl len by simp_all
  have nt: "\<And>m t. m < length xs \<Longrightarrow> t < length xs \<Longrightarrow> \<not> threatens (xs ! m) (xs ! t) \<Longrightarrow>
              \<not> threatens (st ! m) (st ! t)"
    using not_threatens_later [OF od] by blast
  have "alive (ys ! i)"
  proof (cases "i = k")
    case True
    with ne have "l \<noteq> j" by simp
    moreover from True kl have "l \<noteq> i" by simp
    ultimately have "\<not> threatens (xs ! l) (xs ! i)" using safe kl by simp
    then have "\<not> threatens (st ! l) (st ! k)" using nt kl ij True by simp
    from pair_step_first_survives [OF ps k _ this] al True show ?thesis by simp
  next
    case nk: False
    show ?thesis
    proof (cases "i = l")
      case True
      with kl ij have "k \<noteq> i" "k \<noteq> j" by simp_all
      then have "\<not> threatens (xs ! k) (xs ! i)" using safe kl by simp
      then have "\<not> threatens (st ! k) (st ! l)" using nt kl ij True by simp
      from pair_step_second_survives [OF ps k _ this] al True show ?thesis by simp
    next
      case False
      with nk pair_step_untouched [OF ps] al show ?thesis by simp
    qed
  qed
  moreover have "alive (ys ! j)"
  proof (cases "j = k")
    case True
    with kl ij have "l \<noteq> i" "l \<noteq> j" by simp_all
    then have "\<not> threatens (xs ! l) (xs ! j)" using safe kl by simp
    then have "\<not> threatens (st ! l) (st ! k)" using nt kl ij True by simp
    from pair_step_first_survives [OF ps k _ this] al True show ?thesis by simp
  next
    case nk: False
    show ?thesis
    proof (cases "j = l")
      case True
      with ne have "k \<noteq> i" by simp
      moreover from True kl have "k \<noteq> j" by simp
      ultimately have "\<not> threatens (xs ! k) (xs ! j)" using safe kl by simp
      then have "\<not> threatens (st ! k) (st ! l)" using nt kl ij True by simp
      from pair_step_second_survives [OF ps k _ this] al True show ?thesis by simp
    next
      case False
      with nk pair_step_untouched [OF ps] al show ?thesis by simp
    qed
  qed
  ultimately show ?thesis ..
qed

lemma prefix_keeps_alive:
  assumes "\<forall>(k, l) \<in> set ps. k < l \<and> l < length xs" "(i, j) \<notin> set ps"
    and ij: "i < j" "j < length xs"
    and bodies: "\<forall>s \<in> set xs. body s \<noteq> []"
    and "only_deaths xs st" "alive (st ! i)" "alive (st ! j)"
    and safe: "\<forall>m < length xs. m \<noteq> i \<and> m \<noteq> j \<longrightarrow>
                 \<not> threatens (xs ! m) (xs ! i) \<and> \<not> threatens (xs ! m) (xs ! j)"
  shows "\<exists>st'. for_each (\<lambda>(i, j). pair_step i j) ps st = Inr st' \<and> only_deaths xs st' \<and>
           alive (st' ! i) \<and> alive (st' ! j)"
  using assms(1,2,6,7,8)
proof (induction ps arbitrary: st)
  case Nil
  then show ?case by simp
next
  case (Cons p ps)
  obtain k l where p: "p = (k, l)" by (cases p)
  from Cons.prems(1) p have kl: "k < l" "l < length xs" by auto
  from Cons.prems(2) p have ne: "(k, l) \<noteq> (i, j)" by auto
  have len: "length st = length xs" using Cons.prems(3) by (simp add: only_deaths_def)
  have bst: "\<forall>s \<in> set st. body s \<noteq> []"
    by (rule only_deaths_bodies [OF Cons.prems(3) bodies])
  have "body (st ! k) \<noteq> []" "body (st ! l) \<noteq> []" using bst kl len by simp_all
  from pair_step_effect [OF _ _ _ this] kl len obtain st1 where
    s1: "pair_step k l st = Inr st1" and d1: "only_deaths st st1" by auto
  have od1: "only_deaths xs st1" by (rule only_deaths_trans [OF Cons.prems(3) d1])
  from pair_step_pair_survives [OF s1 kl ne ij Cons.prems(3,4,5) safe]
  have al1: "alive (st1 ! i)" "alive (st1 ! j)" by simp_all
  have "\<forall>(k, l) \<in> set ps. k < l \<and> l < length xs" "(i, j) \<notin> set ps"
    using Cons.prems(1,2) by auto
  from Cons.IH [OF this od1 al1] obtain st' where
    "for_each (\<lambda>(i, j). pair_step i j) ps st1 = Inr st'" "only_deaths xs st'"
    "alive (st' ! i)" "alive (st' ! j)" by blast
  then show ?case by (intro exI [of _ st']) (simp add: p s1)
qed


lemma only_deaths_dead:
  assumes "only_deaths xs ys" "k < length xs" "\<not> alive (xs ! k)"
  shows "\<not> alive (ys ! k)"
  using assms by (auto simp: only_deaths_def)

lemma head_swap_later:
  assumes "only_deaths xs st" "i < length xs" "j < length xs" "head_swap (xs ! i) (xs ! j)"
  shows "head_swap (st ! i) (st ! j)"
  using assms(4) only_deaths_fields [OF assms(1,2)] only_deaths_fields [OF assms(1,3)]
  by (simp add: head_swap_def)

lemma head_swap_ordered:
  assumes bodies: "\<forall>s \<in> set xs. body s \<noteq> []"
    and ij: "i < j" "j < length xs"
    and al: "alive (xs ! i)" "alive (xs ! j)"
    and sw: "head_swap (xs ! i) (xs ! j)"
  shows "\<exists>ys. collision_pass xs = Inr ys \<and>
           \<not> (alive (ys ! i) \<and> alive (ys ! j)) \<and>
           ((\<forall>m < length xs. m \<noteq> i \<and> m \<noteq> j \<longrightarrow>
                \<not> threatens (xs ! m) (xs ! i) \<and> \<not> threatens (xs ! m) (xs ! j)) \<longrightarrow>
            \<not> alive (ys ! i) \<and> \<not> alive (ys ! j))"
proof -
  let ?f = "\<lambda>(i, j). pair_step i j"
  have i: "i < length xs" using ij by simp
  have "(i, j) \<in> set (index_pairs (length xs))" using ij by (simp add: index_pairs_iff)
  from split_list_first [OF this] obtain ps1 ps2 where
    sp: "index_pairs (length xs) = ps1 @ (i, j) # ps2" and nin: "(i, j) \<notin> set ps1" by blast
  have all: "\<forall>(k, l) \<in> set (index_pairs (length xs)). k < l \<and> l < length xs"
    by (auto simp: index_pairs_iff)
  have v1: "\<forall>(k, l) \<in> set ps1. k < l \<and> l < length xs"
    and v2: "\<forall>(k, l) \<in> set ps2. k < l \<and> l < length xs"
    using all unfolding sp by auto
  have "\<forall>(k, l) \<in> set ps1. k < length xs \<and> l < length xs \<and> k \<noteq> l" using v1 by auto
  from for_each_pairs_only_deaths [OF this bodies] obtain st1 where
    f1: "for_each ?f ps1 xs = Inr st1" and d1: "only_deaths xs st1" by blast
  have len1: "length st1 = length xs" using d1 by (simp add: only_deaths_def)
  have b1: "\<forall>s \<in> set st1. body s \<noteq> []" by (rule only_deaths_bodies [OF d1 bodies])
  have "body (st1 ! i) \<noteq> []" "body (st1 ! j) \<noteq> []" using b1 i ij len1 by simp_all
  from pair_step_effect [OF _ _ _ this] i ij len1 obtain st2 where
    f2: "pair_step i j st1 = Inr st2" and d2: "only_deaths st1 st2" by auto
  have len2: "length st2 = length xs" using d2 len1 by (simp add: only_deaths_def)
  have b2: "\<forall>s \<in> set st2. body s \<noteq> []" by (rule only_deaths_bodies [OF d2 b1])
  have "\<forall>(k, l) \<in> set ps2. k < length st2 \<and> l < length st2 \<and> k \<noteq> l"
    using v2 len2 by auto
  from for_each_pairs_only_deaths [OF this b2] obtain ys where
    f3: "for_each ?f ps2 st2 = Inr ys" and d3: "only_deaths st2 ys" by blast
  have res: "collision_pass xs = Inr ys"
    by (simp add: collision_pass_flat sp for_each_append f1 f2 f3)
  have sw1: "head_swap (st1 ! i) (st1 ! j)" by (rule head_swap_later [OF d1 i ij(2) sw])
  have kill: "alive (st1 ! i) \<Longrightarrow> alive (st1 ! j) \<Longrightarrow> \<not> alive (st2 ! i) \<and> \<not> alive (st2 ! j)"
    using pair_step_swap_kills [OF _ _ _ _ _ sw1 f2] i ij len1 by simp
  have fin: "\<And>k. k < length xs \<Longrightarrow> \<not> alive (st2 ! k) \<Longrightarrow> \<not> alive (ys ! k)"
    using only_deaths_dead [OF d3] len2 by simp
  have stay: "\<And>k. k < length xs \<Longrightarrow> \<not> alive (st1 ! k) \<Longrightarrow> \<not> alive (st2 ! k)"
    using only_deaths_dead [OF d2] len1 by simp
  have nb: "\<not> (alive (ys ! i) \<and> alive (ys ! j))"
    using kill stay fin i ij(2) by blast
  have "\<not> alive (ys ! i) \<and> \<not> alive (ys ! j)"
    if safe: "\<forall>m < length xs. m \<noteq> i \<and> m \<noteq> j \<longrightarrow>
                \<not> threatens (xs ! m) (xs ! i) \<and> \<not> threatens (xs ! m) (xs ! j)"
  proof -
    from prefix_keeps_alive [OF v1 nin ij bodies only_deaths_refl al safe] f1
    have "alive (st1 ! i)" "alive (st1 ! j)" by auto
    with kill fin i ij(2) show ?thesis by blast
  qed
  with res nb show ?thesis by blast
qed

lemma head_swap_sym: "head_swap a b = head_swap b a"
  by (auto simp: head_swap_def)


lemmas ex_defs = example_snake_def cross_a_def cross_b_def cross_state_def
  swap_1_def swap_2_def swap_3_def


lemma head_swap_pass:
  assumes "\<forall>s \<in> set xs. body s \<noteq> []"
    and "i < length xs" "j < length xs" "i \<noteq> j"
    and "alive (xs ! i)" "alive (xs ! j)"
    and "head_swap (xs ! i) (xs ! j)"
  shows "\<exists>ys. collision_pass xs = Inr ys \<and>
           \<not> (alive (ys ! i) \<and> alive (ys ! j)) \<and>
           ((\<forall>m < length xs. m \<noteq> i \<and> m \<noteq> j \<longrightarrow>
                \<not> threatens (xs ! m) (xs ! i) \<and> \<not> threatens (xs ! m) (xs ! j)) \<longrightarrow>
            \<not> alive (ys ! i) \<and> \<not> alive (ys ! j))"
proof (cases "i < j")
  case True
  from head_swap_ordered [OF assms(1) True assms(3,5,6,7)] show ?thesis .
next
  case False
  with assms(4) have ji: "j < i" by simp
  have sw: "head_swap (xs ! j) (xs ! i)" using assms(7) by (simp add: head_swap_sym)
  from head_swap_ordered [OF assms(1) ji assms(2,6,5) sw] obtain ys where
    r: "collision_pass xs = Inr ys" and
    nb: "\<not> (alive (ys ! j) \<and> alive (ys ! i))" and
    sf: "(\<forall>m < length xs. m \<noteq> j \<and> m \<noteq> i \<longrightarrow>
             \<not> threatens (xs ! m) (xs ! j) \<and> \<not> threatens (xs ! m) (xs ! i)) \<longrightarrow>
         \<not> alive (ys ! j) \<and> \<not> alive (ys ! i)"
    by blast
  from nb have "\<not> (alive (ys ! i) \<and> alive (ys ! j))" by blast
  moreover from sf have
    "(\<forall>m < length xs. m \<noteq> i \<and> m \<noteq> j \<longrightarrow>
         \<not> threatens (xs ! m) (xs ! i) \<and> \<not> threatens (xs ! m) (xs ! j)) \<longrightarrow>
     \<not> alive (ys ! i) \<and> \<not> alive (ys ! j)"
    by blast
  ultimately show ?thesis using r by blast
qed

text \<open>
  C5 as stated fails.  Players 1 and 3 swap heads by valid moves, and player 2 moves onto
  the cell player 1 moves to.  The pair (player 1, player 2) is evaluated first and kills
  both; the swap pair is then skipped because player 1 is dead, and player 3 is the single
  survivor of the swap.
\<close>

theorem head_swap_counterexample:
  "valid_move swap_1 (40, 30) \<and> valid_move swap_3 (40, 30) \<and>
   new_head_of swap_1 = hd (body swap_3) \<and> new_head_of swap_3 = hd (body swap_1) \<and>
   alive_flags (update_movement
      (cross_state [(''player_1'', swap_1), (''player_2'', swap_2), (''player_3'', swap_3)])
      (\<lambda>n. 0)) =
     [(''player_1'', False), (''player_2'', False), (''player_3'', True)]"
  by (simp add: ex_defs valid_move_def new_head_of_def alive_flags_def update_movement_def
        move_def deltas_get_def in_food_def Let_def collision_pass_def pair_step_def
        check_collision_with_other_def upt_rec)

section \<open>Removing a player twice\<close>

lemma srv_remove_player_absent:
  assumes "map_of (game_server.players srv) pid = None"
  shows "srv_remove_player srv pid = (srv, None)"
  using assms by (simp add: srv_remove_player_def)

lemma remove_player_absent:
  assumes "map_of (game_room.players room) pid = None"
  shows "remove_player room pid g = Inl UnboundLocalError"
  using assms by (simp add: remove_player_def)

text \<open>
  C9 (removal invoked twice), evaluated on the code.  Removing player 1 from a room with
  two members succeeds and leaves player 2 as the only member; the second
  \<open>GameRoom.remove_player\<close> for player 1 reads \<open>has_players\<close> before any assignment and
  raises UnboundLocalError instead of completing.
\<close>

theorem second_room_removal_raises:
  "(\<exists>g' out.
      remove_player two_player_room ''player_1'' (\<lambda>n. 0) =
        Inr (once_removed, False, g', out)) \<and>
   map fst (game_room.players once_removed) = [''player_2''] \<and>
   remove_player once_removed ''player_1'' g = Inl UnboundLocalError"
  by (simp add: once_removed_def two_player_room_def remove_player_def example_info_def
        choice_def Let_def gs_remove_player_def AList.delete_eq)

section \<open>Outcomes of receiving a message\<close>

text \<open>
  C2 (three outcomes of receiving), evaluated on the code.  A read timeout, a connection
  closed by the peer and a frame whose payload does not decode all make
  \<open>receive_message\<close> return the same value \<open>None\<close>: the caller cannot tell the
  recoverable outcome from the fatal ones.
\<close>

theorem receive_outcomes_collapse:
  "receive_message (\<lambda>bs. Inl UnpicklingError) [Timeout] = (PyNone, []) \<and>
   receive_message (\<lambda>bs. Inl UnpicklingError) [] = (PyNone, []) \<and>
   receive_message (\<lambda>bs. Inl UnpicklingError) [Chunk [0, 0, 0, 2], Chunk [7, 7]] =
     (PyNone, [])"
  by (simp add: receive_message_def unpack_length_def read_body.simps deserialize_message_def)


section \<open>End of a round\<close>

lemma end_condition_cases:
  assumes listed: "\<forall>(pid, s) \<in> set sn. map_of (game_room.players room) pid \<noteq> None"
  shows "\<exists>p. end_condition room sn = Inr p \<and>
     (length sn > 1 \<and> length (filter (\<lambda>(pid, s). alive s) sn) = 1 \<longrightarrow>
        (\<exists>pid s info. filter (\<lambda>(pid, s). alive s) sn = [(pid, s)] \<and>
            map_of (game_room.players room) pid = Some info \<and>
            p = Some (Winner pid (username info) (score s)))) \<and>
     (length sn > 1 \<and> length (filter (\<lambda>(pid, s). alive s) sn) = 0 \<longrightarrow> p = Some Draw) \<and>
     (length sn = 1 \<and> length (filter (\<lambda>(pid, s). alive s) sn) = 0 \<longrightarrow>
        (\<exists>pid s. sn = [(pid, s)] \<and> p = Some (Single_player (score s)))) \<and>
     (length sn = 0 \<or> length (filter (\<lambda>(pid, s). alive s) sn) > 1 \<or>
      (length sn = 1 \<and> length (filter (\<lambda>(pid, s). alive s) sn) = 1) \<longrightarrow> p = None)"
proof -
  let ?al = "filter (\<lambda>(pid, s). alive s) sn"
  consider (win) "length ?al = 1" "length sn > 1"
    | (draw) "length ?al = 0" "length sn > 1"
    | (single) "length sn = 1" "length ?al = 0"
    | (none) "length sn = 0 \<or> length ?al > 1 \<or> (length sn = 1 \<and> length ?al = 1)"
    by (cases "length sn" "1::nat" rule: linorder_cases; cases "length ?al" "1::nat" rule: linorder_cases) auto
  then show ?thesis
  proof cases
    case win
    then obtain pid s where al: "?al = [(pid, s)]"
      by (cases ?al) auto
    then have "(pid, s) \<in> set sn" by (metis filter_is_subset list.set_intros(1) subsetD)
    with listed obtain info where "map_of (game_room.players room) pid = Some info" by auto
    with win al show ?thesis by (auto simp: end_condition_def)
  next
    case draw
    then show ?thesis by (auto simp: end_condition_def)
  next
    case single
    then obtain pid s where "sn = [(pid, s)]" by (cases sn) auto
    with single show ?thesis by (auto simp: end_condition_def)
  next
    case none
    have le: "length ?al \<le> length sn" by simp
    from none le show ?thesis
      by (auto simp: end_condition_def Let_def)
  qed
qed

text \<open>
  C6 (end-condition detection), as the code has it.  \<open>N\<close> is the number of snakes the
  simulation holds now (\<open>GameState.remove_player\<close> deletes the snake of a player who
  leaves), \<open>A\<close> the number of them alive after the movement and collisions of the tick.
  In an active room whose snakes all belong to listed players, \<open>update_game\<close> returns
  normally; if \<open>N > 1\<close> and \<open>A = 1\<close> it announces the sole survivor as winner with its
  name and score; if \<open>N > 1\<close> and \<open>A = 0\<close> a draw; if \<open>N = 1\<close> and \<open>A = 0\<close> a
  single-player end with the lone snake's score; otherwise nothing.  An announcement
  clears both active flags and is broadcast before the snapshot; without one the room
  stays active.
\<close>

theorem end_condition_detection:
  assumes act: "game_room.game_active room"
    and mv: "update_movement (game_state room) g = Inr (gs, g')"
    and listed: "\<forall>(pid, s) \<in> set (snakes gs). map_of (game_room.players room) pid \<noteq> None"
  shows "\<exists>room' p.
     update_game room g = Inr (room', g', game_over_sends room' p @ game_state_sends room') \<and>
     snakes (game_state room') = snakes gs \<and>
     (length (snakes gs) > 1 \<and> length (alive_snakes gs) = 1 \<longrightarrow>
        (\<exists>pid s info. alive_snakes gs = [(pid, s)] \<and>
            map_of (game_room.players room) pid = Some info \<and>
            p = Some (Winner pid (username info) (score s)))) \<and>
     (length (snakes gs) > 1 \<and> length (alive_snakes gs) = 0 \<longrightarrow> p = Some Draw) \<and>
     (length (snakes gs) = 1 \<and> length (alive_snakes gs) = 0 \<longrightarrow>
        (\<exists>pid s. snakes gs = [(pid, s)] \<and> p = Some (Single_player (score s)))) \<and>
     (length (snakes gs) = 0 \<or> length (alive_snakes gs) > 1 \<or>
      (length (snakes gs) = 1 \<and> length (alive_snakes gs) = 1) \<longrightarrow> p = None) \<and>
     (p \<noteq> None \<longrightarrow> \<not> game_room.game_active room' \<and>
                   \<not> game_state.game_active (game_state room')) \<and>
     (p = None \<longrightarrow> game_room.game_active room')"
proof -
  from end_condition_cases [OF listed] obtain p where
    ec: "end_condition room (snakes gs) = Inr p" and
    cs: "(length (snakes gs) > 1 \<and> length (alive_snakes gs) = 1 \<longrightarrow>
        (\<exists>pid s info. alive_snakes gs = [(pid, s)] \<and>
            map_of (game_room.players room) pid = Some info \<and>
            p = Some (Winner pid (username info) (score s)))) \<and>
     (length (snakes gs) > 1 \<and> length (alive_snakes gs) = 0 \<longrightarrow> p = Some Draw) \<and>
     (length (snakes gs) = 1 \<and> length (alive_snakes gs) = 0 \<longrightarrow>
        (\<exists>pid s. snakes gs = [(pid, s)] \<and> p = Some (Single_player (score s)))) \<and>
     (length (snakes gs) = 0 \<or> length (alive_snakes gs) > 1 \<or>
      (length (snakes gs) = 1 \<and> length (alive_snakes gs) = 1) \<longrightarrow> p = None)"
    unfolding alive_snakes_def by blast
  show ?thesis
  proof (cases p)
    case None
    let ?r = "room\<lparr>game_state := gs\<rparr>"
    have "update_game room g = Inr (?r, g', game_over_sends ?r p @ game_state_sends ?r)"
      using act by (simp add: update_game_def mv ec None game_over_sends_def game_state_sends_def Let_def)
    moreover have "snakes (game_state ?r) = snakes gs" "game_room.game_active ?r"
      using act by simp_all
    ultimately show ?thesis using cs None by blast
  next
    case (Some q)
    let ?r = "room\<lparr>game_room.game_active := False,
                   game_state := gs\<lparr>game_state.game_active := False\<rparr>\<rparr>"
    have "update_game room g = Inr (?r, g', game_over_sends ?r p @ game_state_sends ?r)"
      using act
      by (simp add: update_game_def mv ec Some game_over_sends_def game_state_sends_def
            Let_def)
    moreover have "snakes (game_state ?r) = snakes gs" "\<not> game_room.game_active ?r"
      "\<not> game_state.game_active (game_state ?r)"
      by simp_all
    ultimately show ?thesis using cs Some by blast
  qed
qed

text \<open>
  C6 as stated fails for \<open>N\<close> counting every snake that ever joined.  Two players joined
  the run and player 2 left: the next update finds one snake, alive, declares nothing
  (only the snapshot is sent) and the room stays active.
\<close>

theorem end_condition_counterexample:
  "length (snakes (game_state two_player_room)) = 2 \<and>
   tick_summary left_alone = Some (True, 1, 1, [''game_state''])"
  by (simp add: left_alone_def tick_summary_def two_player_room_def start_game_def
        remove_player_def example_info_def example_snake_def gs_remove_player_def
        AList.delete_eq Let_def update_game_def update_movement_def move_def in_food_def
        deltas_get_def collision_pass_def end_condition_def broadcast_message_def
        create_message_def notify_creator_change_def alive_snakes_def)

theorem end_condition_detection_witness:
  "game_room.game_active duel_room \<and>
   update_movement (game_state duel_room) (\<lambda>n. 0) =
     Inr (duel_state [(6, 5)] (5, 5) True [(39, 9)] (39, 9) False, \<lambda>n. 0) \<and>
   map fst (snakes (duel_state [(6, 5)] (5, 5) True [(39, 9)] (39, 9) False)) =
     map fst (game_room.players duel_room) \<and>
   (\<exists>room'. update_game duel_room (\<lambda>n. 0) =
        Inr (room', \<lambda>n. 0,
             game_over_sends room' (Some (Winner ''player_1'' (PyStr ''ann'') 0)) @
             game_state_sends room') \<and>
      \<not> game_room.game_active room')"
proof -
  let ?gs = "duel_state [(6, 5)] (5, 5) True [(39, 9)] (39, 9) False"
  have h1: "game_room.game_active duel_room" by (simp add: duel_room_def)
  have h2: "update_movement (game_state duel_room) (\<lambda>n. 0) = Inr (?gs, \<lambda>n. 0)"
    by (simp add: duel_room_def duel_state_def example_snake_def update_movement_def move_def
          in_food_def deltas_get_def Let_def collision_pass_def pair_step_def
          check_collision_with_other_def upt_rec)
  have h3: "\<forall>(pid, s) \<in> set (snakes ?gs). map_of (game_room.players duel_room) pid \<noteq> None"
    by (simp add: duel_room_def duel_state_def two_player_room_def)
  have al: "alive_snakes ?gs =
      [(''player_1'', example_snake ''player_1'' [(6, 5)] ''RIGHT'' ''RIGHT'' (5, 5))]"
    "length (snakes ?gs) = 2"
    by (simp_all add: alive_snakes_def duel_state_def example_snake_def)
  have pl: "map_of (game_room.players duel_room) ''player_1'' = Some (example_info ''ann'' 1)"
    by (simp add: duel_room_def two_player_room_def)
  from end_condition_detection [OF h1 h2 h3] al pl obtain room' where
    "update_game duel_room (\<lambda>n. 0) =
        Inr (room', \<lambda>n. 0,
             game_over_sends room' (Some (Winner ''player_1'' (PyStr ''ann'') 0)) @
             game_state_sends room')" "\<not> game_room.game_active room'"
    by (auto simp: example_info_def example_snake_def)
  moreover have "map fst (snakes ?gs) = map fst (game_room.players duel_room)"
    by (simp add: duel_room_def duel_state_def two_player_room_def)
  ultimately show ?thesis using h1 h2 by blast
qed

section \<open>One tick of the simulation\<close>

lemma move_total:
  assumes "body s \<noteq> []"
  shows "\<exists>s' ate. move s grid fp = Inr (s', ate) \<and> body s' \<noteq> []"
  using assms
  by (cases "body s") (auto simp: move_def Let_def split: prod.splits)

lemma move_valid_prev_head:
  assumes "valid_move s grid" "move s grid fp = Inr (s', ate)"
  shows "prev_head s' = hd (body s)"
proof -
  from assms(1) obtain hx hy rest where b: "body s = (hx, hy) # rest"
    by (cases "body s") (auto simp: valid_move_def)
  obtain dx dy where d: "deltas_get (next_direction s) = (dx, dy)"
    by (cases "deltas_get (next_direction s)")
  have nh: "new_head_of s = (hx + dx, hy + dy)"
    by (simp add: new_head_of_def b d)
  from assms show ?thesis
    unfolding valid_move_def nh
    by (auto simp: move_def b d Let_def not_le split: if_splits)
qed

lemma in_food_set: "in_food c (Some (set fs)) = (c \<in> set fs)"
  by (auto simp: in_food_def)

text \<open>The first loop of \<open>update_movement\<close> calls \<open>move\<close> on every snake, position by position.\<close>

lemma move_snakes_shape:
  assumes "\<forall>s \<in> set (map snd sn). body s \<noteq> []"
  shows "\<exists>moved eaters. move_snakes sn grid fs = Inr (moved, eaters) \<and>
           length moved = length sn \<and> map fst moved = map fst sn \<and>
           (\<forall>k < length sn. \<exists>ate. move (snd (sn ! k)) grid fs = Inr (snd (moved ! k), ate)) \<and>
           (\<forall>s \<in> set (map snd moved). body s \<noteq> []) \<and>
           set eaters \<subseteq> set (map snd moved)"
  using assms
proof (induction sn)
  case Nil
  then show ?case by simp
next
  case (Cons p rest)
  obtain pid s where p: "p = (pid, s)" by (cases p)
  from Cons.prems p have bs: "body s \<noteq> []" by simp
  from move_total [OF bs] obtain s' ate where
    m: "move s grid fs = Inr (s', ate)" and b': "body s' \<noteq> []" by blast
  from Cons.prems have "\<forall>s \<in> set (map snd rest). body s \<noteq> []" by simp
  from Cons.IH [OF this] obtain moved eaters where
    r: "move_snakes rest grid fs = Inr (moved, eaters)" and
    len: "length moved = length rest" and
    keys: "map fst moved = map fst rest" and
    each: "\<forall>k < length rest. \<exists>ate. move (snd (rest ! k)) grid fs = Inr (snd (moved ! k), ate)" and
    bodies: "\<forall>s \<in> set (map snd moved). body s \<noteq> []" and
    sub: "set eaters \<subseteq> set (map snd moved)"
    by blast
  let ?moved = "(pid, s') # moved"
  let ?eaters = "(if ate then [s'] else []) @ eaters"
  have 1: "move_snakes (p # rest) grid fs = Inr (?moved, ?eaters)"
    by (simp add: p m r)
  have 2: "\<forall>k < length (p # rest).
             \<exists>ate. move (snd ((p # rest) ! k)) grid fs = Inr (snd (?moved ! k), ate)"
  proof (intro allI impI)
    fix k assume k: "k < length (p # rest)"
    show "\<exists>ate. move (snd ((p # rest) ! k)) grid fs = Inr (snd (?moved ! k), ate)"
    proof (cases k)
      case 0
      then show ?thesis using m p by auto
    next
      case (Suc n)
      with k each show ?thesis by simp
    qed
  qed
  have 3: "\<forall>s \<in> set (map snd ?moved). body s \<noteq> []" using bodies b' by simp
  have 4: "set ?eaters \<subseteq> set (map snd ?moved)" using sub by auto
  have 5: "length ?moved = length (p # rest)" "map fst ?moved = map fst (p # rest)"
    using len keys p by simp_all
  from 1 2 3 4 5 show ?case by blast
qed

text \<open>Generating food returns normally on a grid with at least one cell and touches no snake.\<close>

lemma food_attempts_shape:
  assumes "1 \<le> fst (grid_size gs)" "1 \<le> snd (grid_size gs)"
  shows "\<exists>gs' g'. food_attempts a gs g = Inr (gs', g') \<and> snakes gs' = snakes gs \<and>
           grid_size gs' = grid_size gs \<and> game_state.game_active gs' = game_state.game_active gs"
  using assms
proof (induction a gs g rule: food_attempts.induct)
  case (1 attempts gs g)
  show ?case
  proof (cases "attempts < 50")
    case False
    then show ?thesis by (subst food_attempts.simps) simp
  next
    case True
    obtain x g1 where r1: "randint 0 (fst (grid_size gs) - 1) g = Inr (x, g1)"
      using "1.prems"(1) by (auto simp: randint_def)
    obtain y g2 where r2: "randint 0 (snd (grid_size gs) - 1) g1 = Inr (y, g2)"
      using "1.prems"(2) by (auto simp: randint_def)
    show ?thesis
    proof (cases "\<not> occupied gs (x, y) \<and> (x, y) \<notin> set (food_positions gs)")
      case free: True
      then show ?thesis
        by (subst food_attempts.simps) (simp add: True r1 r2)
    next
      case taken: False
      from "1.IH" [OF True r1 refl r2 refl taken "1.prems"]
      obtain gs' g' where
        "food_attempts (attempts + 1) gs g2 = Inr (gs', g')" "snakes gs' = snakes gs"
        "grid_size gs' = grid_size gs"
        "game_state.game_active gs' = game_state.game_active gs"
        by blast
      with taken show ?thesis
        by (subst food_attempts.simps) (simp add: True r1 r2)
    qed
  qed
qed

lemma generate_food_shape:
  assumes "1 \<le> fst (grid_size gs)" "1 \<le> snd (grid_size gs)"
  shows "\<exists>gs' g'. generate_food n gs g = Inr (gs', g') \<and> snakes gs' = snakes gs \<and>
           grid_size gs' = grid_size gs \<and> game_state.game_active gs' = game_state.game_active gs"
  using assms
proof (induction n arbitrary: gs g)
  case 0
  then show ?case by simp
next
  case (Suc n)
  from food_attempts_shape [OF Suc.prems, of 0 g] obtain gs1 g1 where
    f: "food_attempts 0 gs g = Inr (gs1, g1)" and s: "snakes gs1 = snakes gs" and
    gr: "grid_size gs1 = grid_size gs" and
    ac: "game_state.game_active gs1 = game_state.game_active gs"
    by blast
  from Suc.prems gr have "1 \<le> fst (grid_size gs1)" "1 \<le> snd (grid_size gs1)" by simp_all
  from Suc.IH [OF this, of g1] obtain gs' g' where
    "generate_food n gs1 g1 = Inr (gs', g')" "snakes gs' = snakes gs1"
    "grid_size gs' = grid_size gs1"
    "game_state.game_active gs' = game_state.game_active gs1"
    by blast
  with f s gr ac show ?case by simp
qed

lemma replace_food_shape:
  assumes "1 \<le> fst (grid_size gs)" "1 \<le> snd (grid_size gs)"
    and "\<forall>s \<in> set eaters. body s \<noteq> []"
  shows "\<exists>gs' g'. replace_food eaters gs g = Inr (gs', g') \<and> snakes gs' = snakes gs \<and>
           grid_size gs' = grid_size gs \<and> game_state.game_active gs' = game_state.game_active gs"
  using assms
proof (induction eaters arbitrary: gs g)
  case Nil
  then show ?case by simp
next
  case (Cons s rest)
  from Cons.prems(3) obtain head_pos tl_cells where b: "body s = head_pos # tl_cells"
    by (cases "body s") auto
  have rest: "\<forall>s \<in> set rest. body s \<noteq> []" using Cons.prems(3) by simp
  show ?case
  proof (cases "head_pos \<in> set (food_positions gs)")
    case False
    from Cons.IH [OF Cons.prems(1,2) rest, of g] False b show ?thesis by simp
  next
    case True
    let ?gs0 = "gs\<lparr>food_positions := remove1 head_pos (food_positions gs)\<rparr>"
    have g0: "1 \<le> fst (grid_size ?gs0)" "1 \<le> snd (grid_size ?gs0)"
      using Cons.prems(1,2) by simp_all
    from generate_food_shape [OF g0, of 1 g] obtain gs1 g1 where
      f: "generate_food 1 ?gs0 g = Inr (gs1, g1)" and s: "snakes gs1 = snakes gs" and
      gr: "grid_size gs1 = grid_size gs" and
      ac: "game_state.game_active gs1 = game_state.game_active gs"
      by auto
    from Cons.prems(1,2) gr have "1 \<le> fst (grid_size gs1)" "1 \<le> snd (grid_size gs1)"
      by simp_all
    from Cons.IH [OF this rest, of g1] obtain gs' g' where
      "replace_food rest gs1 g1 = Inr (gs', g')" "snakes gs' = snakes gs1"
      "grid_size gs' = grid_size gs1"
      "game_state.game_active gs' = game_state.game_active gs1"
      by blast
    with f s gr ac True b show ?thesis by simp
  qed
qed

lemma collision_pass_only_deaths:
  assumes "\<forall>s \<in> set xs. body s \<noteq> []"
  shows "\<exists>ys. collision_pass xs = Inr ys \<and> only_deaths xs ys"
proof -
  have "\<forall>(i, j) \<in> set (index_pairs (length xs)). i < length xs \<and> j < length xs \<and> i \<noteq> j"
    by (auto simp: index_pairs_iff)
  from for_each_pairs_only_deaths [OF this assms] show ?thesis
    by (simp add: collision_pass_flat)
qed

text \<open>
  \<open>update_movement\<close> on an active simulation whose snakes all have a body: every snake is
  moved by \<open>Snake.move\<close> with the set of the food cells of the start of the tick, the
  collision pass runs on the moved snakes, and the snakes of the resulting state are the
  snakes the pass returns, under their keys.
\<close>

lemma update_movement_shape:
  assumes act: "game_state.game_active gs"
    and bodies: "\<forall>s \<in> set (map snd (snakes gs)). body s \<noteq> []"
    and grid: "1 \<le> fst (grid_size gs)" "1 \<le> snd (grid_size gs)"
  shows "\<exists>moved eaters ys gs' g'.
           move_snakes (snakes gs) (grid_size gs) (Some (set (food_positions gs))) =
             Inr (moved, eaters) \<and>
           length moved = length (snakes gs) \<and>
           (\<forall>k < length (snakes gs). \<exists>ate.
              move (snd (snakes gs ! k)) (grid_size gs) (Some (set (food_positions gs))) =
                Inr (snd (moved ! k), ate)) \<and>
           (\<forall>s \<in> set (map snd moved). body s \<noteq> []) \<and>
           collision_pass (map snd moved) = Inr ys \<and> only_deaths (map snd moved) ys \<and>
           update_movement gs g = Inr (gs', g') \<and>
           snakes gs' = zip (map fst (snakes gs)) ys"
proof -
  let ?fs = "Some (set (food_positions gs))"
  from move_snakes_shape [OF bodies, of "grid_size gs" ?fs] obtain moved eaters where
    m: "move_snakes (snakes gs) (grid_size gs) ?fs = Inr (moved, eaters)" and
    len: "length moved = length (snakes gs)" and
    keys: "map fst moved = map fst (snakes gs)" and
    each: "\<forall>k < length (snakes gs). \<exists>ate.
             move (snd (snakes gs ! k)) (grid_size gs) ?fs = Inr (snd (moved ! k), ate)" and
    mb: "\<forall>s \<in> set (map snd moved). body s \<noteq> []" and
    sub: "set eaters \<subseteq> set (map snd moved)"
    by blast
  have eb: "\<forall>s \<in> set eaters. body s \<noteq> []" using mb sub by blast
  have g0: "1 \<le> fst (grid_size (gs\<lparr>snakes := moved\<rparr>))"
    "1 \<le> snd (grid_size (gs\<lparr>snakes := moved\<rparr>))"
    using grid by simp_all
  from replace_food_shape [OF g0 eb, of g] obtain gs1 g1 where
    rf: "replace_food eaters (gs\<lparr>snakes := moved\<rparr>) g = Inr (gs1, g1)" and
    s1: "snakes gs1 = moved"
    by auto
  from collision_pass_only_deaths [OF mb] obtain ys where
    cp: "collision_pass (map snd moved) = Inr ys" and od: "only_deaths (map snd moved) ys"
    by blast
  have um: "update_movement gs g =
              Inr (gs1\<lparr>snakes := zip (map fst (snakes gs)) ys\<rparr>, g1)"
    by (simp add: update_movement_def act m rf s1 cp keys)
  show ?thesis
    using m len each mb cp od um
    by (intro exI [of _ moved] exI [of _ eaters] exI [of _ ys]
          exI [of _ "gs1\<lparr>snakes := zip (map fst (snakes gs)) ys\<rparr>"] exI [of _ g1]) simp
qed

text \<open>
  The snake at position \<open>i\<close> after the tick is the moved snake with, at most, its alive
  flag cleared.
\<close>

lemma update_movement_nth:
  assumes act: "game_state.game_active gs"
    and bodies: "\<forall>s \<in> set (map snd (snakes gs)). body s \<noteq> []"
    and grid: "1 \<le> fst (grid_size gs)" "1 \<le> snd (grid_size gs)"
  shows "\<exists>gs' g'. update_movement gs g = Inr (gs', g') \<and>
           length (snakes gs') = length (snakes gs) \<and>
           (\<forall>k < length (snakes gs). \<exists>t ate.
              move (snd (snakes gs ! k)) (grid_size gs) (Some (set (food_positions gs))) =
                Inr (t, ate) \<and>
              snakes gs' ! k = (fst (snakes gs ! k), t\<lparr>alive := alive (snd (snakes gs' ! k))\<rparr>))"
proof -
  from update_movement_shape [OF assms, of g] obtain moved eaters ys gs' g' where
    "move_snakes (snakes gs) (grid_size gs) (Some (set (food_positions gs))) =
       Inr (moved, eaters)" and
    len: "length moved = length (snakes gs)" and
    each: "\<forall>k < length (snakes gs). \<exists>ate.
             move (snd (snakes gs ! k)) (grid_size gs) (Some (set (food_positions gs))) =
               Inr (snd (moved ! k), ate)" and
    "\<forall>s \<in> set (map snd moved). body s \<noteq> []" and
    "collision_pass (map snd moved) = Inr ys" and
    od: "only_deaths (map snd moved) ys" and
    um: "update_movement gs g = Inr (gs', g')" and
    sn: "snakes gs' = zip (map fst (snakes gs)) ys"
    by (elim exE conjE) (rule that; assumption)
  have ly: "length ys = length (snakes gs)" using od len by (simp add: only_deaths_def)
  have "\<exists>t ate. move (snd (snakes gs ! k)) (grid_size gs) (Some (set (food_positions gs))) =
                  Inr (t, ate) \<and>
               snakes gs' ! k = (fst (snakes gs ! k), t\<lparr>alive := alive (snd (snakes gs' ! k))\<rparr>)"
    if k: "k < length (snakes gs)" for k
  proof -
    from each k obtain ate where
      mv: "move (snd (snakes gs ! k)) (grid_size gs) (Some (set (food_positions gs))) =
             Inr (snd (moved ! k), ate)" by blast
    have nth: "snakes gs' ! k = (fst (snakes gs ! k), ys ! k)"
      using k ly by (simp add: sn)
    from od k len have "ys ! k = (snd (moved ! k))\<lparr>alive := alive (ys ! k)\<rparr>"
      by (simp add: only_deaths_def)
    with nth have "snakes gs' ! k =
        (fst (snakes gs ! k), (snd (moved ! k))\<lparr>alive := alive (snd (snakes gs' ! k))\<rparr>)"
      by simp
    with mv show ?thesis by blast
  qed
  with um ly sn show ?thesis by (intro exI [of _ gs'] exI [of _ g']) simp
qed

lemma valid_move_grid:
  assumes "valid_move s grid"
  shows "1 \<le> fst grid" "1 \<le> snd grid"
  using assms by (auto simp: valid_move_def)

text \<open>
  C8 (growth invariant).  In a tick of an active simulation whose snakes all have a body,
  let the snake of player \<open>pid\<close> be alive with its next head cell inside the grid and
  outside its own body.  Then \<open>update_movement\<close> returns normally, the player's snake
  after the tick has its head on that cell, and if the cell is one of the food cells of
  the simulation, the body is exactly one cell longer and the score exactly 10 higher
  than before the tick; if it is not a food cell, length and score are as before the
  tick.  No snake of the simulation has a shorter body after the tick than before it.
\<close>

theorem growth_invariant:
  assumes "game_state.game_active gs"
    and "\<forall>s \<in> set (map snd (snakes gs)). body s \<noteq> []"
    and "i < length (snakes gs)" and "snakes gs ! i = (pid, s)"
    and "valid_move s (grid_size gs)"
  shows "\<exists>gs' g' s'. update_movement gs g = Inr (gs', g') \<and>
           length (snakes gs') = length (snakes gs) \<and>
           snakes gs' ! i = (pid, s') \<and>
           hd (body s') = new_head_of s \<and>
           (new_head_of s \<in> set (food_positions gs) \<longrightarrow>
              length (body s') = length (body s) + 1 \<and> score s' = score s + 10) \<and>
           (new_head_of s \<notin> set (food_positions gs) \<longrightarrow>
              length (body s') = length (body s) \<and> score s' = score s) \<and>
           (\<forall>k < length (snakes gs).
              length (body (snd (snakes gs ! k))) \<le> length (body (snd (snakes gs' ! k))))"
proof -
  let ?fs = "Some (set (food_positions gs))"
  note grid = valid_move_grid [OF assms(5)]
  from update_movement_nth [OF assms(1,2) grid, of g] obtain gs' g' where
    um: "update_movement gs g = Inr (gs', g')" and
    len: "length (snakes gs') = length (snakes gs)" and
    each: "\<forall>k < length (snakes gs). \<exists>t ate.
             move (snd (snakes gs ! k)) (grid_size gs) ?fs = Inr (t, ate) \<and>
             snakes gs' ! k = (fst (snakes gs ! k), t\<lparr>alive := alive (snd (snakes gs' ! k))\<rparr>)"
    by blast
  from each assms(3,4) obtain t ate where
    mv: "move s (grid_size gs) ?fs = Inr (t, ate)" and
    nth: "snakes gs' ! i = (pid, t\<lparr>alive := alive (snd (snakes gs' ! i))\<rparr>)"
    by fastforce
  let ?s' = "t\<lparr>alive := alive (snd (snakes gs' ! i))\<rparr>"
  from move_valid [OF assms(5), of ?fs] mv have
    h: "hd (body t) = new_head_of s" and
    c: "if in_food (new_head_of s) ?fs
        then length (body t) = length (body s) + 1 \<and> score t = score s + 10
        else length (body t) = length (body s) \<and> score t = score s"
    by auto
  have mono: "length (body (snd (snakes gs ! k))) \<le> length (body (snd (snakes gs' ! k)))"
    if k: "k < length (snakes gs)" for k
  proof -
    from each k obtain u ate' where
      m: "move (snd (snakes gs ! k)) (grid_size gs) ?fs = Inr (u, ate')" and
      n: "snakes gs' ! k = (fst (snakes gs ! k), u\<lparr>alive := alive (snd (snakes gs' ! k))\<rparr>)"
      by blast
    have "body (snd (snakes gs' ! k)) = body u" by (subst n) simp
    with move_length_mono [OF m] show ?thesis by simp
  qed
  show ?thesis
    using um len nth h c mono
    by (intro exI [of _ gs'] exI [of _ g'] exI [of _ ?s'])
       (simp add: in_food_set split: if_splits)
qed

theorem growth_invariant_witness:
  "game_state.game_active (cross_state [(''player_1'', swap_1), (''player_2'', swap_2)]) \<and>
   valid_move swap_1 (40, 30) \<and> new_head_of swap_1 = (6, 5) \<and>
   valid_move swap_2 (40, 30) \<and> new_head_of swap_2 = (6, 5) \<and>
   (\<exists>gs' g' s'.
      update_movement
        ((cross_state [(''player_1'', swap_1), (''player_2'', swap_2)])
           \<lparr>food_positions := [(6, 5), (20, 20)]\<rparr>) (\<lambda>n. 0) = Inr (gs', g') \<and>
      snakes gs' ! 0 = (''player_1'', s') \<and> length (body s') = 2 \<and> score s' = 10)"
proof -
  let ?gs = "(cross_state [(''player_1'', swap_1), (''player_2'', swap_2)])
               \<lparr>food_positions := [(6, 5), (20, 20)]\<rparr>"
  have a: "game_state.game_active ?gs" "game_state.game_active
      (cross_state [(''player_1'', swap_1), (''player_2'', swap_2)])"
    by (simp_all add: ex_defs)
  have b: "\<forall>s \<in> set (map snd (snakes ?gs)). body s \<noteq> []" by (simp add: ex_defs)
  have i: "0 < length (snakes ?gs)" "snakes ?gs ! 0 = (''player_1'', swap_1)"
    by (simp_all add: ex_defs)
  have v: "valid_move swap_1 (grid_size ?gs)" "valid_move swap_1 (40, 30)"
    "valid_move swap_2 (40, 30)"
    by (simp_all add: ex_defs valid_move_def new_head_of_def deltas_get_def)
  have n: "new_head_of swap_1 = (6, 5)" "new_head_of swap_2 = (6, 5)"
    by (simp_all add: ex_defs new_head_of_def deltas_get_def)
  have f: "new_head_of swap_1 \<in> set (food_positions ?gs)"
    by (simp add: n cross_state_def)
  have l: "length (body swap_1) = 1" "score swap_1 = 0" by (simp_all add: ex_defs)
  from growth_invariant [OF a(1) b i v(1), of "\<lambda>n. 0"] f l a(2) v(2,3) n
  show ?thesis by auto
qed

section \<open>Head swap\<close>

text \<open>
  Two snakes that make valid moves onto each other's head cell have swapped heads after
  the moves: \<open>Snake.move\<close> records the head it leaves in \<open>prev_head\<close>.
\<close>

lemma valid_moves_head_swap:
  assumes va: "valid_move a grid" and vb: "valid_move b grid"
    and ma: "move a grid fp = Inr (a', ate_a)" and mb: "move b grid fp = Inr (b', ate_b)"
    and sw: "new_head_of a = hd (body b)" "new_head_of b = hd (body a)"
  shows "alive a' \<and> alive b' \<and> head_swap a' b'"
proof -
  from move_valid [OF va, of fp] ma have a: "alive a'" "hd (body a') = new_head_of a"
    by auto
  from move_valid [OF vb, of fp] mb have b: "alive b'" "hd (body b') = new_head_of b"
    by auto
  have pa: "prev_head a' = hd (body a)" by (rule move_valid_prev_head [OF va ma])
  have pb: "prev_head b' = hd (body b)" by (rule move_valid_prev_head [OF vb mb])
  from move_total [of a grid fp] ma va have na: "body a' \<noteq> []"
    by (auto simp: valid_move_def)
  from move_total [of b grid fp] mb vb have nb: "body b' \<noteq> []"
    by (auto simp: valid_move_def)
  show ?thesis using a b pa pb na nb sw by (simp add: head_swap_def)
qed

text \<open>
  C5 (head swap), as the code has it.  In a tick of an active simulation whose snakes all
  have a body, let the snakes at two positions \<open>i\<close> and \<open>j\<close> both be alive with a valid
  next move, the next head cell of each being the present head cell of the other.  Then
  \<open>update_movement\<close> returns normally and the two snakes are never both alive after the
  tick; both are dead after it when no third snake, as it is after its move, threatens
  either of them (is alive and holds the new head cell of one of the two in its body, or
  swapped heads with it), in particular when the simulation holds only these two snakes.
\<close>

theorem head_swap_mutual_kill:
  assumes "game_state.game_active gs"
    and "\<forall>s \<in> set (map snd (snakes gs)). body s \<noteq> []"
    and "i < length (snakes gs)" "j < length (snakes gs)" "i \<noteq> j"
    and "valid_move (snd (snakes gs ! i)) (grid_size gs)"
    and "valid_move (snd (snakes gs ! j)) (grid_size gs)"
    and "new_head_of (snd (snakes gs ! i)) = hd (body (snd (snakes gs ! j)))"
    and "new_head_of (snd (snakes gs ! j)) = hd (body (snd (snakes gs ! i)))"
  shows "\<exists>moved eaters gs' g'.
           move_snakes (snakes gs) (grid_size gs) (Some (set (food_positions gs))) =
             Inr (moved, eaters) \<and>
           update_movement gs g = Inr (gs', g') \<and>
           length (snakes gs') = length (snakes gs) \<and>
           \<not> (alive (snd (snakes gs' ! i)) \<and> alive (snd (snakes gs' ! j))) \<and>
           ((\<forall>m < length (snakes gs). m \<noteq> i \<and> m \<noteq> j \<longrightarrow>
                \<not> threatens (snd (moved ! m)) (snd (moved ! i)) \<and>
                \<not> threatens (snd (moved ! m)) (snd (moved ! j))) \<longrightarrow>
            \<not> alive (snd (snakes gs' ! i)) \<and> \<not> alive (snd (snakes gs' ! j))) \<and>
           (length (snakes gs) = 2 \<longrightarrow>
            \<not> alive (snd (snakes gs' ! i)) \<and> \<not> alive (snd (snakes gs' ! j)))"
proof -
  let ?fs = "Some (set (food_positions gs))"
  let ?n = "length (snakes gs)"
  note grid = valid_move_grid [OF assms(6)]
  from update_movement_shape [OF assms(1,2) grid, of g] obtain moved eaters ys gs' g' where
    ms: "move_snakes (snakes gs) (grid_size gs) ?fs = Inr (moved, eaters)" and
    len: "length moved = ?n" and
    each: "\<forall>k < ?n. \<exists>ate.
             move (snd (snakes gs ! k)) (grid_size gs) ?fs = Inr (snd (moved ! k), ate)" and
    mb: "\<forall>s \<in> set (map snd moved). body s \<noteq> []" and
    cp: "collision_pass (map snd moved) = Inr ys" and
    od: "only_deaths (map snd moved) ys" and
    um: "update_movement gs g = Inr (gs', g')" and
    sn: "snakes gs' = zip (map fst (snakes gs)) ys"
    by (elim exE conjE) (rule that; assumption)
  have ly: "length ys = ?n" using od len by (simp add: only_deaths_def)
  have nth: "\<And>k. k < ?n \<Longrightarrow> snd (snakes gs' ! k) = ys ! k"
    using ly by (simp add: sn)
  from each assms(3) obtain ate_i where
    mi: "move (snd (snakes gs ! i)) (grid_size gs) ?fs = Inr (snd (moved ! i), ate_i)"
    by blast
  from each assms(4) obtain ate_j where
    mj: "move (snd (snakes gs ! j)) (grid_size gs) ?fs = Inr (snd (moved ! j), ate_j)"
    by blast
  from valid_moves_head_swap [OF assms(6,7) mi mj assms(8,9)] have
    al: "alive (snd (moved ! i))" "alive (snd (moved ! j))" and
    hs: "head_swap (snd (moved ! i)) (snd (moved ! j))"
    by simp_all
  let ?xs = "map snd moved"
  have ij: "i < length ?xs" "j < length ?xs" using assms(3,4) len by simp_all
  have al': "alive (?xs ! i)" "alive (?xs ! j)" using al ij by simp_all
  have hs': "head_swap (?xs ! i) (?xs ! j)" using hs ij by simp
  from head_swap_pass [OF mb ij assms(5) al' hs'] cp have
    nb: "\<not> (alive (ys ! i) \<and> alive (ys ! j))" and
    sf: "(\<forall>m < length ?xs. m \<noteq> i \<and> m \<noteq> j \<longrightarrow>
             \<not> threatens (?xs ! m) (?xs ! i) \<and> \<not> threatens (?xs ! m) (?xs ! j)) \<longrightarrow>
         \<not> alive (ys ! i) \<and> \<not> alive (ys ! j)"
    by auto
  have sf': "\<not> alive (ys ! i) \<and> \<not> alive (ys ! j)"
    if "\<forall>m < ?n. m \<noteq> i \<and> m \<noteq> j \<longrightarrow>
          \<not> threatens (snd (moved ! m)) (snd (moved ! i)) \<and>
          \<not> threatens (snd (moved ! m)) (snd (moved ! j))"
  proof -
    from that have "\<forall>m < length ?xs. m \<noteq> i \<and> m \<noteq> j \<longrightarrow>
             \<not> threatens (?xs ! m) (?xs ! i) \<and> \<not> threatens (?xs ! m) (?xs ! j)"
      using ij len by simp
    with sf show ?thesis by blast
  qed
  have two: "\<not> alive (ys ! i) \<and> \<not> alive (ys ! j)" if "?n = 2"
  proof -
    have "\<forall>m < ?n. m \<noteq> i \<and> m \<noteq> j \<longrightarrow>
          \<not> threatens (snd (moved ! m)) (snd (moved ! i)) \<and>
          \<not> threatens (snd (moved ! m)) (snd (moved ! j))"
      using that assms(3,4,5) by auto
    then show ?thesis by (rule sf')
  qed
  show ?thesis
    using ms um ly nb sf' two assms(3,4)
    by (intro exI [of _ moved] exI [of _ eaters] exI [of _ gs'] exI [of _ g'])
       (simp add: nth sn)
qed

theorem head_swap_mutual_kill_witness:
  "valid_move swap_1 (40, 30) \<and> valid_move swap_3 (40, 30) \<and>
   new_head_of swap_1 = hd (body swap_3) \<and> new_head_of swap_3 = hd (body swap_1) \<and>
   (\<exists>gs' g'. update_movement
                (cross_state [(''player_1'', swap_1), (''player_3'', swap_3)]) (\<lambda>n. 0) =
                Inr (gs', g') \<and>
              length (snakes gs') = 2 \<and>
              \<not> alive (snd (snakes gs' ! 0)) \<and> \<not> alive (snd (snakes gs' ! 1)))"
proof -
  let ?gs = "cross_state [(''player_1'', swap_1), (''player_3'', swap_3)]"
  have a: "game_state.game_active ?gs" by (simp add: cross_state_def)
  have b: "\<forall>s \<in> set (map snd (snakes ?gs)). body s \<noteq> []" by (simp add: ex_defs)
  have i: "0 < length (snakes ?gs)" "1 < length (snakes ?gs)" "(0::nat) \<noteq> 1"
    by (simp_all add: cross_state_def)
  have v0: "valid_move swap_1 (40, 30)" "valid_move swap_3 (40, 30)"
    by (simp_all add: ex_defs valid_move_def new_head_of_def deltas_get_def)
  have s0: "new_head_of swap_1 = hd (body swap_3)" "new_head_of swap_3 = hd (body swap_1)"
    by (simp_all add: ex_defs new_head_of_def deltas_get_def)
  have v: "valid_move (snd (snakes ?gs ! 0)) (grid_size ?gs)"
    "valid_move (snd (snakes ?gs ! 1)) (grid_size ?gs)"
    using v0 by (simp_all add: cross_state_def)
  have s: "new_head_of (snd (snakes ?gs ! 0)) = hd (body (snd (snakes ?gs ! 1)))"
    "new_head_of (snd (snakes ?gs ! 1)) = hd (body (snd (snakes ?gs ! 0)))"
    using s0 by (simp_all add: cross_state_def)
  have l: "length (snakes ?gs) = 2" by (simp add: cross_state_def)
  from head_swap_mutual_kill [OF a b i v s, of "\<lambda>n. 0"] l obtain gs' g' where
    "update_movement ?gs (\<lambda>n. 0) = Inr (gs', g')" "length (snakes gs') = 2"
    "\<not> alive (snd (snakes gs' ! 0))" "\<not> alive (snd (snakes gs' ! 1))"
    by auto
  with v0 s0 show ?thesis by blast
qed

section \<open>Order of the pairwise evaluations\<close>



















section \<open>Rooms and their creators\<close>

lemma has_key_update: "has_key (AList.update k v al) c \<longleftrightarrow> c = k \<or> has_key al c"
  by (auto simp: has_key_def update_conv')

lemma has_key_delete: "has_key (AList.delete k al) c \<longleftrightarrow> c \<noteq> k \<and> has_key al c"
  by (auto simp: has_key_def delete_conv')

lemma has_key_set: "has_key al c \<longleftrightarrow> c \<in> set (map fst al)"
  by (simp add: has_key_def map_of_eq_None_iff)

lemma has_key_Nil: "\<not> has_key [] c"
  by (simp add: has_key_def)

lemma gs_add_player_ok:
  assumes "gs_add_player gs pid g = Inr (gs', ok, g')"
  shows "ok"
  using assms by (auto simp: gs_add_player_def split: if_splits sum.splits option.splits prod.splits)

lemma length_update_new:
  assumes "\<not> has_key al k"
  shows "length (AList.update k v al) = Suc (length al)"
  using assms unfolding has_key_def by (induction al) (auto split: if_splits)

lemma update_not_Nil: "AList.update k v al \<noteq> []"
  by (cases al) simp_all

lemma length_delete_le: "length (AList.delete k al) \<le> length al"
  by (simp add: AList.delete_eq)

lemma choice_mem:
  assumes "choice xs g = Inr (c, g')"
  shows "c \<in> set xs"
  using assms by (auto simp: choice_def split: if_splits)

lemma room_invI:
  assumes "game_room.players room = ps" "max_players room = m" "creator_id room = cr"
    and "int (length ps) \<le> m" "distinct (map fst ps)"
    and "\<And>c. cr = Some c \<Longrightarrow> has_key ps c"
    and "ps \<noteq> [] \<Longrightarrow> cr \<noteq> None"
  shows "room_inv room"
  unfolding room_inv_def assms(1-3) using assms(4-7) by blast

lemma add_player_inv:
  assumes "add_player room pid info g = Inr (room', r, g')" "room_inv room"
  shows "room_inv room' \<and> game_room.room_id room' = game_room.room_id room \<and>
         max_players room' = max_players room"
proof (cases "int (length (game_room.players room)) \<ge> max_players room \<or>
              has_key (game_room.players room) pid")
  case True
  with assms show ?thesis by (auto simp: add_player_def has_key_def split: if_splits)
next
  case False
  then have full: "int (length (game_room.players room)) < max_players room"
    and new: "\<not> has_key (game_room.players room) pid" by auto
  let ?ps = "AList.update pid info (game_room.players room)"
  let ?cr = "if creator_id room = None then Some pid else creator_id room"
  have new': "map_of (game_room.players room) pid = None" using new by (simp add: has_key_def)
  from assms(1) full new' obtain gs' ok where
    g: "gs_add_player (game_state room) pid g = Inr (gs', ok, g')"
    by (auto simp: add_player_def Let_def split: sum.splits if_splits)
  have ok by (rule gs_add_player_ok [OF g])
  with assms(1) full new' g have
    r': "room' = room\<lparr>game_room.players := ?ps, creator_id := ?cr, game_state := gs'\<rparr>"
    by (auto simp: add_player_def Let_def split: if_splits)
  have len: "length ?ps = Suc (length (game_room.players room))"
    by (rule length_update_new [OF new])
  have d: "distinct (map fst ?ps)"
    using assms(2) by (simp add: room_inv_def distinct_update)
  have l: "int (length ?ps) \<le> max_players room"
    using full len by simp
  have k: "\<And>c. ?cr = Some c \<Longrightarrow> has_key ?ps c"
    using assms(2) unfolding room_inv_def has_key_update by (auto split: if_splits)
  have n: "?cr \<noteq> None" by simp
  have "room_inv room'"
  proof (rule room_invI [where ps = "?ps" and m = "max_players room" and cr = "?cr"])
    show "game_room.players room' = ?ps" "max_players room' = max_players room"
      "creator_id room' = ?cr" by (simp_all add: r')
    show "int (length ?ps) \<le> max_players room" by (rule l)
    show "distinct (map fst ?ps)" by (rule d)
    show "\<And>c. ?cr = Some c \<Longrightarrow> has_key ?ps c" by (rule k)
    show "?cr \<noteq> None" by (rule n)
  qed
  then show ?thesis by (simp add: r')
qed

lemma remove_player_inv:
  assumes "remove_player room pid g = Inr (room', now_empty, g', out)" "room_inv room"
  shows "room_inv room' \<and> game_room.room_id room' = game_room.room_id room \<and>
         max_players room' = max_players room \<and>
         game_room.players room' = AList.delete pid (game_room.players room) \<and>
         now_empty = (game_room.players room' = []) \<and>
         (creator_id room = Some pid \<and> game_room.players room' \<noteq> [] \<longrightarrow>
            (\<exists>c. creator_id room' = Some c \<and> c \<noteq> pid \<and>
                 has_key (game_room.players room') c))"
proof -
  let ?ps = "AList.delete pid (game_room.players room)"
  let ?r1 = "room\<lparr>game_room.players := ?ps,
                  game_state := gs_remove_player (game_state room) pid\<rparr>"
  from assms(1) have mem: "map_of (game_room.players room) pid \<noteq> None"
    by (auto simp: remove_player_def split: if_splits)
  have d: "distinct (map fst ?ps)" using assms(2) by (simp add: room_inv_def distinct_delete)
  have l: "int (length ?ps) \<le> max_players room"
    using assms(2) length_delete_le [of pid "game_room.players room"]
    by (simp add: room_inv_def)
  show ?thesis
  proof (cases "?ps = []")
    case True
    with assms(1) mem have r': "room' = ?r1\<lparr>creator_id := None, game_room.game_active := False\<rparr>"
      and ne: "now_empty"
      by (auto simp: remove_player_def Let_def split: if_splits sum.splits)
    have z: "0 \<le> max_players room" using l by simp
    have "room_inv room'"
      by (rule room_invI [where ps = "[]" and m = "max_players room" and cr = None])
         (simp_all add: r' True z)
    then show ?thesis using True ne by (simp add: r')
  next
    case False
    show ?thesis
    proof (cases "creator_id room = Some pid")
      case True
      with assms(1) mem False obtain c where
        ch: "choice (map fst ?ps) g = Inr (c, g')" and
        r': "room' = ?r1\<lparr>creator_id := Some c\<rparr>" and ne: "\<not> now_empty"
        by (auto simp: remove_player_def Let_def split: if_splits sum.splits)
      from choice_mem [OF ch] have c1: "has_key ?ps c" by (simp only: has_key_set)
      then have c2: "c \<noteq> pid" by (simp add: has_key_delete)
      have "room_inv room'"
        by (rule room_invI [where ps = "?ps" and m = "max_players room" and cr = "Some c"])
           (simp_all add: r' d l c1)
      moreover have "\<exists>c. creator_id room' = Some c \<and> c \<noteq> pid \<and>
                 has_key (game_room.players room') c"
        using c1 c2 by (intro exI [of _ c]) (simp add: r')
      ultimately show ?thesis using ne False by (simp add: r')
    next
      case nc: False
      with assms(1) mem False have r': "room' = ?r1" and ne: "\<not> now_empty"
        by (auto simp: remove_player_def Let_def split: if_splits sum.splits)
      have cr: "\<And>c. creator_id room = Some c \<Longrightarrow> has_key ?ps c"
        using nc assms(2) unfolding room_inv_def has_key_delete by auto
      have cn: "creator_id room \<noteq> None"
        using assms(2) mem unfolding room_inv_def by auto
      have "room_inv room'"
        by (rule room_invI [where ps = "?ps" and m = "max_players room"
                              and cr = "creator_id room"])
           (simp_all add: r' d l cr cn)
      then show ?thesis using ne False nc by (simp add: r')
    qed
  qed
qed

lemma room_inv_same:
  assumes "game_room.players room' = game_room.players room"
    "creator_id room' = creator_id room" "max_players room' = max_players room"
  shows "room_inv room' = room_inv room"
  by (simp add: room_inv_def assms)

lemma room_ok_same:
  assumes "game_room.players room' = game_room.players room \<and>
    creator_id room' = creator_id room \<and> max_players room' = max_players room \<and>
    game_room.room_id room' = game_room.room_id room"
  shows "room_ok rid room' = room_ok rid room"
  using assms room_inv_same [of room' room] by (simp add: room_ok_def)

lemma add_player_ok:
  assumes "add_player room pid info g = Inr (room', r, g')" "room_ok rid room"
  shows "room_ok rid room'"
  using add_player_inv [OF assms(1)] assms(2) by (simp add: room_ok_def)

lemma remove_player_ok:
  assumes "remove_player room pid g = Inr (room', now_empty, g', out)" "room_ok rid room"
  shows "room_ok rid room'"
  using remove_player_inv [OF assms(1)] assms(2) by (simp add: room_ok_def)

lemma start_game_ok:
  assumes "start_game room pid = (room', r)" "room_ok rid room"
  shows "room_ok rid room'"
proof -
  from assms(1) have "game_room.players room' = game_room.players room \<and>
    creator_id room' = creator_id room \<and> max_players room' = max_players room \<and>
    game_room.room_id room' = game_room.room_id room"
    by (auto simp: start_game_def split: if_splits)
  from room_ok_same [OF this] assms(2) show ?thesis by simp
qed

lemma restart_game_ok:
  assumes "restart_game room pid g = Inr (room', r, g')" "room_ok rid room"
  shows "room_ok rid room'"
proof -
  from assms(1) have "game_room.players room' = game_room.players room \<and>
    creator_id room' = creator_id room \<and> max_players room' = max_players room \<and>
    game_room.room_id room' = game_room.room_id room"
    by (auto simp: restart_game_def Let_def split: if_splits sum.splits)
  from room_ok_same [OF this] assms(2) show ?thesis by simp
qed

lemma update_game_ok:
  assumes "update_game room g = Inr (room', g', out)" "room_ok rid room"
  shows "room_ok rid room'"
proof -
  from assms(1) have "game_room.players room' = game_room.players room \<and>
    creator_id room' = creator_id room \<and> max_players room' = max_players room \<and>
    game_room.room_id room' = game_room.room_id room"
    by (auto simp: update_game_def Let_def split: if_splits sum.splits)
  from room_ok_same [OF this] assms(2) show ?thesis by simp
qed

lemma game_state_update_ok:
  "room_ok rid (room\<lparr>game_state := gs\<rparr>) = room_ok rid room"
  by (rule room_ok_same) simp

lemma new_room_ok:
  assumes "new_room rid name (capacity_of rid) g = Inr (room, g')"
  shows "room_ok rid room"
  using assms
  by (auto simp: new_room_def room_ok_def room_inv_def capacity_of_def split: sum.splits)

lemma set_update_subset: "set (AList.update k v al) \<subseteq> insert (k, v) (set al)"
  by (induction al) auto

lemma set_delete_subset: "set (AList.delete k al) \<subseteq> set al"
  by (auto simp: AList.delete_eq)

lemma rooms_ok_update:
  assumes "rooms_ok rs" "room_ok k r"
  shows "rooms_ok (AList.update k r rs)"
  using assms set_update_subset [of k r rs] unfolding rooms_ok_def by blast

lemma rooms_ok_delete:
  assumes "rooms_ok rs"
  shows "rooms_ok (AList.delete k rs)"
  using assms set_delete_subset [of k rs] unfolding rooms_ok_def by blast

lemma rooms_ok_map_of:
  assumes "rooms_ok rs" "map_of rs k = Some r"
  shows "room_ok k r"
  using assms map_of_SomeD [of rs k r] unfolding rooms_ok_def by blast

lemma srv_inv_fields:
  assumes "lobby_room srv' = lobby_room srv" "rooms srv' = rooms srv"
  shows "srv_inv srv' = srv_inv srv"
  by (simp add: srv_inv_def assms)

lemma srv_inv_send_to [simp]: "srv_inv (send_to srv out) = srv_inv srv"
  by (rule srv_inv_fields) (simp_all add: send_to_def)

lemma srv_inv_random_state [simp]: "srv_inv (srv\<lparr>random_state := g\<rparr>) = srv_inv srv"
  by (rule srv_inv_fields) simp_all

lemma srv_inv_players [simp]: "srv_inv (srv\<lparr>game_server.players := ps\<rparr>) = srv_inv srv"
  by (rule srv_inv_fields) simp_all

lemma srv_inv_player_counter [simp]: "srv_inv (srv\<lparr>player_counter := n\<rparr>) = srv_inv srv"
  by (rule srv_inv_fields) simp_all

lemma srv_inv_room_counter [simp]: "srv_inv (srv\<lparr>room_counter := n\<rparr>) = srv_inv srv"
  by (rule srv_inv_fields) simp_all

lemma srv_inv_closed [simp]: "srv_inv (srv\<lparr>closed_sockets := cs\<rparr>) = srv_inv srv"
  by (rule srv_inv_fields) simp_all

lemma srv_inv_send_player [simp]: "srv_inv (send_message_to_player srv pid m) = srv_inv srv"
  by (simp add: send_message_to_player_def split: option.splits)

lemma srv_inv_room_list [simp]: "srv_inv (broadcast_room_list_to_lobby srv) = srv_inv srv"
  by (simp add: broadcast_room_list_to_lobby_def)

lemma srv_inv_send_list [simp]: "srv_inv (send_room_list_to_player srv pid) = srv_inv srv"
  by (simp add: send_room_list_to_player_def)

lemma srv_inv_store:
  assumes "srv_inv srv" "room_ok rid r"
  shows "srv_inv (store_room srv rid r)"
  using assms by (auto simp: srv_inv_def store_room_def intro: rooms_ok_update)

lemma srv_inv_pop:
  assumes "srv_inv srv"
  shows "srv_inv (srv\<lparr>rooms := AList.delete rid (rooms srv)\<rparr>)"
  using assms by (auto simp: srv_inv_def intro: rooms_ok_delete)

lemma srv_inv_get:
  assumes "srv_inv srv" "rooms_get srv rid = Some r"
  shows "room_ok rid r"
  using assms rooms_ok_map_of [of "rooms srv" rid r]
  by (auto simp: srv_inv_def rooms_get_def split: if_splits)

lemma leave_room_object_inv:
  assumes "leave_room_object srv rid room pid t = (srv', e)"
    and "srv_inv srv" "room_ok rid room"
  shows "srv_inv srv'"
proof (cases "remove_player room pid (random_state srv)")
  case (Inl err)
  with assms show ?thesis by (simp add: leave_room_object_def)
next
  case (Inr res)
  then obtain room' now_empty g' out where
    rp: "remove_player room pid (random_state srv) = Inr (room', now_empty, g', out)"
    by (cases res) auto
  from remove_player_ok [OF rp assms(3)] have ri: "room_ok rid room'" .
  have st: "srv_inv (store_room srv rid room')" by (rule srv_inv_store [OF assms(2) ri])
  from assms(1) st show ?thesis
    unfolding leave_room_object_def rp
    by (auto simp: Let_def srv_inv_pop split: if_splits)
qed

lemma srv_remove_player_inv:
  assumes "srv_remove_player srv pid = (srv', e)" "srv_inv srv"
  shows "srv_inv srv'"
proof (cases "map_of (game_server.players srv) pid")
  case None
  with assms show ?thesis by (simp add: srv_remove_player_def)
next
  case (Some en)
  let ?srv1 = "srv\<lparr>game_server.players := AList.delete pid (game_server.players srv)\<rparr>"
  have i1: "srv_inv ?srv1" using assms(2) by simp
  show ?thesis
  proof (cases "\<exists>rid room. player_entry.room_id en = Some rid \<and> rid \<noteq> [] \<and>
                  rooms_get ?srv1 rid = Some room")
    case True
    then obtain rid room where
      r: "player_entry.room_id en = Some rid" "rid \<noteq> []" "rooms_get ?srv1 rid = Some room"
      by blast
    obtain srv2 e2 where
      l: "leave_room_object ?srv1 rid room pid (Left_game_notice (username en)) = (srv2, e2)"
      by (cases "leave_room_object ?srv1 rid room pid (Left_game_notice (username en))")
    from leave_room_object_inv [OF l i1 srv_inv_get [OF i1 r(3)]] have "srv_inv srv2" .
    with assms(1) show ?thesis
      by (auto simp: srv_remove_player_def Some Let_def r l split: option.splits)
  next
    case False
    with assms(1) i1 show ?thesis
      by (auto simp: srv_remove_player_def Some Let_def split: option.splits if_splits)
  qed
qed

lemma move_player_to_room_inv:
  assumes "move_player_to_room srv pid new_rid name = (srv', e)" "srv_inv srv"
  shows "srv_inv srv'"
proof (cases "map_of (game_server.players srv) pid")
  case None
  with assms show ?thesis by (simp add: move_player_to_room_def)
next
  case (Some en)
  define ph where "ph =
     (case player_entry.room_id en of
        None \<Rightarrow> (srv, None)
      | Some rid \<Rightarrow>
          (if rid \<noteq> [] \<and> rid \<noteq> new_rid then
             (case rooms_get srv rid of
                None \<Rightarrow> (srv, None)
              | Some old_room \<Rightarrow>
                  leave_room_object srv rid old_room pid (Left_room_notice (username en)))
           else (srv, None)))"
  obtain srv1 e1 where ph: "ph = (srv1, e1)" by (cases ph)
  have i1: "srv_inv srv1"
  proof (cases "\<exists>rid old_room. player_entry.room_id en = Some rid \<and> rid \<noteq> [] \<and>
                  rid \<noteq> new_rid \<and> rooms_get srv rid = Some old_room")
    case True
    then obtain rid old_room where
      r: "player_entry.room_id en = Some rid" "rid \<noteq> []" "rid \<noteq> new_rid"
         "rooms_get srv rid = Some old_room" by blast
    from leave_room_object_inv [OF _ assms(2) srv_inv_get [OF assms(2) r(4)]] ph
    show ?thesis
      by (simp add: ph_def r)
  next
    case False
    with ph assms(2) show ?thesis
      by (auto simp: ph_def split: option.splits if_splits)
  qed
  from assms(1) have mv:
    "(case (srv1, e1) of
        (srv1, Some err) \<Rightarrow> (srv1, Some err)
      | (srv1, None) \<Rightarrow>
          (case rooms_get srv1 new_rid of
             None \<Rightarrow> (srv1, None)
           | Some target_room \<Rightarrow>
               (case add_player target_room pid
                       \<lparr>username = username en, socket = socket en\<rparr> (random_state srv1) of
                  Inl err \<Rightarrow> (srv1, Some err)
                | Inr (room', (ok, _), g') \<Rightarrow>
                    (let srv2 = (store_room srv1 new_rid room')\<lparr>random_state := g'\<rparr>
                     in
                       if \<not> ok then (srv2, None)
                       else
                         (let srv3 = srv2\<lparr>game_server.players :=
                                       AList.update pid
                                         (en\<lparr>player_entry.room_id := Some new_rid\<rparr>)
                                         (game_server.players srv2)\<rparr>;
                              srv4 = send_message_to_player srv3 pid
                                       (create_message ''room_joined'' SERVER
                                          (Room_joined new_rid name
                                             (map (\<lambda>(p, i). username i)
                                                (game_room.players room'))
                                             (creator_id room' = Some pid)));
                              srv5 = send_to srv4
                                       (broadcast_message room'
                                          (create_message ''player_joined'' SERVER
                                             (Text_notice (Joined_room_notice (username en))))
                                          (Some pid))
                          in
                            if new_rid \<noteq> ''lobby''
                            then (send_message_to_player srv5 pid
                                    (create_message ''game_state'' SERVER
                                       (Game_data (game_state room'))), None)
                            else (srv5, None)))))) = (srv', e)"
    unfolding move_player_to_room_def Some option.case Let_def ph [symmetric] ph_def by simp
  show ?thesis
  proof (cases e1)
    case (Some err)
    with mv i1 show ?thesis by simp
  next
    case None
    show ?thesis
    proof (cases "rooms_get srv1 new_rid")
      case rn: None
      with mv None i1 show ?thesis by simp
    next
      case (Some target_room)
      from srv_inv_get [OF i1 Some] have t: "room_ok new_rid target_room" .
      show ?thesis
      proof (cases "add_player target_room pid
                       \<lparr>username = username en, socket = socket en\<rparr> (random_state srv1)")
        case (Inl err)
        with mv None Some i1 show ?thesis by simp
      next
        case (Inr res)
        then obtain room' ok rp g' where
          ap: "add_player target_room pid \<lparr>username = username en, socket = socket en\<rparr>
                 (random_state srv1) = Inr (room', (ok, rp), g')"
          by (cases res) auto
        from srv_inv_store [OF i1 add_player_ok [OF ap t]]
        have "srv_inv (store_room srv1 new_rid room')" .
        with mv None Some ap show ?thesis
          by (auto simp: Let_def split: if_splits)
      qed
    qed
  qed
qed

lemma own_game_room_get:
  assumes "own_game_room srv pid = Some (en, rid, room)"
  shows "rooms_get srv rid = Some room \<and> rid \<noteq> ''lobby'' \<and>
         map_of (game_server.players srv) pid = Some en \<and>
         player_entry.room_id en = Some rid"
  using assms by (auto simp: own_game_room_def split: option.splits if_splits)

lemma handle_player_move_inv:
  assumes "handle_player_move srv pid m = (srv', e)" "srv_inv srv"
  shows "srv_inv srv'"
proof (cases "own_game_room srv pid")
  case None
  with assms show ?thesis by (auto simp: handle_player_move_def split: sum.splits)
next
  case (Some t)
  then obtain en rid room where o: "own_game_room srv pid = Some (en, rid, room)"
    by (cases t) auto
  from own_game_room_get [OF o] srv_inv_get [OF assms(2)] have ri: "room_ok rid room"
    by auto
  have st: "\<And>gs. srv_inv (store_room srv rid (room\<lparr>game_state := gs\<rparr>))"
    by (rule srv_inv_store [OF assms(2)]) (simp add: game_state_update_ok ri)
  have up: "\<And>gs g room2 g' out. update_game (room\<lparr>game_state := gs\<rparr>) g = Inr (room2, g', out) \<Longrightarrow>
              srv_inv (store_room srv rid room2)"
  proof -
    fix gs g room2 g' out
    assume "update_game (room\<lparr>game_state := gs\<rparr>) g = Inr (room2, g', out)"
    from update_game_ok [OF this, of rid] ri have "room_ok rid room2"
      by (simp add: game_state_update_ok)
    from srv_inv_store [OF assms(2) this] show "srv_inv (store_room srv rid room2)" .
  qed
  from assms show ?thesis
    by (auto simp: handle_player_move_def o Let_def st up split: sum.splits if_splits)
qed

lemma handle_chat_message_inv:
  assumes "handle_chat_message srv pid m = (srv', e)" "srv_inv srv"
  shows "srv_inv srv'"
  using assms
  by (auto simp: handle_chat_message_def split: sum.splits option.splits if_splits)

lemma handle_join_room_inv:
  assumes "handle_join_room srv pid m = (srv', e)" "srv_inv srv"
  shows "srv_inv srv'"
  using assms move_player_to_room_inv
  by (auto simp: handle_join_room_def split: sum.splits option.splits if_splits pyval.splits
           prod.splits)

lemma handle_leave_room_inv:
  assumes "handle_leave_room srv pid = (srv', e)" "srv_inv srv"
  shows "srv_inv srv'"
  using assms move_player_to_room_inv
  by (auto simp: handle_leave_room_def split: option.splits prod.splits)

lemma handle_start_game_inv:
  assumes "handle_start_game srv pid = (srv', e)" "srv_inv srv"
  shows "srv_inv srv'"
proof (cases "own_game_room srv pid")
  case None
  with assms show ?thesis by (simp add: handle_start_game_def)
next
  case (Some t)
  then obtain en rid room where o: "own_game_room srv pid = Some (en, rid, room)"
    by (cases t) auto
  from own_game_room_get [OF o] srv_inv_get [OF assms(2)] have ri: "room_ok rid room"
    by auto
  obtain room' ok msg where sg: "start_game room pid = (room', (ok, msg))"
    by (cases "start_game room pid") auto
  from srv_inv_store [OF assms(2) start_game_ok [OF sg ri]] assms(1) show ?thesis
    by (auto simp: handle_start_game_def o sg Let_def split: if_splits)
qed

lemma handle_restart_game_inv:
  assumes "handle_restart_game srv pid = (srv', e)" "srv_inv srv"
  shows "srv_inv srv'"
proof (cases "own_game_room srv pid")
  case None
  with assms show ?thesis by (simp add: handle_restart_game_def)
next
  case (Some t)
  then obtain en rid room where o: "own_game_room srv pid = Some (en, rid, room)"
    by (cases t) auto
  from own_game_room_get [OF o] srv_inv_get [OF assms(2)] have ri: "room_ok rid room"
    by auto
  show ?thesis
  proof (cases "restart_game room pid (random_state srv)")
    case (Inl err)
    with assms show ?thesis by (simp add: handle_restart_game_def o)
  next
    case (Inr res)
    then obtain room' ok msg g' where
      rg: "restart_game room pid (random_state srv) = Inr (room', (ok, msg), g')"
      by (cases res) auto
    from srv_inv_store [OF assms(2) restart_game_ok [OF rg ri]] assms(1) show ?thesis
      by (auto simp: handle_restart_game_def o rg Let_def split: if_splits)
  qed
qed

lemma srv_inv_rooms_update:
  "srv_inv (s\<lparr>rooms := rs\<rparr>) = (room_ok ''lobby'' (lobby_room s) \<and> rooms_ok rs)"
  by (simp add: srv_inv_def)

lemma capacity_of_room [simp]: "capacity_of (''room_'' @ n) = 4"
  by (simp add: capacity_of_def)

lemma handle_create_room_inv:
  assumes "handle_create_room srv pid m = (srv', e)" "srv_inv srv"
  shows "srv_inv srv'"
proof -
  have step: "srv_inv s'" if
    nr: "new_room (''room_'' @ k) name 4 g = Inr (room, g2)" and
    mv: "move_player_to_room
           (srv\<lparr>room_counter := n, rooms := AList.update (''room_'' @ k) room (rooms srv),
                 random_state := g2\<rparr>) pid (''room_'' @ k) name = (s', e')"
    for s' :: game_server and k name g room g2 e' n
  proof -
    from nr have "new_room (''room_'' @ k) name (capacity_of (''room_'' @ k)) g = Inr (room, g2)"
      by (simp only: capacity_of_room)
    from new_room_ok [OF this] have "room_ok (''room_'' @ k) room" .
    with assms(2) have
      "srv_inv (srv\<lparr>room_counter := n,
                     rooms := AList.update (''room_'' @ k) room (rooms srv),
                     random_state := g2\<rparr>)"
      by (simp add: srv_inv_def rooms_ok_update)
    from move_player_to_room_inv [OF mv this] show ?thesis .
  qed
  from assms show ?thesis
    unfolding handle_create_room_def
    by (auto simp: Let_def simp del: append.simps
             split: option.splits if_splits sum.splits prod.splits
             dest: step)
qed

lemma process_client_message_inv:
  assumes "process_client_message srv pid m = (srv', e, d)" "srv_inv srv"
  shows "srv_inv srv'"
  using assms handle_player_move_inv handle_chat_message_inv handle_create_room_inv
    handle_join_room_inv handle_leave_room_inv handle_start_game_inv handle_restart_game_inv
  unfolding process_client_message_def
  by (auto split: sum.splits if_splits prod.splits)

lemma session_loop_inv:
  assumes "session_loop fuel loads srv pid inp = (srv', r, inp')" "srv_inv srv"
  shows "srv_inv srv'"
  using assms
proof (induction fuel arbitrary: srv inp)
  case 0
  then show ?case by (auto split: if_splits)
next
  case (Suc fuel)
  show ?case
  proof (cases "running srv")
    case False
    with Suc.prems show ?thesis by simp
  next
    case True
    obtain m inp1 where rm: "receive_message loads inp = (m, inp1)"
      by (cases "receive_message loads inp")
    show ?thesis
    proof (cases "m = PyNone")
      case mn: True
      with Suc.prems True rm have "session_loop fuel loads srv pid inp1 = (srv', r, inp')"
        by simp
      from Suc.IH [OF this Suc.prems(2)] show ?thesis .
    next
      case mn: False
      show ?thesis
      proof (cases "truthy m")
        case False
        with Suc.prems True rm mn show ?thesis by simp
      next
        case tr: True
        obtain s1 e1 d1 where pc: "process_client_message srv pid m = (s1, e1, d1)"
          by (cases "process_client_message srv pid m")
        from process_client_message_inv [OF pc Suc.prems(2)] have i1: "srv_inv s1" .
        show ?thesis
        proof (cases "e1 = None \<and> \<not> d1")
          case True
          with Suc.prems(1) \<open>running srv\<close> rm mn tr pc have
            "session_loop fuel loads s1 pid inp1 = (srv', r, inp')"
            by simp
          from Suc.IH [OF this i1] show ?thesis .
        next
          case False
          with Suc.prems(1) \<open>running srv\<close> rm mn tr pc i1 show ?thesis
            by (auto split: option.splits bool.splits)
        qed
      qed
    qed
  qed
qed

lemma tick_rooms_inv:
  assumes "tick_rooms rids srv = (srv', e)" "srv_inv srv"
  shows "srv_inv srv'"
  using assms
proof (induction rids arbitrary: srv)
  case Nil
  then show ?case by simp
next
  case (Cons rid rids)
  show ?case
  proof (cases "map_of (rooms srv) rid")
    case None
    with Cons show ?thesis by simp
  next
    case (Some room)
    from Cons.prems(2) Some have ri: "room_ok rid room"
      using rooms_ok_map_of [of "rooms srv" rid room] by (simp add: srv_inv_def)
    show ?thesis
    proof (cases "rid \<noteq> ''lobby'' \<and> game_room.game_active room")
      case False
      with Cons Some show ?thesis by auto
    next
      case True
      show ?thesis
      proof (cases "update_game room (random_state srv)")
        case (Inl err)
        with Cons.prems Some True show ?thesis by simp
      next
        case (Inr res)
        then obtain room' g' out where
          ug: "update_game room (random_state srv) = Inr (room', g', out)"
          by (cases res) auto
        from update_game_ok [OF ug ri] have "room_ok rid room'" .
        with Cons.prems(2) have "rooms_ok (AList.update rid room' (rooms srv))"
          by (simp add: srv_inv_def rooms_ok_update)
        with Cons.prems(2) have
          i1: "srv_inv (send_to (srv\<lparr>rooms := AList.update rid room' (rooms srv),
                                      random_state := g'\<rparr>) out)"
          by (simp add: srv_inv_rooms_update) (simp add: srv_inv_def)
        from Cons.prems(1) Some True ug have
          "tick_rooms rids (send_to (srv\<lparr>rooms := AList.update rid room' (rooms srv),
                                      random_state := g'\<rparr>) out) = (srv', e)"
          by simp
        from Cons.IH [OF this i1] show ?thesis .
      qed
    qed
  qed
qed

lemma game_loop_tick_inv:
  assumes "game_loop_tick srv = (srv', e)" "srv_inv srv"
  shows "srv_inv srv'"
  using assms tick_rooms_inv by (simp add: game_loop_tick_def)

lemma new_server_inv:
  assumes "new_server g = Inr srv"
  shows "srv_inv srv"
proof -
  from assms obtain lobby g' where
    nr: "new_room ''lobby'' Lobby_name 50 g = Inr (lobby, g')" and
    s: "lobby_room srv = lobby" "rooms srv = []"
    by (auto simp: new_server_def split: sum.splits)
  from nr have "new_room ''lobby'' Lobby_name (capacity_of ''lobby'') g = Inr (lobby, g')"
    by (simp add: capacity_of_def)
  from new_room_ok [OF this] s show ?thesis
    by (simp add: srv_inv_def rooms_ok_def)
qed

lemma srv_inv_lobby_update:
  "srv_inv (s\<lparr>lobby_room := l\<rparr>) = (room_ok ''lobby'' l \<and> rooms_ok (rooms s))"
  by (simp add: srv_inv_def)

lemma session_body_inv:
  assumes "session_body fuel loads srv sock inp = (srv', p, r)" "srv_inv srv"
  shows "srv_inv srv'"
proof -
  have lob: "room_ok ''lobby'' l"
    if "add_player (lobby_room srv) pid info g = Inr (l, rp, g')" for l pid info g rp g'
    using add_player_ok [OF that] assms(2) by (simp add: srv_inv_def)
  have ro: "rooms_ok (rooms srv)" using assms(2) by (simp add: srv_inv_def)
  have loop: "srv_inv s'"
    if "session_loop fuel loads s pid inp1 = (s', r', inp2)" "srv_inv s"
    for s s' pid inp1 r' inp2
    using session_loop_inv [OF that] .
  from assms show ?thesis
    unfolding session_body_def
    by (auto simp: Let_def srv_inv_lobby_update ro
             split: prod.splits if_splits sum.splits
             dest!: lob elim!: loop)
qed

lemma handle_client_inv:
  assumes "handle_client fuel loads srv sock inp = (srv', r)" "srv_inv srv"
  shows "srv_inv srv'"
proof -
  obtain s1 p r1 where sb: "session_body fuel loads srv sock inp = (s1, p, r1)"
    by (cases "session_body fuel loads srv sock inp")
  from session_body_inv [OF sb assms(2)] have i1: "srv_inv s1" .
  from assms(1) i1 srv_remove_player_inv [of s1] show ?thesis
    unfolding handle_client_def sb
    by (auto split: if_splits option.splits prod.splits)
qed

lemma listed_room_ids_keys:
  assumes "rooms_ok (rooms srv)"
  shows "listed_room_ids srv = map fst (rooms srv)"
  using assms
  by (auto simp: listed_room_ids_def get_room_list_message_def create_message_def
        rooms_ok_def room_ok_def get_room_info_def)

lemma not_listed:
  assumes "srv_inv srv" "map_of (rooms srv) rid = None"
  shows "rid \<notin> set (listed_room_ids srv)"
proof -
  from assms(1) have "listed_room_ids srv = map fst (rooms srv)"
    by (simp add: srv_inv_def listed_room_ids_keys)
  with assms(2) show ?thesis by (simp add: map_of_eq_None_iff)
qed

lemma last_member_leaves_object:
  assumes "map fst (game_room.players room) = [pid]" "rid \<noteq> ''lobby''"
  shows "\<exists>srv'. leave_room_object srv rid room pid t = (srv', None) \<and>
           map_of (rooms srv') rid = None \<and> lobby_room srv' = lobby_room srv \<and>
           game_server.players srv' = game_server.players srv \<and>
           (\<forall>k. k \<noteq> rid \<longrightarrow> map_of (rooms srv') k = map_of (rooms srv) k)"
proof -
  from assms(1) obtain info where ps: "game_room.players room = [(pid, info)]"
    by (cases "game_room.players room") auto
  have "\<exists>room' g'. remove_player room pid (random_state srv) = Inr (room', True, g', [])"
    by (simp add: remove_player_def ps Let_def)
  then obtain room' g' where
    rp: "remove_player room pid (random_state srv) = Inr (room', True, g', [])" by blast
  show ?thesis
    using assms(2)
    by (simp add: leave_room_object_def rp Let_def send_to_def store_room_def
          delete_conv' update_conv')
qed

lemma rooms_send_to [simp]: "rooms (send_to srv out) = rooms srv"
  by (simp add: send_to_def)

lemma rooms_send_player [simp]: "rooms (send_message_to_player srv pid m) = rooms srv"
  by (simp add: send_message_to_player_def split: option.splits)

lemma rooms_room_list [simp]: "rooms (broadcast_room_list_to_lobby srv) = rooms srv"
  by (simp add: broadcast_room_list_to_lobby_def)

lemma map_of_store_other:
  assumes "k \<noteq> rid"
  shows "map_of (rooms (store_room srv rid room)) k = map_of (rooms srv) k"
  using assms by (simp add: store_room_def update_conv')

lemma last_member_disconnects:
  assumes "srv_inv srv" "map_of (game_server.players srv) pid = Some en"
    and "player_entry.room_id en = Some rid" "rid \<noteq> []" "rid \<noteq> ''lobby''"
    and "map_of (rooms srv) rid = Some room" "map fst (game_room.players room) = [pid]"
  shows "\<exists>srv'. srv_remove_player srv pid = (srv', None) \<and>
           map_of (rooms srv') rid = None \<and> rid \<notin> set (listed_room_ids srv')"
proof -
  let ?srv1 = "srv\<lparr>game_server.players := AList.delete pid (game_server.players srv)\<rparr>"
  have rg: "rooms_get ?srv1 rid = Some room" using assms(5,6) by (simp add: rooms_get_def)
  from last_member_leaves_object [OF assms(7,5), of ?srv1 "Left_game_notice (username en)"]
  obtain srv2 where
    l: "leave_room_object ?srv1 rid room pid (Left_game_notice (username en)) = (srv2, None)"
    and n: "map_of (rooms srv2) rid = None" by blast
  have r: "srv_remove_player srv pid = (broadcast_room_list_to_lobby srv2, None)"
    by (simp add: srv_remove_player_def assms(2,3,4) Let_def rg l)
  from srv_remove_player_inv [OF r assms(1)] have
    i: "srv_inv (broadcast_room_list_to_lobby srv2)" .
  have "map_of (rooms (broadcast_room_list_to_lobby srv2)) rid = None" using n by simp
  with r not_listed [OF i this] show ?thesis by blast
qed

lemma last_member_moves:
  assumes "srv_inv srv" "map_of (game_server.players srv) pid = Some en"
    and "player_entry.room_id en = Some rid" "rid \<noteq> []" "rid \<noteq> ''lobby''"
    and "map_of (rooms srv) rid = Some room" "map fst (game_room.players room) = [pid]"
    and "rid \<noteq> new_rid" "move_player_to_room srv pid new_rid name = (srv', e)"
  shows "map_of (rooms srv') rid = None \<and> rid \<notin> set (listed_room_ids srv')"
proof -
  have rg: "rooms_get srv rid = Some room" using assms(5,6) by (simp add: rooms_get_def)
  from last_member_leaves_object [OF assms(7,5), of srv "Left_room_notice (username en)"]
  obtain srv1 where
    l: "leave_room_object srv rid room pid (Left_room_notice (username en)) = (srv1, None)"
    and n: "map_of (rooms srv1) rid = None" by blast
  have st: "\<And>r. map_of (rooms (store_room srv1 new_rid r)) rid = None"
    using map_of_store_other [OF assms(8)] n by simp
  from assms(9) n st have "map_of (rooms srv') rid = None"
    unfolding move_player_to_room_def
    by (auto simp: assms(2,3,4,8) rg l Let_def
             split: option.splits sum.splits if_splits prod.splits)
  with not_listed [OF move_player_to_room_inv [OF assms(9,1)]] show ?thesis by blast
qed

lemma server_reachable_inv:
  assumes "server_reachable srv"
  shows "srv_inv srv"
  using assms
proof (induction rule: server_reachable.induct)
  case (init g srv)
  then show ?case by (rule new_server_inv)
next
  case (started srv)
  then show ?case by (simp add: start_server_def srv_inv_def)
next
  case (session srv fuel loads sock inp srv' r)
  then show ?case using handle_client_inv by blast
next
  case (handshake srv fuel loads sock inp srv' p r)
  then show ?case using session_body_inv by blast
next
  case (message srv pid m srv' e d)
  then show ?case using process_client_message_inv by blast
next
  case (cleanup srv pid srv' e)
  then show ?case using srv_remove_player_inv by blast
next
  case (tick srv srv' e)
  then show ?case using game_loop_tick_inv by blast
qed

lemma creator_reelected:
  assumes "remove_player room pid g = Inr (room', now_empty, g', out)"
    and "creator_id room = Some pid" "game_room.players room' \<noteq> []"
  shows "\<exists>c. creator_id room' = Some c \<and> c \<noteq> pid \<and> has_key (game_room.players room') c"
proof -
  let ?ps = "AList.delete pid (game_room.players room)"
  from assms obtain c where
    ch: "choice (map fst ?ps) g = Inr (c, g')" and
    r': "creator_id room' = Some c" "game_room.players room' = ?ps"
    by (auto simp: remove_player_def Let_def split: if_splits sum.splits)
  from choice_mem [OF ch] have c1: "has_key ?ps c" by (simp only: has_key_set)
  then have "c \<noteq> pid" by (simp add: has_key_delete)
  with c1 r' show ?thesis by simp
qed

lemma food_attempts_total:
  assumes "1 \<le> fst (grid_size gs)" "1 \<le> snd (grid_size gs)"
  shows "\<exists>gs' g'. food_attempts a gs g = Inr (gs', g') \<and> grid_size gs' = grid_size gs"
  using assms
proof (induction a gs g rule: food_attempts.induct)
  case (1 attempts gs g)
  show ?case
  proof (cases "attempts < 50")
    case False
    then show ?thesis by (simp add: food_attempts.simps)
  next
    case True
    obtain x g1 where r1: "randint 0 (fst (grid_size gs) - 1) g = Inr (x, g1)"
      using "1.prems" by (simp add: randint_def)
    obtain y g2 where r2: "randint 0 (snd (grid_size gs) - 1) g1 = Inr (y, g2)"
      using "1.prems" by (simp add: randint_def)
    show ?thesis
    proof (cases "\<not> occupied gs (x, y) \<and> (x, y) \<notin> set (food_positions gs)")
      case t: True
      then show ?thesis
        by (subst food_attempts.simps) (simp add: True r1 r2)
    next
      case f: False
      from "1.IH" [OF True r1 refl r2 refl f "1.prems"]
      obtain gs' g' where "food_attempts (attempts + 1) gs g2 = Inr (gs', g')"
        "grid_size gs' = grid_size gs" by blast
      with f show ?thesis
        by (subst food_attempts.simps) (simp add: True r1 r2)
    qed
  qed
qed

lemma generate_food_total:
  assumes "1 \<le> fst (grid_size gs)" "1 \<le> snd (grid_size gs)"
  shows "\<exists>gs' g'. generate_food n gs g = Inr (gs', g') \<and> grid_size gs' = grid_size gs"
  using assms
proof (induction n arbitrary: gs g)
  case 0
  then show ?case by simp
next
  case (Suc n)
  from food_attempts_total [OF Suc.prems, of 0 g] obtain gs1 g1 where
    f: "food_attempts 0 gs g = Inr (gs1, g1)" and gr: "grid_size gs1 = grid_size gs" by blast
  from Suc.IH [of gs1 g1] Suc.prems gr obtain gs' g' where
    "generate_food n gs1 g1 = Inr (gs', g')" "grid_size gs' = grid_size gs1" by auto
  with f gr show ?case by simp
qed

lemma new_server_total: "\<exists>srv. new_server g = Inr srv"
proof -
  have "\<exists>gs' g'. generate_food 5
          \<lparr>grid_size = (40, 30), snakes = [], food_positions = [],
           game_state.game_active = False\<rparr> g = Inr (gs', g')"
    using generate_food_total [of "\<lparr>grid_size = (40, 30), snakes = [], food_positions = [],
           game_state.game_active = False\<rparr>" 5 g] by auto
  then show ?thesis
    by (auto simp: new_server_def new_room_def new_game_state_def)
qed

text \<open>
  C7 (creator invariant and re-election).  Every server state reachable from a new server
  by sessions, client messages, player removals and scheduler passes satisfies the
  invariant \<open>srv_inv\<close>.  Under it every room of the directory, the lobby included, has
  at most \<open>max_players\<close> members, its one \<open>creator_id\<close> is a current member whenever it
  is set, it is set whenever the room has a member, the room is filed under its own id,
  and \<open>max_players\<close> is the capacity the room was constructed with (4 for a non-lobby
  room).  When the creator is removed from a room and members remain, the new creator is
  one of the remaining members.  When the only member of a non-lobby room disconnects or
  is moved to another room, the room is popped from the directory and its id is not in
  the room list sent to clients.
\<close>

theorem creator_invariant:
  "(server_reachable srv \<longrightarrow> srv_inv srv) \<and>
   (srv_inv srv \<and> rooms_get srv rid = Some room \<longrightarrow>
      int (length (game_room.players room)) \<le> max_players room \<and>
      (\<forall>c. creator_id room = Some c \<longrightarrow> has_key (game_room.players room) c) \<and>
      (game_room.players room \<noteq> [] \<longrightarrow> creator_id room \<noteq> None) \<and>
      game_room.room_id room = rid \<and> max_players room = capacity_of rid) \<and>
   (remove_player room pid g = Inr (room', now_empty, g', out) \<and>
    creator_id room = Some pid \<and> game_room.players room' \<noteq> [] \<longrightarrow>
      (\<exists>c. creator_id room' = Some c \<and> c \<noteq> pid \<and> has_key (game_room.players room') c)) \<and>
   (srv_inv srv \<and> map_of (game_server.players srv) pid = Some en \<and>
    player_entry.room_id en = Some rid \<and> rid \<noteq> [] \<and> rid \<noteq> ''lobby'' \<and>
    map_of (rooms srv) rid = Some room \<and> map fst (game_room.players room) = [pid] \<longrightarrow>
      (\<exists>srv'. srv_remove_player srv pid = (srv', None) \<and>
             map_of (rooms srv') rid = None \<and> rid \<notin> set (listed_room_ids srv')) \<and>
      (\<forall>new_rid name srv' e.
          rid \<noteq> new_rid \<and> move_player_to_room srv pid new_rid name = (srv', e) \<longrightarrow>
          map_of (rooms srv') rid = None \<and> rid \<notin> set (listed_room_ids srv')))"
proof (intro conjI impI)
  assume "server_reachable srv"
  then show "srv_inv srv" by (rule server_reachable_inv)
next
  assume a: "srv_inv srv \<and> rooms_get srv rid = Some room"
  then have "room_ok rid room" using srv_inv_get by blast
  then have "room_inv room \<and> game_room.room_id room = rid \<and>
             max_players room = capacity_of rid"
    by (simp add: room_ok_def)
  then show "int (length (game_room.players room)) \<le> max_players room"
    "\<forall>c. creator_id room = Some c \<longrightarrow> has_key (game_room.players room) c"
    "game_room.players room \<noteq> [] \<Longrightarrow> creator_id room \<noteq> None"
    "game_room.room_id room = rid"
    "max_players room = capacity_of rid"
    by (simp_all add: room_inv_def)
next
  assume "remove_player room pid g = Inr (room', now_empty, g', out) \<and>
    creator_id room = Some pid \<and> game_room.players room' \<noteq> []"
  then show "\<exists>c. creator_id room' = Some c \<and> c \<noteq> pid \<and> has_key (game_room.players room') c"
    using creator_reelected by blast
next
  assume a: "srv_inv srv \<and> map_of (game_server.players srv) pid = Some en \<and>
    player_entry.room_id en = Some rid \<and> rid \<noteq> [] \<and> rid \<noteq> ''lobby'' \<and>
    map_of (rooms srv) rid = Some room \<and> map fst (game_room.players room) = [pid]"
  then have f: "srv_inv srv" "map_of (game_server.players srv) pid = Some en"
    "player_entry.room_id en = Some rid" "rid \<noteq> []" "rid \<noteq> ''lobby''"
    "map_of (rooms srv) rid = Some room" "map fst (game_room.players room) = [pid]"
    by simp_all
  show "\<exists>srv'. srv_remove_player srv pid = (srv', None) \<and>
             map_of (rooms srv') rid = None \<and> rid \<notin> set (listed_room_ids srv')"
    by (rule last_member_disconnects [OF f])
  show "\<forall>new_rid name srv' e.
          rid \<noteq> new_rid \<and> move_player_to_room srv pid new_rid name = (srv', e) \<longrightarrow>
          map_of (rooms srv') rid = None \<and> rid \<notin> set (listed_room_ids srv')"
  proof (intro allI impI)
    fix new_rid name srv' e
    assume "rid \<noteq> new_rid \<and> move_player_to_room srv pid new_rid name = (srv', e)"
    then have "rid \<noteq> new_rid" "move_player_to_room srv pid new_rid name = (srv', e)"
      by simp_all
    from last_member_moves [OF f this]
    show "map_of (rooms srv') rid = None \<and> rid \<notin> set (listed_room_ids srv')" .
  qed
qed

theorem creator_invariant_witness:
  "server_reachable (projr (new_server (\<lambda>n. n))) \<and>
   srv_inv (projr (new_server (\<lambda>n. n))) \<and>
   (\<exists>g' out. remove_player two_player_room ''player_1'' (\<lambda>n. 0) =
               Inr (once_removed, False, g', out)) \<and>
   creator_id two_player_room = Some ''player_1'' \<and>
   creator_id once_removed = Some ''player_2'' \<and>
   srv_inv solo_server \<and>
   map_of (rooms solo_server) ''room_1'' = Some solo_room \<and>
   map fst (game_room.players solo_room) = [''player_1''] \<and>
   (\<exists>srv'. srv_remove_player solo_server ''player_1'' = (srv', None) \<and>
          map_of (rooms srv') ''room_1'' = None \<and>
          ''room_1'' \<notin> set (listed_room_ids srv'))"
proof -
  let ?s0 = "projr (new_server (\<lambda>n. n))"
  from new_server_total [of "\<lambda>n. n"] have "new_server (\<lambda>n. n) = Inr ?s0" by auto
  then have r0: "server_reachable ?s0" by (rule server_reachable.init)
  have i0: "srv_inv ?s0"
    by (rule creator_invariant [of ?s0, THEN conjunct1, THEN mp, OF r0])
  have rm: "remove_player two_player_room ''player_1'' (\<lambda>n. 0) =
              Inr (once_removed, False, rng_next (\<lambda>n. 0), notify_creator_change once_removed)"
    by (simp add: once_removed_def two_player_room_def remove_player_def example_info_def
          choice_def Let_def gs_remove_player_def AList.delete_eq)
  have c0: "creator_id two_player_room = Some ''player_1''"
    by (simp add: two_player_room_def)
  have ps: "map fst (game_room.players once_removed) = [''player_2'']"
    by (simp add: once_removed_def two_player_room_def remove_player_def example_info_def
          choice_def Let_def gs_remove_player_def AList.delete_eq)
  then have ne: "game_room.players once_removed \<noteq> []" by auto
  have p3: "remove_player two_player_room ''player_1'' (\<lambda>n. 0) =
              Inr (once_removed, False, rng_next (\<lambda>n. 0), notify_creator_change once_removed) \<and>
            creator_id two_player_room = Some ''player_1'' \<and>
            game_room.players once_removed \<noteq> []"
    using rm c0 ne by (intro conjI)
  from creator_invariant [of _ _ two_player_room "''player_1''" "\<lambda>n. 0" once_removed False
      "rng_next (\<lambda>n. 0)" "notify_creator_change once_removed",
      THEN conjunct2, THEN conjunct2, THEN conjunct1, THEN mp, OF p3]
  obtain c where "creator_id once_removed = Some c"
    "has_key (game_room.players once_removed) c" by (elim exE conjE)
  then have c1: "creator_id once_removed = Some ''player_2''"
    by (simp add: has_key_set ps)
  have i1: "srv_inv solo_server"
    by (simp add: srv_inv_def rooms_ok_def room_ok_def room_inv_def capacity_of_def
          solo_server_def solo_room_def empty_lobby_def two_player_room_def has_key_def)
  have h: "map_of (game_server.players solo_server) ''player_1'' =
             Some \<lparr>username = PyStr ''ann'', socket = 1, room_id = Some ''room_1''\<rparr>"
    "map_of (rooms solo_server) ''room_1'' = Some solo_room"
    "map fst (game_room.players solo_room) = [''player_1'']"
    by (simp_all add: solo_server_def solo_room_def)
  have p4: "srv_inv solo_server \<and>
    map_of (game_server.players solo_server) ''player_1'' =
      Some \<lparr>username = PyStr ''ann'', socket = 1, room_id = Some ''room_1''\<rparr> \<and>
    player_entry.room_id \<lparr>username = PyStr ''ann'', socket = 1, room_id = Some ''room_1''\<rparr> =
      Some ''room_1'' \<and> ''room_1'' \<noteq> [] \<and> ''room_1'' \<noteq> ''lobby'' \<and>
    map_of (rooms solo_server) ''room_1'' = Some solo_room \<and>
    map fst (game_room.players solo_room) = [''player_1'']"
    using i1 h by simp
  have t: "\<exists>srv'. srv_remove_player solo_server ''player_1'' = (srv', None) \<and>
          map_of (rooms srv') ''room_1'' = None \<and>
          ''room_1'' \<notin> set (listed_room_ids srv')"
    by (rule creator_invariant [of solo_server "''room_1''" solo_room "''player_1''" _ _ _ _ _
      "\<lparr>username = PyStr ''ann'', socket = 1, room_id = Some ''room_1''\<rparr>",
      THEN conjunct2, THEN conjunct2, THEN conjunct2, THEN mp, OF p4, THEN conjunct1])
  have e: "\<exists>g' out. remove_player two_player_room ''player_1'' (\<lambda>n. 0) =
               Inr (once_removed, False, g', out)"
    using rm by (intro exI)
  show ?thesis
    using r0 i0 e c0 c1 i1 h(2,3) t by (intro conjI)
qed

section \<open>The capacity of the lobby\<close>

lemma lobby_capacity:
  assumes "server_reachable srv"
  shows "max_players (lobby_room srv) = 50"
  using server_reachable_inv [OF assms]
  by (simp add: srv_inv_def room_ok_def capacity_of_def)

lemma add_player_full:
  assumes "max_players room \<le> int (length (game_room.players room))"
  shows "add_player room pid info g = Inr (room, (False, Room_full), g)"
  using assms by (simp add: add_player_def)

lemma full_lobby_rejects:
  assumes cap: "max_players (lobby_room srv) = 50"
    and full: "50 \<le> length (game_room.players (lobby_room srv))"
    and rm: "receive_message loads inp = (PyDict d, inp1)"
    and ty: "fmlookup d ''type'' = Some (PyStr ''auth'')"
    and da: "fmlookup d ''data'' = Some uname" "truthy uname"
    and fresh: "\<forall>e \<in> set (map snd (game_server.players srv)). username e \<noteq> uname"
    and pid: "pid = ''player_'' @ str_nat (player_counter srv + 1)"
  shows "\<exists>srv'. handle_client fuel loads srv sock inp = (srv', Exited) \<and>
           map_of (game_server.players srv') pid = None \<and>
           (\<forall>k. k \<noteq> pid \<longrightarrow>
               map_of (game_server.players srv') k = map_of (game_server.players srv) k) \<and>
           sent srv' = sent srv \<and>
           closed_sockets srv' = sock # closed_sockets srv \<and>
           lobby_room srv' = lobby_room srv \<and> rooms srv' = rooms srv"
proof -
  have ne: "d \<noteq> fmempty" using ty by auto
  let ?e = "\<lparr>username = uname, socket = sock, room_id = None\<rparr>"
  let ?s1 = "srv\<lparr>player_counter := player_counter srv + 1,
                 game_server.players := AList.update pid ?e (game_server.players srv)\<rparr>"
  have ap: "\<And>p. add_player (lobby_room srv) p \<lparr>username = uname, socket = sock\<rparr>
                   (random_state srv) =
            Inr (lobby_room srv, (False, Room_full), random_state srv)"
    by (rule add_player_full) (use cap full in simp)
  let ?s2 = "srv\<lparr>player_counter := player_counter srv + 1,
                 game_server.players :=
                   AList.delete pid (AList.update pid ?e (game_server.players srv)),
                 lobby_room := lobby_room srv, random_state := random_state srv\<rparr>"
  have sb: "session_body fuel loads srv sock inp = (?s2, Some pid, Exited)"
    using fresh
    by (simp add: session_body_def rm ne py_get_def ty da Let_def pid ap)
  have gone: "map_of (game_server.players ?s2) pid = None"
    by (simp add: delete_conv')
  have rp: "srv_remove_player ?s2 pid = (?s2, None)"
    using gone by (simp add: srv_remove_player_def)
  have pne: "pid \<noteq> []" by (simp add: pid)
  have hc: "handle_client fuel loads srv sock inp =
              (?s2\<lparr>closed_sockets := sock # closed_sockets ?s2\<rparr>, Exited)"
    unfolding handle_client_def sb using rp pne by simp
  show ?thesis
    unfolding hc
    by (rule exI [of _ "?s2\<lparr>closed_sockets := sock # closed_sockets ?s2\<rparr>"])
       (simp add: delete_conv' update_conv')
qed

text \<open>
  C10 (lobby cap).  In every reachable server state the lobby has \<open>max_players = 50\<close>.
  When the lobby has that capacity and already holds 50 members, a session whose first
  message is an AUTH message with a non-empty username that no registered player uses
  ends at once: the directory entry created for the new player id is deleted again (every
  other entry is as before), the lobby and the rooms are unchanged, nothing is sent (no
  AUTH reply), and the socket is closed.
\<close>

theorem full_lobby_rejects_auth:
  "(server_reachable srv \<longrightarrow> max_players (lobby_room srv) = 50) \<and>
   (max_players (lobby_room srv) = 50 \<and>
    50 \<le> length (game_room.players (lobby_room srv)) \<and>
    receive_message loads inp = (PyDict d, inp1) \<and>
    fmlookup d ''type'' = Some (PyStr ''auth'') \<and>
    fmlookup d ''data'' = Some uname \<and> truthy uname \<and>
    (\<forall>e \<in> set (map snd (game_server.players srv)). username e \<noteq> uname) \<longrightarrow>
      (\<exists>srv'. handle_client fuel loads srv sock inp = (srv', Exited) \<and>
             map_of (game_server.players srv')
               (''player_'' @ str_nat (player_counter srv + 1)) = None \<and>
             (\<forall>k. k \<noteq> ''player_'' @ str_nat (player_counter srv + 1) \<longrightarrow>
                 map_of (game_server.players srv') k = map_of (game_server.players srv) k) \<and>
             sent srv' = sent srv \<and>
             closed_sockets srv' = sock # closed_sockets srv \<and>
             lobby_room srv' = lobby_room srv \<and> rooms srv' = rooms srv))"
proof (intro conjI impI)
  assume "server_reachable srv"
  then show "max_players (lobby_room srv) = 50" by (rule lobby_capacity)
next
  assume a: "max_players (lobby_room srv) = 50 \<and>
    50 \<le> length (game_room.players (lobby_room srv)) \<and>
    receive_message loads inp = (PyDict d, inp1) \<and>
    fmlookup d ''type'' = Some (PyStr ''auth'') \<and>
    fmlookup d ''data'' = Some uname \<and> truthy uname \<and>
    (\<forall>e \<in> set (map snd (game_server.players srv)). username e \<noteq> uname)"
  then have f: "max_players (lobby_room srv) = 50"
    "50 \<le> length (game_room.players (lobby_room srv))"
    "receive_message loads inp = (PyDict d, inp1)"
    "fmlookup d ''type'' = Some (PyStr ''auth'')"
    "fmlookup d ''data'' = Some uname" "truthy uname"
    "\<forall>e \<in> set (map snd (game_server.players srv)). username e \<noteq> uname"
    by simp_all
  show "\<exists>srv'. handle_client fuel loads srv sock inp = (srv', Exited) \<and>
             map_of (game_server.players srv')
               (''player_'' @ str_nat (player_counter srv + 1)) = None \<and>
             (\<forall>k. k \<noteq> ''player_'' @ str_nat (player_counter srv + 1) \<longrightarrow>
                 map_of (game_server.players srv') k = map_of (game_server.players srv) k) \<and>
             sent srv' = sent srv \<and>
             closed_sockets srv' = sock # closed_sockets srv \<and>
             lobby_room srv' = lobby_room srv \<and> rooms srv' = rooms srv"
    by (rule full_lobby_rejects [OF f refl])
qed

theorem full_lobby_rejects_auth_witness:
  "server_reachable (projr (new_server (\<lambda>n. n))) \<and>
   max_players (lobby_room (projr (new_server (\<lambda>n. n)))) = 50 \<and>
   max_players (lobby_room full_server) = 50 \<and>
   length (game_room.players (lobby_room full_server)) = 50 \<and>
   receive_message example_loads [Chunk [0, 0, 0, 1], Chunk [1]] =
     (PyDict (fmap_of_list [(''type'', PyStr ''auth''), (''data'', PyStr ''zoe'')]), []) \<and>
   (\<exists>srv'. handle_client 5 example_loads full_server 9 [Chunk [0, 0, 0, 1], Chunk [1]] =
            (srv', Exited) \<and>
          map_of (game_server.players srv') ''player_2'' = None \<and>
          sent srv' = [] \<and> closed_sockets srv' = [9])"
proof -
  let ?s0 = "projr (new_server (\<lambda>n. n))"
  let ?d = "fmap_of_list [(''type'', PyStr ''auth''), (''data'', PyStr ''zoe'')]"
  from new_server_total [of "\<lambda>n. n"] have "new_server (\<lambda>n. n) = Inr ?s0" by auto
  then have r0: "server_reachable ?s0" by (rule server_reachable.init)
  have c0: "max_players (lobby_room ?s0) = 50"
    by (rule full_lobby_rejects_auth [of ?s0, THEN conjunct1, THEN mp, OF r0])
  have c1: "max_players (lobby_room full_server) = 50"
    by (simp add: full_server_def empty_lobby_def)
  have l1: "length (game_room.players (lobby_room full_server)) = 50"
    by (simp add: full_server_def)
  have rm: "receive_message example_loads [Chunk [0, 0, 0, 1], Chunk [1]] = (PyDict ?d, [])"
    by (simp add: receive_message_def unpack_length_def read_body.simps
          deserialize_message_def example_loads_def)
  have fr: "\<forall>e \<in> set (map snd (game_server.players full_server)). username e \<noteq> PyStr ''zoe''"
    by (simp add: full_server_def solo_server_def)
  have p: "max_players (lobby_room full_server) = 50 \<and>
    50 \<le> length (game_room.players (lobby_room full_server)) \<and>
    receive_message example_loads [Chunk [0, 0, 0, 1], Chunk [1]] = (PyDict ?d, []) \<and>
    fmlookup ?d ''type'' = Some (PyStr ''auth'') \<and>
    fmlookup ?d ''data'' = Some (PyStr ''zoe'') \<and> truthy (PyStr ''zoe'') \<and>
    (\<forall>e \<in> set (map snd (game_server.players full_server)). username e \<noteq> PyStr ''zoe'')"
    using c1 l1 rm fr by simp
  have pc: "''player_'' @ str_nat (player_counter full_server + 1) = ''player_2''"
    by (simp add: full_server_def solo_server_def str_nat.simps)
  have se: "sent full_server = []" "closed_sockets full_server = []"
    by (simp_all add: full_server_def solo_server_def)
  from full_lobby_rejects_auth [of full_server example_loads
      "[Chunk [0, 0, 0, 1], Chunk [1]]" ?d "[]" "PyStr ''zoe''" 5 9,
      THEN conjunct2, THEN mp, OF p]
  obtain srv' where
    "handle_client 5 example_loads full_server 9 [Chunk [0, 0, 0, 1], Chunk [1]] =
       (srv', Exited)"
    "map_of (game_server.players srv')
       (''player_'' @ str_nat (player_counter full_server + 1)) = None"
    "sent srv' = sent full_server"
    "closed_sockets srv' = 9 # closed_sockets full_server"
    by (elim exE conjE)
  then have "\<exists>srv'. handle_client 5 example_loads full_server 9 [Chunk [0, 0, 0, 1], Chunk [1]] =
            (srv', Exited) \<and>
          map_of (game_server.players srv') ''player_2'' = None \<and>
          sent srv' = [] \<and> closed_sockets srv' = [9]"
    unfolding pc se by (intro exI [of _ srv'] conjI)
  with r0 c0 c1 l1 rm show ?thesis by (intro conjI)
qed

section \<open>The clock of the simulation\<close>













section \<open>The end of a session\<close>




lemma receive_closed: "receive_message loads [] = (PyNone, [])"
  by (simp add: receive_message_def)






lemma rooms_get_send_to [simp]: "rooms_get (send_to srv out) rid = rooms_get srv rid"
  by (simp add: rooms_get_def send_to_def)

lemma rooms_get_room_list [simp]:
  "rooms_get (broadcast_room_list_to_lobby srv) rid = rooms_get srv rid"
  by (simp add: broadcast_room_list_to_lobby_def)






text \<open>Only the \<open>finally\<close> block of \<open>handle_client\<close> closes a client socket.\<close>

lemma closed_send_to [simp]: "closed_sockets (send_to srv out) = closed_sockets srv"
  by (simp add: send_to_def)

lemma closed_store_room [simp]: "closed_sockets (store_room srv rid room) = closed_sockets srv"
  by (simp add: store_room_def)

lemma closed_send_player [simp]:
  "closed_sockets (send_message_to_player srv pid m) = closed_sockets srv"
  by (simp add: send_message_to_player_def split: option.splits)

lemma closed_room_list_player [simp]:
  "closed_sockets (send_room_list_to_player srv pid) = closed_sockets srv"
  by (simp add: send_room_list_to_player_def)

lemma closed_room_list [simp]:
  "closed_sockets (broadcast_room_list_to_lobby srv) = closed_sockets srv"
  by (simp add: broadcast_room_list_to_lobby_def)

lemma closed_leave:
  assumes "leave_room_object srv rid room pid t = (srv', e)"
  shows "closed_sockets srv' = closed_sockets srv"
  using assms
  by (auto simp: leave_room_object_def Let_def split: sum.splits if_splits)

lemma closed_remove:
  assumes "srv_remove_player srv pid = (srv', e)"
  shows "closed_sockets srv' = closed_sockets srv"
  using assms
  by (auto simp: srv_remove_player_def Let_def
           split: option.splits if_splits prod.splits dest!: closed_leave)
















end
